(* ===== verification/Go_Prelude.thy ===== *)
theory Go_Prelude
  imports Main "HOL-Library.AList"
begin

text \<open>
  Shared vocabulary of the development: byte strings and Go maps, the error values the
  program builds, and computations that thread a state and end in a value, an error or a
  panic. Every component is written with the combinators of this theory, and its proofs
  use the collections declared here.
\<close>

section \<open>Byte strings and maps\<close>

text \<open>
  A Go \<open>string\<close> and a \<open>[]byte\<close> are both byte sequences: a \<^typ>\<open>char\<close> is one byte.
  A Go \<open>map[string]V\<close> is an association list read with \<^const>\<open>map_of\<close>; where the code
  tells a nil map from an empty one, the map is an option.
\<close>

type_synonym bytes = string
type_synonym 'v go_map = "(string \<times> 'v) list"

abbreviation quot :: char where "quot \<equiv> CHR 0x22"
abbreviation squot :: char where "squot \<equiv> CHR 0x27"
abbreviation bslash :: char where "bslash \<equiv> CHR 0x5C"
abbreviation newline :: char where "newline \<equiv> CHR 0x0A"

text \<open>\<open>m[k]\<close> on a map of byte slices: a missing key reads as the empty slice.\<close>

definition map_index :: "bytes go_map \<Rightarrow> string \<Rightarrow> bytes" where
  "map_index m k = (case map_of m k of None \<Rightarrow> [] | Some v \<Rightarrow> v)"

text \<open>\<open>m[k] = v\<close> on a non-nil map.\<close>

abbreviation map_assign :: "string \<Rightarrow> 'v \<Rightarrow> 'v go_map \<Rightarrow> 'v go_map" where
  "map_assign \<equiv> AList.update"

lemma map_index_assign:
  "map_index (map_assign k v m) k' = (if k' = k then v else map_index m k')"
  by (simp add: map_index_def update_conv)

lemma map_index_assign_same [simp]: "map_index (map_assign k v m) k = v"
  by (simp add: map_index_assign)

lemma map_index_assign_other [simp]:
  "k' \<noteq> k \<Longrightarrow> map_index (map_assign k v m) k' = map_index m k'"
  by (simp add: map_index_assign)

lemma map_index_Nil [simp]: "map_index [] k = []"
  by (simp add: map_index_def)

text \<open>\<open>strings.Join(xs, sep)\<close> and \<open>strings.TrimPrefix(s, prefix)\<close>.\<close>

fun strings_Join :: "string list \<Rightarrow> string \<Rightarrow> string" where
  "strings_Join [] sep = []"
| "strings_Join [x] sep = x"
| "strings_Join (x # y # xs) sep = x @ sep @ strings_Join (y # xs) sep"

definition strings_TrimPrefix :: "string \<Rightarrow> string \<Rightarrow> string" where
  "strings_TrimPrefix s p = (if take (length p) s = p then drop (length p) s else s)"

lemma TrimPrefix_append [simp]: "strings_TrimPrefix (p @ s) p = s"
  by (simp add: strings_TrimPrefix_def)

section \<open>Errors and panics\<close>

text \<open>
  What an API call can fail with: a Kubernetes status error, told apart by its reason
  (\<open>apierrors.IsNotFound\<close>, \<open>IsAlreadyExists\<close>), with its message.
\<close>

datatype status_reason =
    ReasonNotFound
  | ReasonAlreadyExists
  | ReasonConflict
  | ReasonBadRequest
  | ReasonOther

datatype api_error = StatusError (reason: status_reason) (api_message: string)

definition IsNotFound :: "api_error \<Rightarrow> bool" where
  "IsNotFound e \<longleftrightarrow> reason e = ReasonNotFound"

definition IsAlreadyExists :: "api_error \<Rightarrow> bool" where
  "IsAlreadyExists e \<longleftrightarrow> reason e = ReasonAlreadyExists"

text \<open>
  \<open>Errorf s\<close> is \<open>fmt.Errorf(s)\<close> with no wrapped error, \<open>Wrapf s e\<close> is
  \<open>fmt.Errorf("s%w", e)\<close>.
\<close>

datatype go_error =
    ApiError api_error
  | Errorf string
  | Wrapf string go_error

fun error_string :: "go_error \<Rightarrow> string" where
  "error_string (ApiError e) = api_message e"
| "error_string (Errorf s) = s"
| "error_string (Wrapf s e) = s @ error_string e"

text \<open>\<open>errors.As\<close> down to the API error that caused an error.\<close>

fun root_cause :: "go_error \<Rightarrow> go_error" where
  "root_cause (Wrapf s e) = root_cause e"
| "root_cause e = e"

text \<open>The ways the code can panic.\<close>

datatype panic =
    NilDereference string
  | NilMapWrite
  | ExplicitPanic string

section \<open>Computations\<close>

datatype 'a outcome =
    Return 'a
  | Error go_error
  | Panicked panic

type_synonym ('w, 'a) api = "'w \<Rightarrow> (api_error + 'a) \<times> 'w"
type_synonym ('w, 'a) go = "'w \<Rightarrow> 'a outcome \<times> 'w"

named_theorems go_defs "definitions of the computation combinators"

definition ret :: "'a \<Rightarrow> ('w, 'a) go" where
  [go_defs]: "ret a = (\<lambda>w. (Return a, w))"

definition fail :: "go_error \<Rightarrow> ('w, 'a) go" where
  [go_defs]: "fail e = (\<lambda>w. (Error e, w))"

definition panicking :: "panic \<Rightarrow> ('w, 'a) go" where
  [go_defs]: "panicking p = (\<lambda>w. (Panicked p, w))"

text \<open>
  \<open>bind_err m h k\<close>: run \<open>m\<close>; on a value go on with \<open>k\<close>; on an error \<open>e\<close> return
  \<open>h e\<close>, as \<open>if err != nil { return ..., h(err) }\<close> does; a panic goes through.
\<close>

definition bind_err ::
  "('w, 'a) go \<Rightarrow> (go_error \<Rightarrow> go_error) \<Rightarrow> ('a \<Rightarrow> ('w, 'b) go) \<Rightarrow> ('w, 'b) go" where
  [go_defs]: "bind_err m h k = (\<lambda>w. case m w of
       (Return a, w') \<Rightarrow> k a w'
     | (Error e, w') \<Rightarrow> (Error (h e), w')
     | (Panicked p, w') \<Rightarrow> (Panicked p, w'))"

abbreviation bind_go :: "('w, 'a) go \<Rightarrow> ('a \<Rightarrow> ('w, 'b) go) \<Rightarrow> ('w, 'b) go" where
  "bind_go m k \<equiv> bind_err m (\<lambda>e. e) k"

definition call :: "('w, 'a) api \<Rightarrow> ('w, 'a) go" where
  [go_defs]: "call op = (\<lambda>w. case op w of
       (Inl e, w') \<Rightarrow> (Error (ApiError e), w')
     | (Inr a, w') \<Rightarrow> (Return a, w'))"

text \<open>
  A call whose error the code looks at instead of returning it, and a function whose error
  its caller keeps as a value: \<open>v, err := f()\<close> where the code goes on with either.
\<close>

definition attempt :: "('w, 'a) api \<Rightarrow> ('w, api_error + 'a) go" where
  [go_defs]: "attempt op = (\<lambda>w. case op w of (r, w') \<Rightarrow> (Return r, w'))"

definition catch_err :: "('w, 'a) go \<Rightarrow> ('w, go_error + 'a) go" where
  [go_defs]: "catch_err m = (\<lambda>w. case m w of
       (Return a, w') \<Rightarrow> (Return (Inr a), w')
     | (Error e, w') \<Rightarrow> (Return (Inl e), w')
     | (Panicked p, w') \<Rightarrow> (Panicked p, w'))"

text \<open>A pure function that returns a value and an error.\<close>

definition of_result :: "go_error + 'a \<Rightarrow> ('w, 'a) go" where
  [go_defs]: "of_result r = (case r of Inl e \<Rightarrow> fail e | Inr a \<Rightarrow> ret a)"

text \<open>
  A pointer the code reads a field of: nil panics.
\<close>

definition deref :: "string \<Rightarrow> 'a option \<Rightarrow> ('w, 'a) go" where
  [go_defs]: "deref what p = (case p of None \<Rightarrow> panicking (NilDereference what) | Some a \<Rightarrow> ret a)"

text \<open>
  \<open>for _, x := range xs { ... }\<close> with the loop's variables as an accumulator; an error or
  a panic of the body leaves the loop.
\<close>

fun for_range :: "('x \<Rightarrow> 'acc \<Rightarrow> ('w, 'acc) go) \<Rightarrow> 'x list \<Rightarrow> 'acc \<Rightarrow> ('w, 'acc) go" where
  "for_range f [] acc = ret acc"
| "for_range f (x # xs) acc = bind_go (f x acc) (for_range f xs)"

lemma ret_run: "ret a w = (Return a, w)"
  by (simp add: ret_def)

lemma fail_run: "fail e w = (Error e, w)"
  by (simp add: fail_def)

lemma panicking_run: "panicking p w = (Panicked p, w)"
  by (simp add: panicking_def)

text \<open>
  Evaluating a computation. The simplifier eta-contracts these equations, so it sees
  \<open>Pair (Return a)\<close> where a value is returned: the collection holds that form too.
\<close>

lemma bind_err_Pair:
  "bind_err (Pair (Return a)) h k = k a"
  "bind_err (Pair (Error e)) h k = Pair (Error (h e))"
  "bind_err (Pair (Panicked p)) h k = Pair (Panicked p)"
  by (simp_all add: bind_err_def fun_eq_iff)

lemma deref_None [simp]: "deref s None = panicking (NilDereference s)"
  by (simp add: deref_def)

lemma deref_Some [simp]: "deref s (Some a) = ret a"
  by (simp add: deref_def)

lemma of_result_simps [simp]:
  "of_result (Inl e) = fail e" "of_result (Inr a) = ret a"
  by (simp_all add: of_result_def)

lemma bind_err_ret [simp]: "bind_err (ret a) h k = k a"
  by (simp add: bind_err_def ret_def)

lemma bind_err_fail [simp]: "bind_err (fail e) h k = fail (h e)"
  by (simp add: bind_err_def fail_def)

lemma bind_err_panicking [simp]: "bind_err (panicking p) h k = panicking p"
  by (simp add: bind_err_def panicking_def)

lemma bind_err_Return: "m w = (Return a, w') \<Longrightarrow> bind_err m h k w = k a w'"
  by (simp add: bind_err_def)

lemma bind_err_Error: "m w = (Error e, w') \<Longrightarrow> bind_err m h k w = (Error (h e), w')"
  by (simp add: bind_err_def)

lemma bind_err_Panicked: "m w = (Panicked p, w') \<Longrightarrow> bind_err m h k w = (Panicked p, w')"
  by (simp add: bind_err_def)

lemmas bind_err_run = bind_err_Return bind_err_Error bind_err_Panicked

lemma call_Inl: "op w = (Inl e, w') \<Longrightarrow> call op w = (Error (ApiError e), w')"
  by (simp add: call_def)

lemma call_Inr: "op w = (Inr a, w') \<Longrightarrow> call op w = (Return a, w')"
  by (simp add: call_def)

lemmas call_run = call_Inl call_Inr

lemma attempt_run: "op w = (r, w') \<Longrightarrow> attempt op w = (Return r, w')"
  by (simp add: attempt_def)

lemma catch_err_simps [simp]:
  "catch_err (ret a) = ret (Inr a)" "catch_err (fail e) = ret (Inl e)"
  "catch_err (panicking p) = panicking p"
  by (simp_all add: catch_err_def go_defs)

lemma catch_err_run:
  "m w = (Return a, w') \<Longrightarrow> catch_err m w = (Return (Inr a), w')"
  "m w = (Error e, w') \<Longrightarrow> catch_err m w = (Return (Inl e), w')"
  "m w = (Panicked p, w') \<Longrightarrow> catch_err m w = (Panicked p, w')"
  by (simp_all add: catch_err_def)

lemma catch_err_Pair:
  "catch_err (Pair (Return a)) = Pair (Return (Inr a))"
  "catch_err (Pair (Error e)) = Pair (Return (Inl e))"
  "catch_err (Pair (Panicked p)) = Pair (Panicked p)"
  by (simp_all add: catch_err_def fun_eq_iff)

lemmas go_run = ret_run fail_run panicking_run bind_err_Pair catch_err_Pair

lemma bind_err_cases:
  assumes "bind_err m h k w = (out, w')"
  obtains (Return) a w1 where "m w = (Return a, w1)" "k a w1 = (out, w')"
  | (Error) e where "m w = (Error e, w')" "out = Error (h e)"
  | (Panicked) p where "m w = (Panicked p, w')" "out = Panicked p"
proof (cases "m w")
  case (Pair o1 w1)
  with assms that show thesis by (cases o1) (auto simp: bind_err_def)
qed

lemma bind_err_ReturnE:
  assumes "bind_err m h k w = (Return b, w')"
  obtains a w1 where "m w = (Return a, w1)" "k a w1 = (Return b, w')"
  using assms by (cases rule: bind_err_cases) auto

lemma call_ReturnE:
  assumes "call op w = (Return a, w')"
  shows "op w = (Inr a, w')"
  using assms by (auto simp: call_def split: prod.splits sum.splits)

text \<open>
  \<open>yields m P\<close>: whatever the state, a value \<open>m\<close> returns satisfies \<open>P\<close>.
\<close>

definition yields :: "('w, 'a) go \<Rightarrow> ('a \<Rightarrow> bool) \<Rightarrow> bool" where
  "yields m P \<longleftrightarrow> (\<forall>w a w'. m w = (Return a, w') \<longrightarrow> P a)"

lemma yieldsD: "yields m P \<Longrightarrow> m w = (Return a, w') \<Longrightarrow> P a"
  unfolding yields_def by blast

lemma yields_True: "yields m (\<lambda>_. True)"
  by (simp add: yields_def)

lemma yields_weaken: "yields m P \<Longrightarrow> (\<And>a. P a \<Longrightarrow> Q a) \<Longrightarrow> yields m Q"
  by (simp add: yields_def)

lemma yields_ret: "P a \<Longrightarrow> yields (ret a) P"
  by (simp add: yields_def ret_def)

lemma yields_fail: "yields (fail e) P"
  by (simp add: yields_def fail_def)

lemma yields_panicking: "yields (panicking p) P"
  by (simp add: yields_def panicking_def)

lemma yields_if: "(b \<Longrightarrow> yields m P) \<Longrightarrow> (\<not> b \<Longrightarrow> yields n P) \<Longrightarrow> yields (if b then m else n) P"
  by simp

lemma yields_bind_err:
  "yields m P \<Longrightarrow> (\<And>a. P a \<Longrightarrow> yields (k a) Q) \<Longrightarrow> yields (bind_err m h k) Q"
  unfolding yields_def by (blast elim: bind_err_ReturnE)

lemma yields_bind: "(\<And>a. yields (k a) Q) \<Longrightarrow> yields (bind_err m h k) Q"
  by (rule yields_bind_err [OF yields_True])

lemma yields_catch_err:
  assumes "yields m P" and "\<And>a. P a \<Longrightarrow> Q (Inr a)" and "\<And>e. Q (Inl e)"
  shows "yields (catch_err m) Q"
proof -
  have "Q x" if "catch_err m w = (Return x, w')" for w x w'
    using that assms unfolding yields_def catch_err_def
    by (cases "m w"; cases "fst (m w)") auto
  then show ?thesis by (simp add: yields_def)
qed

text \<open>
  Two-sided induction over a loop: an invariant of accumulator and state that every
  iteration keeps while it returns holds when the loop returns.
\<close>

lemma for_range_invariant:
  assumes loop: "for_range f xs acc w = (Return acc', w')"
    and start: "I [] acc w"
    and step: "\<And>ys x zs a s a' s'. xs = ys @ x # zs \<Longrightarrow> I ys a s \<Longrightarrow> f x a s = (Return a', s') \<Longrightarrow>
      I (ys @ [x]) a' s'"
  shows "I xs acc' w'"
proof -
  have "I (pre @ rest) acc' w'"
    if "for_range f rest a s = (Return acc', w')" and "I pre a s" and "xs = pre @ rest"
    for pre rest a s
    using that
  proof (induction rest arbitrary: pre a s)
    case Nil
    then show ?case by (simp add: go_run)
  next
    case (Cons x rest)
    from Cons.prems(1) obtain a1 s1 where
      fx: "f x a s = (Return a1, s1)" and rest: "for_range f rest a1 s1 = (Return acc', w')"
      by (auto elim: bind_err_ReturnE)
    have "I (pre @ [x]) a1 s1" by (rule step [OF Cons.prems(3) Cons.prems(2) fx])
    from Cons.IH [OF rest this] Cons.prems(3) show ?case by simp
  qed
  from this [OF loop start] show ?thesis by simp
qed

text \<open>Running a loop whose iterations all return.\<close>

lemma for_range_Return:
  assumes "\<And>x. x \<in> set xs \<Longrightarrow> f x acc w = (Return acc, w)"
  shows "for_range f xs acc w = (Return acc, w)"
  using assms by (induction xs) (auto simp: bind_err_Return go_run)

end
