(* ===== verification/Api_Types.thy ===== *)
theory Api_Types
  imports Go_Prelude
begin

text \<open>
  The objects the program reads and writes. The types of \<open>api/v1alpha1\<close> are translated
  field by field. Of the Cluster API, RKE2 and core types, which other modules define, the
  records hold the fields the program reads or writes.
\<close>

section \<open>Object metadata and references\<close>

text \<open>
  \<open>metav1.ObjectMeta\<close>: the resource version is opaque to the program (0 stands for the
  empty version of an object never stored); a deletion timestamp that is not \<open>IsZero\<close>
  is \<open>Some\<close>.
\<close>

record object_meta =
  om_Name :: string
  om_Namespace :: string
  om_Labels :: "string go_map"
  om_Annotations :: "string go_map"
  om_DeletionTimestamp :: "nat option"
  om_ResourceVersion :: nat

definition meta_for :: "string \<Rightarrow> string \<Rightarrow> object_meta" where
  "meta_for nm ns = \<lparr>om_Name = nm, om_Namespace = ns, om_Labels = [], om_Annotations = [],
     om_DeletionTimestamp = None, om_ResourceVersion = 0\<rparr>"

lemma meta_for_simps [simp]:
  "om_Name (meta_for nm ns) = nm" "om_Namespace (meta_for nm ns) = ns"
  "om_Labels (meta_for nm ns) = []" "om_Annotations (meta_for nm ns) = []"
  "om_DeletionTimestamp (meta_for nm ns) = None" "om_ResourceVersion (meta_for nm ns) = 0"
  by (simp_all add: meta_for_def)

record object_key =
  ok_Namespace :: string
  ok_Name :: string

abbreviation key :: "string \<Rightarrow> string \<Rightarrow> object_key" where
  "key ns nm \<equiv> \<lparr>ok_Namespace = ns, ok_Name = nm\<rparr>"

record object_reference =
  or_Kind :: string
  or_Name :: string

section \<open>api/v1alpha1: EtcdMachineBackup\<close>

text \<open>\<open>clusterv1.Condition\<close>, with the fields the generated CRD lists.\<close>

record condition =
  cond_Type :: string
  cond_Status :: string
  cond_Severity :: string
  cond_LastTransitionTime :: string
  cond_Reason :: string
  cond_Message :: string

record EtcdMachineBackupSpec =
  mbs_ClusterName :: string
  mbs_MachineName :: string
  mbs_Location :: string
  mbs_Manual :: bool

record EtcdMachineBackupStatus =
  mbst_Conditions :: "condition list"

record EtcdMachineBackup =
  mb_meta :: object_meta
  mb_Spec :: EtcdMachineBackupSpec
  mb_Status :: EtcdMachineBackupStatus

section \<open>api/v1alpha1: ETCDSnapshotRestore\<close>

text \<open>
  \<open>ETCDSnapshotPhase\<close> is a string type with named constants; nothing in the CRD
  restricts the field to them.
\<close>

type_synonym ETCDSnapshotPhase = string

definition ETCDSnapshotPhaseStarted :: ETCDSnapshotPhase where
  "ETCDSnapshotPhaseStarted = ''Started''"

definition ETCDSnapshotPhaseShutdown :: ETCDSnapshotPhase where
  "ETCDSnapshotPhaseShutdown = ''Shutdown''"

definition ETCDSnapshotPhaseRestore :: ETCDSnapshotPhase where
  "ETCDSnapshotPhaseRestore = ''Restore''"

definition ETCDSnapshotPhasePostRestorePodCleanup :: ETCDSnapshotPhase where
  "ETCDSnapshotPhasePostRestorePodCleanup = ''PostRestorePodCleanup''"

definition ETCDSnapshotPhaseInitialRestartCluster :: ETCDSnapshotPhase where
  "ETCDSnapshotPhaseInitialRestartCluster = ''InitialRestartCluster''"

definition ETCDSnapshotPhasePostRestoreNodeCleanup :: ETCDSnapshotPhase where
  "ETCDSnapshotPhasePostRestoreNodeCleanup = ''PostRestoreNodeCleanup''"

definition ETCDSnapshotPhaseRestartCluster :: ETCDSnapshotPhase where
  "ETCDSnapshotPhaseRestartCluster = ''RestartCluster''"

definition ETCDSnapshotPhaseFinished :: ETCDSnapshotPhase where
  "ETCDSnapshotPhaseFinished = ''Finished''"

definition ETCDSnapshotPhaseFailed :: ETCDSnapshotPhase where
  "ETCDSnapshotPhaseFailed = ''Failed''"

lemmas phase_defs =
  ETCDSnapshotPhaseStarted_def ETCDSnapshotPhaseShutdown_def ETCDSnapshotPhaseRestore_def
  ETCDSnapshotPhasePostRestorePodCleanup_def ETCDSnapshotPhaseInitialRestartCluster_def
  ETCDSnapshotPhasePostRestoreNodeCleanup_def ETCDSnapshotPhaseRestartCluster_def
  ETCDSnapshotPhaseFinished_def ETCDSnapshotPhaseFailed_def

lemma phases_distinct [simp]:
  "distinct [[], ETCDSnapshotPhaseStarted, ETCDSnapshotPhaseShutdown, ETCDSnapshotPhaseRestore,
     ETCDSnapshotPhasePostRestorePodCleanup, ETCDSnapshotPhaseInitialRestartCluster,
     ETCDSnapshotPhasePostRestoreNodeCleanup, ETCDSnapshotPhaseRestartCluster,
     ETCDSnapshotPhaseFinished, ETCDSnapshotPhaseFailed]"
  by (simp add: phase_defs)

lemmas phase_neq [simp] = phases_distinct [unfolded distinct.simps list.set, simplified]

lemma phases_distinct_rev:
  "distinct [ETCDSnapshotPhaseFailed, ETCDSnapshotPhaseFinished, ETCDSnapshotPhaseRestartCluster,
     ETCDSnapshotPhasePostRestoreNodeCleanup, ETCDSnapshotPhaseInitialRestartCluster,
     ETCDSnapshotPhasePostRestorePodCleanup, ETCDSnapshotPhaseRestore, ETCDSnapshotPhaseShutdown,
     ETCDSnapshotPhaseStarted, []]"
  by (simp add: phase_defs)

lemmas phase_neq_rev [simp] = phases_distinct_rev [unfolded distinct.simps list.set, simplified]

record ETCDSnapshotSpec =
  srs_ClusterName :: string
  srs_EtcdMachineBackupName :: string

record ETCDSnapshotStatus =
  srst_Phase :: ETCDSnapshotPhase
  srst_Conditions :: "condition list"

record ETCDSnapshotRestore =
  sr_meta :: object_meta
  sr_Spec :: ETCDSnapshotSpec
  sr_Status :: ETCDSnapshotStatus

abbreviation sr_Phase :: "ETCDSnapshotRestore \<Rightarrow> ETCDSnapshotPhase" where
  "sr_Phase r \<equiv> srst_Phase (sr_Status r)"

definition set_phase :: "ETCDSnapshotPhase \<Rightarrow> ETCDSnapshotRestore \<Rightarrow> ETCDSnapshotRestore" where
  "set_phase p r = r\<lparr>sr_Status := (sr_Status r)\<lparr>srst_Phase := p\<rparr>\<rparr>"

lemma set_phase_simps [simp]:
  "sr_meta (set_phase p r) = sr_meta r" "sr_Spec (set_phase p r) = sr_Spec r"
  "sr_Phase (set_phase p r) = p"
  "srst_Conditions (sr_Status (set_phase p r)) = srst_Conditions (sr_Status r)"
  "set_phase p (set_phase q r) = set_phase p r"
  by (simp_all add: set_phase_def)

section \<open>Cluster API objects\<close>

record cluster =
  cl_meta :: object_meta
  cl_Paused :: bool
  cl_ControlPlaneRef :: "object_reference option"
  cl_ControlPlaneReady :: bool

record machine_address =
  ma_Type :: string
  ma_Address :: string

record machine =
  mc_meta :: object_meta
  mc_ClusterName :: string
  mc_ConfigRef :: "object_reference option"
  mc_NodeRef :: "object_reference option"
  mc_Addresses :: "machine_address list"
  mc_Phase :: string

abbreviation mc_Name :: "machine \<Rightarrow> string" where "mc_Name m \<equiv> om_Name (mc_meta m)"
abbreviation mc_Namespace :: "machine \<Rightarrow> string" where "mc_Namespace m \<equiv> om_Namespace (mc_meta m)"

text \<open>\<open>&clusterv1.Machine{}\<close>.\<close>

definition empty_machine :: machine where
  "empty_machine = \<lparr>mc_meta = meta_for [] [], mc_ClusterName = [], mc_ConfigRef = None,
     mc_NodeRef = None, mc_Addresses = [], mc_Phase = []\<rparr>"

lemma empty_machine_simps [simp]:
  "mc_meta empty_machine = meta_for [] []" "mc_ConfigRef empty_machine = None"
  "mc_Addresses empty_machine = []" "mc_NodeRef empty_machine = None"
  "mc_ClusterName empty_machine = []" "mc_Phase empty_machine = []"
  by (simp_all add: empty_machine_def)

section \<open>RKE2 bootstrap configuration\<close>

record secret_file_source =
  sfs_Name :: string
  sfs_Key :: string

record config_file =
  cf_Path :: string
  cf_Owner :: string
  cf_Permissions :: string
  cf_Content :: string
  cf_ContentFrom :: "secret_file_source option"

record rke2_config =
  rc_meta :: object_meta
  rc_Files :: "config_file list"
  rc_PostRKE2Commands :: "string list"

abbreviation rc_Name :: "rke2_config \<Rightarrow> string" where "rc_Name c \<equiv> om_Name (rc_meta c)"
abbreviation rc_Namespace :: "rke2_config \<Rightarrow> string" where "rc_Namespace c \<equiv> om_Namespace (rc_meta c)"

section \<open>Core and RBAC objects\<close>

record secret =
  sec_meta :: object_meta
  sec_Type :: string
  sec_Data :: "bytes go_map option"

text \<open>\<open>secret.Data[k]\<close>: reading a nil map is reading an empty one.\<close>

definition secret_data :: "secret \<Rightarrow> string \<Rightarrow> bytes" where
  "secret_data s k = (case sec_Data s of None \<Rightarrow> [] | Some m \<Rightarrow> map_index m k)"

record service_account =
  sa_meta :: object_meta

record policy_rule =
  pr_Verbs :: "string list"
  pr_APIGroups :: "string list"
  pr_Resources :: "string list"
  pr_ResourceNames :: "string list"

record role =
  ro_meta :: object_meta
  ro_Rules :: "policy_rule list"

record subject =
  su_Kind :: string
  su_Name :: string
  su_Namespace :: string

record role_ref =
  rr_APIGroup :: string
  rr_Kind :: string
  rr_Name :: string

record role_binding =
  rb_meta :: object_meta
  rb_Subjects :: "subject list"
  rb_RoleRef :: role_ref

section \<open>Dynamic values and results\<close>

text \<open>
  An \<open>interface{}\<close> read from an unstructured object. Numbers are kept as their literal.
\<close>

datatype json =
    JNull
  | JBool bool
  | JNumber string
  | JString string
  | JArray "json list"
  | JObject "(string \<times> json) list"

text \<open>An unstructured object: its kind and its content.\<close>

record group_version_kind =
  gvk_Group :: string
  gvk_Version :: string
  gvk_Kind :: string

text \<open>\<open>GroupVersionKind.String\<close>.\<close>

definition gvk_String :: "group_version_kind \<Rightarrow> string" where
  "gvk_String g = gvk_Group g @ ''/'' @ gvk_Version g @ '', Kind='' @ gvk_Kind g"

record unstructured =
  un_gvk :: group_version_kind
  un_Object :: "json go_map"

text \<open>What \<open>client.Create\<close> is called with.\<close>

datatype api_object =
    OServiceAccount service_account
  | OSecret secret
  | ORole role
  | ORoleBinding role_binding
  | OEtcdMachineBackup EtcdMachineBackup

fun object_meta_of :: "api_object \<Rightarrow> object_meta" where
  "object_meta_of (OServiceAccount x) = sa_meta x"
| "object_meta_of (OSecret x) = sec_meta x"
| "object_meta_of (ORole x) = ro_meta x"
| "object_meta_of (ORoleBinding x) = rb_meta x"
| "object_meta_of (OEtcdMachineBackup x) = mb_meta x"

text \<open>
  \<open>ctrl.Result\<close>; a \<open>time.Duration\<close> counts nanoseconds.
\<close>

record ctrl_result =
  Requeue :: bool
  RequeueAfter :: nat

definition second :: nat where "second = 1000000000"

definition minute :: nat where "minute = 60 * second"

definition no_requeue :: ctrl_result where
  "no_requeue = \<lparr>Requeue = False, RequeueAfter = 0\<rparr>"

definition requeue_after :: "nat \<Rightarrow> ctrl_result" where
  "requeue_after d = \<lparr>Requeue = False, RequeueAfter = d\<rparr>"

definition requeue_now :: ctrl_result where
  "requeue_now = \<lparr>Requeue = True, RequeueAfter = 0\<rparr>"

lemma results_distinct [simp]:
  "requeue_after (n * second) \<noteq> no_requeue \<longleftrightarrow> 0 < n" "requeue_now \<noteq> no_requeue"
  by (simp_all add: requeue_after_def no_requeue_def requeue_now_def second_def)

end
