(* ===== verification/Kube_Client.thy ===== *)
theory Kube_Client
  imports Api_Types
begin

text \<open>
  The Kubernetes client the reconcilers and the webhook call. The client, the API server
  behind it and everything else that acts on the cluster are not part of this repository:
  they are a parameter of every definition, a record of operations on an arbitrary state
  \<open>'w\<close>. An operation returns what the call returned and the state after it, so whatever
  happens between two calls (another controller, a machine's agent, a stale cache) is an
  instance of the parameter.
\<close>

section \<open>The client interface\<close>

datatype list_option =
    InNamespace string
  | MatchingLabels "string go_map"

text \<open>
  \<open>c.Patch(ctx, obj, client.MergeFromWithOptions(base, MergeFromWithOptimisticLock{}))\<close>
  takes the base it was made from and the modified object, and leaves the server's answer
  in the object: here its result. \<open>Create\<close>'s answer is never read.
\<close>

record 'w client =
  get_ETCDSnapshotRestore :: "object_key \<Rightarrow> ('w, ETCDSnapshotRestore) api"
  get_EtcdMachineBackup :: "object_key \<Rightarrow> ('w, EtcdMachineBackup) api"
  get_Cluster :: "object_key \<Rightarrow> ('w, cluster) api"
  get_RKE2Config :: "object_key \<Rightarrow> ('w, rke2_config) api"
  get_Secret :: "object_key \<Rightarrow> ('w, secret) api"
  get_Unstructured :: "group_version_kind \<Rightarrow> object_key \<Rightarrow> ('w, unstructured) api"
  list_Machine :: "list_option list \<Rightarrow> ('w, machine list) api"
  list_Secret :: "list_option list \<Rightarrow> ('w, secret list) api"
  create :: "api_object \<Rightarrow> ('w, unit) api"
  patch_Cluster :: "cluster \<Rightarrow> cluster \<Rightarrow> ('w, cluster) api"
  patch_Secret :: "secret \<Rightarrow> secret \<Rightarrow> ('w, secret) api"
  patch_ETCDSnapshotRestore ::
    "ETCDSnapshotRestore \<Rightarrow> ETCDSnapshotRestore \<Rightarrow> ('w, ETCDSnapshotRestore) api"
  patch_ETCDSnapshotRestore_status ::
    "ETCDSnapshotRestore \<Rightarrow> ETCDSnapshotRestore \<Rightarrow> ('w, ETCDSnapshotRestore) api"

section \<open>Recording the calls\<close>

text \<open>
  An event is one client call with its arguments and its answer. \<open>recording c\<close> is the
  client \<open>c\<close> over a state that also holds the calls made so far: what a reconciler does
  against any client whatever is a statement about the events it records.
\<close>

datatype event =
    EvGetETCDSnapshotRestore object_key "api_error + ETCDSnapshotRestore"
  | EvGetEtcdMachineBackup object_key "api_error + EtcdMachineBackup"
  | EvGetCluster object_key "api_error + cluster"
  | EvGetRKE2Config object_key "api_error + rke2_config"
  | EvGetSecret object_key "api_error + secret"
  | EvGetUnstructured group_version_kind object_key "api_error + unstructured"
  | EvListMachine "list_option list" "api_error + machine list"
  | EvListSecret "list_option list" "api_error + secret list"
  | EvCreate api_object "api_error + unit"
  | EvPatchCluster cluster cluster "api_error + cluster"
  | EvPatchSecret secret secret "api_error + secret"
  | EvPatchETCDSnapshotRestore ETCDSnapshotRestore ETCDSnapshotRestore "api_error + ETCDSnapshotRestore"
  | EvPatchETCDSnapshotRestoreStatus ETCDSnapshotRestore ETCDSnapshotRestore "api_error + ETCDSnapshotRestore"

text \<open>The calls that change the cluster.\<close>

fun is_write :: "event \<Rightarrow> bool" where
  "is_write (EvCreate x r) = True"
| "is_write (EvPatchCluster b m r) = True"
| "is_write (EvPatchSecret b m r) = True"
| "is_write (EvPatchETCDSnapshotRestore b m r) = True"
| "is_write (EvPatchETCDSnapshotRestoreStatus b m r) = True"
| "is_write e = False"

definition record_call :: "((api_error + 'a) \<Rightarrow> event) \<Rightarrow> ('w, 'a) api \<Rightarrow> (event list \<times> 'w, 'a) api" where
  "record_call ev op = (\<lambda>(es, w). case op w of (r, w') \<Rightarrow> (r, (es @ [ev r], w')))"

definition recording :: "'w client \<Rightarrow> (event list \<times> 'w) client" where
  "recording c = \<lparr>
     get_ETCDSnapshotRestore = (\<lambda>k. record_call (EvGetETCDSnapshotRestore k) (get_ETCDSnapshotRestore c k)),
     get_EtcdMachineBackup = (\<lambda>k. record_call (EvGetEtcdMachineBackup k) (get_EtcdMachineBackup c k)),
     get_Cluster = (\<lambda>k. record_call (EvGetCluster k) (get_Cluster c k)),
     get_RKE2Config = (\<lambda>k. record_call (EvGetRKE2Config k) (get_RKE2Config c k)),
     get_Secret = (\<lambda>k. record_call (EvGetSecret k) (get_Secret c k)),
     get_Unstructured = (\<lambda>g k. record_call (EvGetUnstructured g k) (get_Unstructured c g k)),
     list_Machine = (\<lambda>os. record_call (EvListMachine os) (list_Machine c os)),
     list_Secret = (\<lambda>os. record_call (EvListSecret os) (list_Secret c os)),
     create = (\<lambda>x. record_call (EvCreate x) (create c x)),
     patch_Cluster = (\<lambda>b m. record_call (EvPatchCluster b m) (patch_Cluster c b m)),
     patch_Secret = (\<lambda>b m. record_call (EvPatchSecret b m) (patch_Secret c b m)),
     patch_ETCDSnapshotRestore =
       (\<lambda>b m. record_call (EvPatchETCDSnapshotRestore b m) (patch_ETCDSnapshotRestore c b m)),
     patch_ETCDSnapshotRestore_status =
       (\<lambda>b m. record_call (EvPatchETCDSnapshotRestoreStatus b m) (patch_ETCDSnapshotRestore_status c b m))\<rparr>"

lemma recording_simps [simp]:
  "get_ETCDSnapshotRestore (recording c) k = record_call (EvGetETCDSnapshotRestore k) (get_ETCDSnapshotRestore c k)"
  "get_EtcdMachineBackup (recording c) k = record_call (EvGetEtcdMachineBackup k) (get_EtcdMachineBackup c k)"
  "get_Cluster (recording c) k = record_call (EvGetCluster k) (get_Cluster c k)"
  "get_RKE2Config (recording c) k = record_call (EvGetRKE2Config k) (get_RKE2Config c k)"
  "get_Secret (recording c) k = record_call (EvGetSecret k) (get_Secret c k)"
  "get_Unstructured (recording c) g k = record_call (EvGetUnstructured g k) (get_Unstructured c g k)"
  "list_Machine (recording c) os = record_call (EvListMachine os) (list_Machine c os)"
  "list_Secret (recording c) os = record_call (EvListSecret os) (list_Secret c os)"
  "create (recording c) x = record_call (EvCreate x) (create c x)"
  "patch_Cluster (recording c) b m = record_call (EvPatchCluster b m) (patch_Cluster c b m)"
  "patch_Secret (recording c) sb sm = record_call (EvPatchSecret sb sm) (patch_Secret c sb sm)"
  "patch_ETCDSnapshotRestore (recording c) rb rm =
     record_call (EvPatchETCDSnapshotRestore rb rm) (patch_ETCDSnapshotRestore c rb rm)"
  "patch_ETCDSnapshotRestore_status (recording c) rb rm =
     record_call (EvPatchETCDSnapshotRestoreStatus rb rm) (patch_ETCDSnapshotRestore_status c rb rm)"
  by (simp_all add: recording_def)

section \<open>Reasoning about recorded calls\<close>

text \<open>
  \<open>emits m Q\<close>: whatever the state, the events \<open>m\<close> adds and its outcome satisfy \<open>Q\<close>.
  The rules follow the combinators, so that a property of a handler is proved call by call.
\<close>

definition emits :: "(event list \<times> 'w, 'a) go \<Rightarrow> (event list \<Rightarrow> 'a outcome \<Rightarrow> bool) \<Rightarrow> bool" where
  "emits m Q \<longleftrightarrow> (\<forall>es w. \<exists>new w' out. m (es, w) = (out, (es @ new, w')) \<and> Q new out)"

lemma emitsD:
  assumes "emits m Q" and "m (es, w) = (out, s')"
  obtains new w' where "s' = (es @ new, w')" "Q new out"
proof -
  from assms(1) obtain new w' out' where "m (es, w) = (out', (es @ new, w'))" "Q new out'"
    unfolding emits_def by blast
  with assms(2) have "s' = (es @ new, w')" "out' = out" by simp_all
  with \<open>Q new out'\<close> that show thesis by blast
qed

lemma emits_weaken:
  assumes "emits m P" and "\<And>new out. P new out \<Longrightarrow> Q new out"
  shows "emits m Q"
  using assms unfolding emits_def by meson

lemma emits_conj:
  assumes "emits m P" and "emits m Q"
  shows "emits m (\<lambda>new out. P new out \<and> Q new out)"
proof -
  have "\<exists>new w' out. m (es, w) = (out, (es @ new, w')) \<and> P new out \<and> Q new out" for es w
  proof -
    from assms(1) obtain new w' out where 1: "m (es, w) = (out, (es @ new, w'))" "P new out"
      unfolding emits_def by blast
    from emitsD [OF assms(2) 1(1)] have "Q new out" by auto
    with 1 show ?thesis by blast
  qed
  then show ?thesis unfolding emits_def by blast
qed

lemma emits_yields:
  assumes "emits m Q" and "yields m P"
  shows "emits m (\<lambda>new out. Q new out \<and> (\<forall>a. out = Return a \<longrightarrow> P a))"
  unfolding emits_def
proof (intro allI)
  fix es w
  from assms(1) obtain new w' out where run: "m (es, w) = (out, (es @ new, w'))" and "Q new out"
    unfolding emits_def by blast
  moreover have "\<forall>a. out = Return a \<longrightarrow> P a"
    using yieldsD [OF assms(2)] run by blast
  ultimately show "\<exists>new w' out. m (es, w) = (out, es @ new, w') \<and> Q new out \<and> (\<forall>a. out = Return a \<longrightarrow> P a)"
    by blast
qed

lemma emits_ret: "Q [] (Return a) \<Longrightarrow> emits (ret a) Q"
  by (simp add: emits_def go_run)

lemma emits_fail: "Q [] (Error e) \<Longrightarrow> emits (fail e) Q"
  by (simp add: emits_def go_run)

lemma emits_panicking: "Q [] (Panicked p) \<Longrightarrow> emits (panicking p) Q"
  by (simp add: emits_def go_run)

lemma emits_call:
  assumes "\<And>a. Q [ev (Inr a)] (Return a)" and "\<And>e. Q [ev (Inl e)] (Error (ApiError e))"
  shows "emits (call (record_call ev op)) Q"
  unfolding emits_def
proof (intro allI)
  fix es w
  obtain r w' where op: "op w = (r, w')" by (cases "op w")
  show "\<exists>new w' out. call (record_call ev op) (es, w) = (out, (es @ new, w')) \<and> Q new out"
  proof (cases r)
    case (Inl e)
    with op assms(2) [of e] show ?thesis
      by (intro exI [of _ "[ev (Inl e)]"]) (simp add: call_def record_call_def)
  next
    case (Inr a)
    with op assms(1) [of a] show ?thesis
      by (intro exI [of _ "[ev (Inr a)]"]) (simp add: call_def record_call_def)
  qed
qed

lemma emits_bind_err:
  assumes m: "emits m P"
    and k: "\<And>a new1. P new1 (Return a) \<Longrightarrow> emits (k a) (\<lambda>new2. Q (new1 @ new2))"
    and e: "\<And>e new. P new (Error e) \<Longrightarrow> Q new (Error (h e))"
    and p: "\<And>p new. P new (Panicked p) \<Longrightarrow> Q new (Panicked p)"
  shows "emits (bind_err m h k) Q"
  unfolding emits_def
proof (intro allI)
  fix es w
  from m obtain new w' out where 1: "m (es, w) = (out, (es @ new, w'))" "P new out"
    unfolding emits_def by blast
  show "\<exists>new w' out. bind_err m h k (es, w) = (out, (es @ new, w')) \<and> Q new out"
  proof (cases out)
    case (Return a)
    with k 1(2) have "emits (k a) (\<lambda>new2. Q (new @ new2))" by simp
    then obtain new2 w2 out2 where
      "k a (es @ new, w') = (out2, ((es @ new) @ new2, w2))" "Q (new @ new2) out2"
      unfolding emits_def by blast
    with 1(1) Return show ?thesis
      by (intro exI [of _ "new @ new2"] exI [of _ w2] exI [of _ out2]) (simp add: bind_err_def)
  next
    case (Error e')
    with 1 e show ?thesis
      by (intro exI [of _ new] exI [of _ w']) (simp add: bind_err_def)
  next
    case (Panicked p')
    with 1 p show ?thesis
      by (intro exI [of _ new] exI [of _ w']) (simp add: bind_err_def)
  qed
qed

lemma emits_attempt:
  assumes "\<And>r. Q [ev r] (Return r)"
  shows "emits (attempt (record_call ev op)) Q"
  unfolding emits_def
proof (intro allI)
  fix es w
  obtain r w' where op: "op w = (r, w')" by (cases "op w")
  with assms [of r]
  show "\<exists>new w' out. attempt (record_call ev op) (es, w) = (out, (es @ new, w')) \<and> Q new out"
    by (intro exI [of _ "[ev r]"]) (simp add: attempt_def record_call_def)
qed

lemma emits_catch_err:
  assumes "emits m P"
    and "\<And>new a. P new (Return a) \<Longrightarrow> Q new (Return (Inr a))"
    and "\<And>new e. P new (Error e) \<Longrightarrow> Q new (Return (Inl e))"
    and "\<And>new p. P new (Panicked p) \<Longrightarrow> Q new (Panicked p)"
  shows "emits (catch_err m) Q"
  unfolding emits_def
proof (intro allI)
  fix es w
  from assms(1) obtain new w' out where "m (es, w) = (out, (es @ new, w'))" "P new out"
    unfolding emits_def by blast
  with assms(2-4) show "\<exists>new w' out. catch_err m (es, w) = (out, (es @ new, w')) \<and> Q new out"
    by (cases out) (auto simp: catch_err_def)
qed

lemma emits_deref:
  assumes "\<And>a. p = Some a \<Longrightarrow> Q [] (Return a)" and "p = None \<Longrightarrow> Q [] (Panicked (NilDereference s))"
  shows "emits (deref s p) Q"
  using assms by (cases p) (auto intro: emits_ret emits_panicking)

lemma emits_of_result:
  assumes "\<And>a. r = Inr a \<Longrightarrow> Q [] (Return a)" and "\<And>e. r = Inl e \<Longrightarrow> Q [] (Error e)"
  shows "emits (of_result r) Q"
  using assms by (cases r) (auto intro: emits_ret emits_fail)

lemma emits_if: "(b \<Longrightarrow> emits m Q) \<Longrightarrow> (\<not> b \<Longrightarrow> emits n Q) \<Longrightarrow> emits (if b then m else n) Q"
  by simp

text \<open>
  Loops: an invariant of the elements done, the events so far and the accumulator. What
  a loop emits when an iteration fails is up to the iteration.
\<close>

lemma emits_for_range_aux:
  assumes "\<And>ys x zs a new. xs = ys @ x # zs \<Longrightarrow> I ys new a \<Longrightarrow>
      emits (f x a) (\<lambda>new2 out. case out of Return a' \<Rightarrow> I (ys @ [x]) (new @ new2) a'
        | Error e \<Rightarrow> Q (new @ new2) (Error e) | Panicked p \<Rightarrow> Q (new @ new2) (Panicked p))"
    and "\<And>new a. I xs new a \<Longrightarrow> Q new (Return a)"
    and "xs = pre @ rest" and "I pre new acc"
  shows "emits (for_range f rest acc) (\<lambda>new2. Q (new @ new2))"
  using assms(3,4)
proof (induction rest arbitrary: pre new acc)
  case Nil
  with assms(2) show ?case by (auto intro: emits_ret)
next
  case (Cons x rest)
  have "emits (bind_go (f x acc) (for_range f rest)) (\<lambda>new2. Q (new @ new2))"
    by (rule emits_bind_err [OF assms(1) [OF Cons.prems]])
      (use Cons.IH [of "pre @ [x]"] Cons.prems(1) in \<open>fastforce\<close>)+
  then show ?case by simp
qed

lemma emits_for_range:
  assumes "I [] [] acc"
    and "\<And>ys x zs a new. xs = ys @ x # zs \<Longrightarrow> I ys new a \<Longrightarrow>
      emits (f x a) (\<lambda>new2 out. case out of Return a' \<Rightarrow> I (ys @ [x]) (new @ new2) a'
        | Error e \<Rightarrow> Q (new @ new2) (Error e) | Panicked p \<Rightarrow> Q (new @ new2) (Panicked p))"
    and "\<And>new a. I xs new a \<Longrightarrow> Q new (Return a)"
  shows "emits (for_range f xs acc) Q"
  using emits_for_range_aux [where I = I and xs = xs and pre = "[]", OF assms(2,3) _ assms(1)]
  by simp

text \<open>
  A property of the events alone, kept under appending: it holds of a computation built
  with the combinators when it holds of each call.
\<close>

definition emits_all :: "(event \<Rightarrow> bool) \<Rightarrow> (event list \<times> 'w, 'a) go \<Rightarrow> bool" where
  "emits_all P m \<longleftrightarrow> emits m (\<lambda>new out. list_all P new)"

named_theorems emits_all_rules "rules to derive emits_all from the shape of a computation"

lemma emits_all_ret [emits_all_rules]: "emits_all P (ret a)"
  by (simp add: emits_all_def emits_ret)

lemma emits_all_fail [emits_all_rules]: "emits_all P (fail e)"
  by (simp add: emits_all_def emits_fail)

lemma emits_all_panicking [emits_all_rules]: "emits_all P (panicking p)"
  by (simp add: emits_all_def emits_panicking)

lemma emits_all_of_result [emits_all_rules]: "emits_all P (of_result r)"
  by (cases r) (simp_all add: emits_all_ret emits_all_fail)

lemma emits_all_deref [emits_all_rules]: "emits_all P (deref s p)"
  by (cases p) (simp_all add: emits_all_ret emits_all_panicking)

lemma emits_all_call: "(\<And>r. P (ev r)) \<Longrightarrow> emits_all P (call (record_call ev op))"
  unfolding emits_all_def by (rule emits_call) simp_all

lemma emits_all_attempt: "(\<And>r. P (ev r)) \<Longrightarrow> emits_all P (attempt (record_call ev op))"
  unfolding emits_all_def by (rule emits_attempt) simp

lemma emits_all_catch_err [emits_all_rules]: "emits_all P m \<Longrightarrow> emits_all P (catch_err m)"
  unfolding emits_all_def by (erule emits_catch_err)

lemma emits_all_bind_err [emits_all_rules]:
  assumes "emits_all P m" and "\<And>a. emits_all P (k a)"
  shows "emits_all P (bind_err m h k)"
  using assms(1) unfolding emits_all_def
proof (rule emits_bind_err)
  fix a new1
  assume "list_all P new1"
  then show "emits (k a) (\<lambda>new2 out. list_all P (new1 @ new2))"
    using assms(2) [of a] unfolding emits_all_def by (auto elim: emits_weaken)
qed simp_all

lemma emits_all_if [emits_all_rules]:
  "(b \<Longrightarrow> emits_all P m) \<Longrightarrow> (\<not> b \<Longrightarrow> emits_all P n) \<Longrightarrow> emits_all P (if b then m else n)"
  by simp

lemma emits_all_for_range [emits_all_rules]:
  assumes "\<And>x acc. emits_all P (f x acc)"
  shows "emits_all P (for_range f xs acc)"
  by (induction xs arbitrary: acc) (simp_all add: emits_all_ret emits_all_bind_err assms)

lemma emits_all_mono: "emits_all P m \<Longrightarrow> (\<And>e. P e \<Longrightarrow> Q e) \<Longrightarrow> emits_all Q m"
  unfolding emits_all_def by (erule emits_weaken) (auto simp: list_all_iff)

lemma emits_any: "emits_all (\<lambda>_. True) m \<Longrightarrow> emits m (\<lambda>_ _. True)"
  unfolding emits_all_def by (erule emits_weaken) (rule TrueI)

lemma emits_read:
  "emits (call (record_call ev op)) (\<lambda>new out. (\<exists>r. new = [ev r]) \<and> (\<forall>a. out = Return a \<longrightarrow> new = [ev (Inr a)]))"
  by (rule emits_call) auto

text \<open>\<open>each_call P pre es\<close>: every call of \<open>es\<close> satisfies \<open>P\<close> after the calls before it.\<close>

fun each_call :: "(event list \<Rightarrow> event \<Rightarrow> bool) \<Rightarrow> event list \<Rightarrow> event list \<Rightarrow> bool" where
  "each_call P pre [] \<longleftrightarrow> True"
| "each_call P pre (e # es) \<longleftrightarrow> P pre e \<and> each_call P (pre @ [e]) es"

lemma each_call_append [simp]:
  "each_call P pre (es @ fs) \<longleftrightarrow> each_call P pre es \<and> each_call P (pre @ es) fs"
  by (induction es arbitrary: pre) auto

lemma each_call_all: "list_all Q es \<Longrightarrow> (\<And>pre e. Q e \<Longrightarrow> P pre e) \<Longrightarrow> each_call P pre es"
  by (induction es arbitrary: pre) auto

lemma each_call_nth: "each_call P pre es \<Longrightarrow> i < length es \<Longrightarrow> P (pre @ take i es) (es ! i)"
proof (induction es arbitrary: pre i)
  case (Cons e es)
  then show ?case using Cons.IH [of "pre @ [e]" "i - 1"] by (cases i) auto
qed simp

text \<open>Recording changes nothing else: the underlying client sees the same calls.\<close>

definition forgets :: "(event list \<times> 'w, 'a) go \<Rightarrow> ('w, 'a) go \<Rightarrow> bool" where
  "forgets m n \<longleftrightarrow> (\<forall>es w. \<exists>es'. m (es, w) = (fst (n w), (es', snd (n w))))"

named_theorems forgets_rules "rules to derive forgets from the shape of a computation"

lemma forgets_ret [forgets_rules]: "forgets (ret a) (ret a)"
  by (simp add: forgets_def go_run)

lemma forgets_fail [forgets_rules]: "forgets (fail e) (fail e)"
  by (simp add: forgets_def go_run)

lemma forgets_panicking [forgets_rules]: "forgets (panicking p) (panicking p)"
  by (simp add: forgets_def go_run)

lemma forgets_of_result [forgets_rules]: "forgets (of_result r) (of_result r)"
  by (cases r) (simp_all add: forgets_rules)

lemma forgets_deref [forgets_rules]: "forgets (deref s p) (deref s p)"
  by (cases p) (simp_all add: forgets_rules)

lemma forgets_call [forgets_rules]: "forgets (call (record_call ev op)) (call op)"
  by (auto simp: forgets_def call_def record_call_def split: prod.split sum.split)

lemma forgets_attempt [forgets_rules]: "forgets (attempt (record_call ev op)) (attempt op)"
  by (auto simp: forgets_def attempt_def record_call_def split: prod.split)

lemma forgets_catch_err [forgets_rules]:
  assumes "forgets m n"
  shows "forgets (catch_err m) (catch_err n)"
  unfolding forgets_def
proof (intro allI)
  fix es w
  from assms obtain es' where "m (es, w) = (fst (n w), (es', snd (n w)))"
    unfolding forgets_def by blast
  then show "\<exists>es'. catch_err m (es, w) = (fst (catch_err n w), (es', snd (catch_err n w)))"
    by (cases "n w"; cases "fst (n w)") (auto simp: catch_err_def)
qed

lemma forgets_bind_err [forgets_rules]:
  assumes "forgets m n" and "\<And>a. forgets (k a) (l a)"
  shows "forgets (bind_err m h k) (bind_err n h l)"
  unfolding forgets_def
proof (intro allI)
  fix es w
  obtain out w1 where n: "n w = (out, w1)" by (cases "n w")
  with assms(1) obtain es1 where m: "m (es, w) = (out, (es1, w1))"
    unfolding forgets_def by (metis fst_conv snd_conv)
  show "\<exists>es'. bind_err m h k (es, w) = (fst (bind_err n h l w), (es', snd (bind_err n h l w)))"
  proof (cases out)
    case (Return a)
    with assms(2) n m show ?thesis unfolding forgets_def by (simp add: bind_err_def)
  qed (use n m in \<open>simp_all add: bind_err_def\<close>)
qed

lemma forgets_if [forgets_rules]:
  "(b \<Longrightarrow> forgets m m') \<Longrightarrow> (\<not> b \<Longrightarrow> forgets n n') \<Longrightarrow> forgets (if b then m else n) (if b then m' else n')"
  by simp

lemma forgets_for_range [forgets_rules]:
  assumes "\<And>x acc. forgets (f x acc) (g x acc)"
  shows "forgets (for_range f xs acc) (for_range g xs acc)"
  by (induction xs arbitrary: acc) (simp_all add: forgets_ret forgets_bind_err assms)

end
