(* ===== verification/Go_Json.thy ===== *)
theory Go_Json
  imports Api_Types
begin

text \<open>
  \<open>encoding/json\<close> of the Go standard library (Go 1.21, the version the Dockerfile builds
  with): \<open>json.Marshal\<close> with its string escapes, and a reader of the whole grammar, white
  space included, that returns what a printed value was. The plans the controller puts in
  secrets are told apart by their bytes, so the round trip at the end is what makes two
  different plans two different secrets.
\<close>

section \<open>UTF-8\<close>

abbreviation byte :: "char \<Rightarrow> nat" where "byte \<equiv> of_char"

definition in_range :: "nat \<Rightarrow> nat \<Rightarrow> char \<Rightarrow> bool" where
  "in_range lo hi c \<longleftrightarrow> lo \<le> byte c \<and> byte c \<le> hi"

text \<open>
  \<open>utf8.DecodeRune\<close>: the number of bytes of the rune a byte string starts with, 0 where
  it starts with no valid encoding.
\<close>

fun rune_size :: "string \<Rightarrow> nat" where
  "rune_size [] = 0"
| "rune_size (c # cs) =
     (if byte c < 0x80 then 1
      else if in_range 0xC2 0xDF c then
        (case cs of c1 # _ \<Rightarrow> if in_range 0x80 0xBF c1 then 2 else 0 | _ \<Rightarrow> 0)
      else if in_range 0xE0 0xEF c then
        (case cs of c1 # c2 # _ \<Rightarrow>
           if in_range (if byte c = 0xE0 then 0xA0 else 0x80) (if byte c = 0xED then 0x9F else 0xBF) c1
              \<and> in_range 0x80 0xBF c2 then 3 else 0
         | _ \<Rightarrow> 0)
      else if in_range 0xF0 0xF4 c then
        (case cs of c1 # c2 # c3 # _ \<Rightarrow>
           if in_range (if byte c = 0xF0 then 0x90 else 0x80) (if byte c = 0xF4 then 0x8F else 0xBF) c1
              \<and> in_range 0x80 0xBF c2 \<and> in_range 0x80 0xBF c3 then 4 else 0
         | _ \<Rightarrow> 0)
      else 0)"

text \<open>The replacement character, as Go writes it for a byte that starts no rune.\<close>

definition rune_error :: string where
  "rune_error = [CHR 0xEF, CHR 0xBF, CHR 0xBD]"

text \<open>\<open>strings.ToValidUTF8\<close> byte by byte: what a reader gets back of a written string.\<close>

function coerce_utf8 :: "string \<Rightarrow> string" where
  "coerce_utf8 [] = []"
| "coerce_utf8 (c # cs) =
     (if rune_size (c # cs) = 0 then rune_error @ coerce_utf8 cs
      else take (rune_size (c # cs)) (c # cs) @ coerce_utf8 (drop (rune_size (c # cs)) (c # cs)))"
  by pat_completeness auto
termination
  by (relation "measure length") auto

definition valid_utf8 :: "string \<Rightarrow> bool" where
  "valid_utf8 s \<longleftrightarrow> coerce_utf8 s = s"

section \<open>Strings\<close>

definition hex_char :: "nat \<Rightarrow> char" where
  "hex_char n = ''0123456789abcdef'' ! n"

definition u_escape :: "nat \<Rightarrow> string" where
  "u_escape n = [bslash, CHR ''u'', hex_char (n div 4096 mod 16), hex_char (n div 256 mod 16),
     hex_char (n div 16 mod 16), hex_char (n mod 16)]"

text \<open>
  \<open>encodeState.string\<close> with \<open>escapeHTML\<close>: quote and backslash get a backslash, newline,
  carriage return and tab their letter, other control bytes and the characters \<open><\<close>, \<open>>\<close>
  and \<open>&\<close> a \<open>\u00XX\<close> escape. A byte that starts no rune is written \<open>\ufffd\<close>, and the
  two line separators \<open>U+2028\<close> and \<open>U+2029\<close> are escaped.
\<close>

definition ascii_escape :: "char \<Rightarrow> string" where
  "ascii_escape c =
     (if c = quot \<or> c = bslash then [bslash, c]
      else if c = CHR 0x0A then [bslash, CHR ''n'']
      else if c = CHR 0x0D then [bslash, CHR ''r'']
      else if c = CHR 0x09 then [bslash, CHR ''t'']
      else if byte c < 0x20 \<or> c = CHR ''<'' \<or> c = CHR ''>'' \<or> c = CHR ''&'' then u_escape (byte c)
      else [c])"

definition rune_escape :: "string \<Rightarrow> string" where
  "rune_escape r =
     (if r = [CHR 0xE2, CHR 0x80, CHR 0xA8] then u_escape 0x2028
      else if r = [CHR 0xE2, CHR 0x80, CHR 0xA9] then u_escape 0x2029
      else r)"

function json_escape :: "string \<Rightarrow> string" where
  "json_escape [] = []"
| "json_escape (c # cs) =
     (if byte c < 0x80 then ascii_escape c @ json_escape cs
      else if rune_size (c # cs) = 0 then u_escape 0xFFFD @ json_escape cs
      else rune_escape (take (rune_size (c # cs)) (c # cs))
             @ json_escape (drop (rune_size (c # cs)) (c # cs)))"
  by pat_completeness auto
termination
  by (relation "measure length") auto

definition json_quote :: "string \<Rightarrow> string" where
  "json_quote s = quot # json_escape s @ [quot]"

text \<open>Reading a string after its opening quote: its bytes and what follows the closing one.\<close>

definition hex_value :: "char \<Rightarrow> nat option" where
  "hex_value c =
     (if in_range 0x30 0x39 c then Some (byte c - 0x30)
      else if in_range 0x61 0x66 c then Some (byte c - 0x57)
      else if in_range 0x41 0x46 c then Some (byte c - 0x37)
      else None)"

definition hex4 :: "char \<Rightarrow> char \<Rightarrow> char \<Rightarrow> char \<Rightarrow> nat option" where
  "hex4 a b c d = (case (hex_value a, hex_value b, hex_value c, hex_value d) of
       (Some h, Some i, Some j, Some k) \<Rightarrow> Some (((h * 16 + i) * 16 + j) * 16 + k)
     | _ \<Rightarrow> None)"

text \<open>
  \<open>utf8.AppendRune\<close> for a code unit of an escape; a lone surrogate half reads as the
  replacement character.
\<close>

definition utf8_encode :: "nat \<Rightarrow> string" where
  "utf8_encode n =
     (if n < 0x80 then [char_of n]
      else if n < 0x800 then [char_of (0xC0 + n div 64), char_of (0x80 + n mod 64)]
      else if 0xD800 \<le> n \<and> n \<le> 0xDFFF then rune_error
      else [char_of (0xE0 + n div 4096), char_of (0x80 + n div 64 mod 64), char_of (0x80 + n mod 64)])"

definition simple_escape :: "char \<Rightarrow> char option" where
  "simple_escape c =
     (if c = quot \<or> c = bslash \<or> c = CHR ''/'' then Some c
      else if c = CHR ''n'' then Some (CHR 0x0A)
      else if c = CHR ''r'' then Some (CHR 0x0D)
      else if c = CHR ''t'' then Some (CHR 0x09)
      else if c = CHR ''b'' then Some (CHR 0x08)
      else if c = CHR ''f'' then Some (CHR 0x0C)
      else None)"

definition prepend :: "string \<Rightarrow> (string \<times> string) option \<Rightarrow> (string \<times> string) option" where
  "prepend p r = map_option (\<lambda>(s, rest). (p @ s, rest)) r"

lemma prepend_simps [simp]:
  "prepend p None = None" "prepend p (Some (s, rest)) = Some (p @ s, rest)"
  by (simp_all add: prepend_def)

text \<open>
  What follows a backslash: the bytes the escape stands for and the rest. A high surrogate
  takes a low one that follows it as its second half.
\<close>

definition is_high_surrogate :: "nat \<Rightarrow> bool" where
  "is_high_surrogate n \<longleftrightarrow> 0xD800 \<le> n \<and> n < 0xDC00"

definition surrogate_pair :: "nat \<Rightarrow> nat \<Rightarrow> string" where
  "surrogate_pair hi lo =
     (let n = 0x10000 + (hi - 0xD800) * 1024 + (lo - 0xDC00)
      in [char_of (0xF0 + n div 262144), char_of (0x80 + n div 4096 mod 64),
          char_of (0x80 + n div 64 mod 64), char_of (0x80 + n mod 64)])"

definition low_surrogate_at :: "string \<Rightarrow> (nat \<times> string) option" where
  "low_surrogate_at s =
     (case s of b # u # h # i # j # k # rest \<Rightarrow>
        if b = bslash \<and> u = CHR ''u'' then
          (case hex4 h i j k of
             Some n \<Rightarrow> if 0xDC00 \<le> n \<and> n \<le> 0xDFFF then Some (n, rest) else None
           | None \<Rightarrow> None)
        else None
      | _ \<Rightarrow> None)"

definition unescape_one :: "string \<Rightarrow> (string \<times> string) option" where
  "unescape_one s =
     (case s of
        [] \<Rightarrow> None
      | e # cs \<Rightarrow>
          if e = CHR ''u'' then
            (case cs of
               h # i # j # k # rest \<Rightarrow>
                 (case hex4 h i j k of
                    None \<Rightarrow> None
                  | Some n \<Rightarrow>
                      (case (if is_high_surrogate n then low_surrogate_at rest else None) of
                         Some (lo, rest') \<Rightarrow> Some (surrogate_pair n lo, rest')
                       | None \<Rightarrow> Some (utf8_encode n, rest)))
             | _ \<Rightarrow> None)
          else map_option (\<lambda>d. ([d], cs)) (simple_escape e))"

lemma low_surrogate_at_length: "low_surrogate_at s = Some (n, rest) \<Longrightarrow> length rest < length s"
  by (auto simp: low_surrogate_at_def split: list.splits if_splits option.splits)

lemma unescape_one_length: "unescape_one s = Some (out, rest) \<Longrightarrow> length rest < length s"
  by (fastforce simp: unescape_one_def
      split: list.splits if_splits option.splits dest: low_surrogate_at_length)

function json_unquote :: "string \<Rightarrow> (string \<times> string) option" where
  "json_unquote [] = None"
| "json_unquote (c # cs) =
     (if c = quot then Some ([], cs)
      else if c = bslash then
        (case unescape_one cs of
           None \<Rightarrow> None
         | Some (out, rest) \<Rightarrow> prepend out (json_unquote rest))
      else if byte c < 0x20 then None
      else if rune_size (c # cs) = 0 then prepend rune_error (json_unquote cs)
      else prepend (take (rune_size (c # cs)) (c # cs))
             (json_unquote (drop (rune_size (c # cs)) (c # cs))))"
  by pat_completeness auto
termination
  by (relation "measure length") (auto dest: unescape_one_length)

declare json_escape.simps(2) [simp del] json_unquote.simps(2) [simp del]
  coerce_utf8.simps(2) [simp del]

section \<open>Reading a string back\<close>

lemma rune_size_ascii [simp]: "byte c < 0x80 \<Longrightarrow> rune_size (c # cs) = 1"
  by simp

lemma rune_size_le: "rune_size s \<le> length s"
  by (cases s rule: rune_size.cases) (auto split: list.splits)

lemma rune_size_take:
  assumes "rune_size s \<noteq> 0"
  shows "rune_size (take (rune_size s) s @ t) = rune_size s"
proof -
  consider "s = []" | c where "s = [c]" | c c1 where "s = [c, c1]" | c c1 c2 where "s = [c, c1, c2]"
    | c c1 c2 c3 cs where "s = c # c1 # c2 # c3 # cs"
    by (metis list.exhaust)
  then show ?thesis
    using assms by cases (simp_all split: if_split_asm)
qed

lemma byte_less_256: "byte c < 256"
  by (rule of_char_mod_256 [THEN subst]) simp

lemma char_eq_byte: "c = d \<longleftrightarrow> byte c = byte d"
  by simp

lemma hex_value_char [simp]: "n < 16 \<Longrightarrow> hex_value (hex_char n) = Some n"
proof -
  have "\<forall>n < 16. hex_value (hex_char n) = Some n"
    by (simp add: hex_char_def hex_value_def in_range_def numeral_eq_Suc less_Suc_eq all_conj_distrib)
  then show "n < 16 \<Longrightarrow> hex_value (hex_char n) = Some n" by blast
qed

lemma hex4_chars:
  assumes "n < 65536"
  shows "hex4 (hex_char (n div 4096 mod 16)) (hex_char (n div 256 mod 16)) (hex_char (n div 16 mod 16))
           (hex_char (n mod 16)) = Some n"
proof -
  have top: "n div 4096 mod 16 = n div 256 div 16"
    using assms by (simp add: div_mult2_eq [symmetric] less_mult_imp_div_less)
  have mid: "n div 256 * 16 + n div 16 mod 16 = n div 16"
    using div_mult_mod_eq [of "n div 16" 16] by (simp add: div_mult2_eq [symmetric])
  have "((n div 4096 mod 16 * 16 + n div 256 mod 16) * 16 + n div 16 mod 16) * 16 + n mod 16 = n"
    unfolding top div_mult_mod_eq mid ..
  moreover have "hex_value (hex_char (m mod 16)) = Some (m mod 16)" for m by simp
  ultimately show ?thesis by (simp only: hex4_def prod.case option.case)
qed

lemma utf8_encode_escapes [simp]:
  "utf8_encode 0xFFFD = rune_error"
  "utf8_encode 0x2028 = [CHR 0xE2, CHR 0x80, CHR 0xA8]"
  "utf8_encode 0x2029 = [CHR 0xE2, CHR 0x80, CHR 0xA9]"
  by (simp_all add: utf8_encode_def char_of_def rune_error_def bit_0)

lemma unquote_u_escape:
  assumes "n < 65536" and "\<not> is_high_surrogate n"
  shows "json_unquote (u_escape n @ t) = prepend (utf8_encode n) (json_unquote t)"
  using assms by (simp add: u_escape_def json_unquote.simps unescape_one_def hex4_chars [simplified] del: mod_less)

lemma unquote_ascii:
  assumes "byte c < 0x80"
  shows "json_unquote (ascii_escape c @ t) = prepend [c] (json_unquote t)"
proof -
  have esc: "json_unquote (u_escape (byte c) @ t) = prepend [c] (json_unquote t)"
    using assms by (subst unquote_u_escape) (auto simp: is_high_surrogate_def utf8_encode_def)
  show ?thesis
    using assms esc
    by (auto simp: ascii_escape_def json_unquote.simps(2) unescape_one_def simple_escape_def)
qed

lemma unquote_rune:
  assumes "rune_size (c # cs) \<noteq> 0" and "\<not> byte c < 0x80"
  shows "json_unquote (rune_escape (take (rune_size (c # cs)) (c # cs)) @ t)
    = prepend (take (rune_size (c # cs)) (c # cs)) (json_unquote t)"
proof -
  define r where "r = take (rune_size (c # cs)) (c # cs)"
  obtain r' where r': "r = c # r'"
    using assms(1) by (cases "rune_size (c # cs)") (auto simp: r_def)
  have size: "rune_size (r @ t) = length r"
    using rune_size_take [OF assms(1), of t] rune_size_le [of "c # cs"] by (simp add: r_def min_def)
  have plain: "json_unquote (r @ t) = prepend r (json_unquote t)"
    using assms(2) size r' by (auto simp: json_unquote.simps(2) simp del: rune_size.simps)
  show ?thesis
    unfolding r_def [symmetric] using plain
    by (auto simp: rune_escape_def unquote_u_escape is_high_surrogate_def)
qed

theorem unquote_escape:
  "json_unquote (json_escape s @ quot # rest) = Some (coerce_utf8 s, rest)"
proof (induction s rule: json_escape.induct)
  case 1
  show ?case by (simp add: json_unquote.simps(2))
next
  case (2 c cs)
  consider (ascii) "byte c < 0x80"
    | (bad) "\<not> byte c < 0x80" "rune_size (c # cs) = 0"
    | (rune) "\<not> byte c < 0x80" "rune_size (c # cs) \<noteq> 0" by blast
  then show ?case
  proof cases
    case ascii
    with "2.IH"(1) show ?thesis
      by (simp add: json_escape.simps(2) coerce_utf8.simps(2) unquote_ascii)
  next
    case bad
    with "2.IH"(2) show ?thesis
      by (simp add: json_escape.simps(2) coerce_utf8.simps(2) unquote_u_escape is_high_surrogate_def del: rune_size.simps)
  next
    case rune
    with "2.IH"(3) show ?thesis
      by (simp add: json_escape.simps(2) coerce_utf8.simps(2) unquote_rune del: rune_size.simps)
  qed
qed

lemma unquote_quote: "json_unquote (tl (json_quote s) @ rest) = Some (coerce_utf8 s, rest)"
  by (simp add: json_quote_def unquote_escape)

section \<open>Values\<close>

text \<open>\<open>json.Marshal\<close> of a value: no white space, object members in order.\<close>

fun json_print :: "json \<Rightarrow> string"
  and json_print_elems :: "json list \<Rightarrow> string"
  and json_print_members :: "(string \<times> json) list \<Rightarrow> string"
where
  "json_print JNull = ''null''"
| "json_print (JBool b) = (if b then ''true'' else ''false'')"
| "json_print (JNumber s) = s"
| "json_print (JString s) = json_quote s"
| "json_print (JArray vs) = ''['' @ json_print_elems vs @ '']''"
| "json_print (JObject kvs) = ''{'' @ json_print_members kvs @ ''}''"
| "json_print_elems [] = []"
| "json_print_elems [v] = json_print v"
| "json_print_elems (v # w # vs) = json_print v @ '','' @ json_print_elems (w # vs)"
| "json_print_members [] = []"
| "json_print_members [(k, v)] = json_quote k @ '':'' @ json_print v"
| "json_print_members ((k, v) # kv # kvs) =
     json_quote k @ '':'' @ json_print v @ '','' @ json_print_members (kv # kvs)"

text \<open>Numbers: the grammar of RFC 8259, as \<open>encoding/json\<close>'s scanner checks it.\<close>

abbreviation is_digit :: "char \<Rightarrow> bool" where "is_digit c \<equiv> in_range 0x30 0x39 c"

definition is_number_char :: "char \<Rightarrow> bool" where
  "is_number_char c \<longleftrightarrow> is_digit c \<or> c \<in> set ''+-.eE''"

definition digits1 :: "string \<Rightarrow> string option" where
  "digits1 s = (if takeWhile is_digit s = [] then None else Some (dropWhile is_digit s))"

definition int_part :: "string \<Rightarrow> string option" where
  "int_part s = (case s of
       [] \<Rightarrow> None
     | c # cs \<Rightarrow> if c = CHR ''0'' then Some cs else digits1 s)"

definition frac_part :: "string \<Rightarrow> string option" where
  "frac_part s = (case s of c # cs \<Rightarrow> if c = CHR ''.'' then digits1 cs else Some s | [] \<Rightarrow> Some [])"

definition exp_part :: "string \<Rightarrow> string option" where
  "exp_part s = (case s of
       [] \<Rightarrow> Some []
     | c # cs \<Rightarrow>
         if c = CHR ''e'' \<or> c = CHR ''E'' then
           (case cs of d # ds \<Rightarrow> if d = CHR ''+'' \<or> d = CHR ''-'' then digits1 ds else digits1 cs | [] \<Rightarrow> None)
         else Some s)"

definition valid_number :: "string \<Rightarrow> bool" where
  "valid_number s \<longleftrightarrow>
     list_all is_number_char s \<and>
     Option.bind (Option.bind (int_part (case s of c # cs \<Rightarrow> if c = CHR ''-'' then cs else s | [] \<Rightarrow> [])) frac_part)
       exp_part = Some []"

text \<open>The reader. Fuel bounds the nesting: \<open>json_parse\<close> gives it the length of the text.\<close>

definition is_ws :: "char \<Rightarrow> bool" where
  "is_ws c \<longleftrightarrow> c = CHR '' '' \<or> c = CHR 0x09 \<or> c = CHR 0x0A \<or> c = CHR 0x0D"

definition skip_ws :: "string \<Rightarrow> string" where
  "skip_ws s = dropWhile is_ws s"

definition literal :: "string \<Rightarrow> json \<Rightarrow> string \<Rightarrow> (json \<times> string) option" where
  "literal word v s = (if take (length word) s = word then Some (v, drop (length word) s) else None)"

fun parse_value :: "nat \<Rightarrow> string \<Rightarrow> (json \<times> string) option"
  and parse_elems :: "nat \<Rightarrow> string \<Rightarrow> (json list \<times> string) option"
  and parse_members :: "nat \<Rightarrow> string \<Rightarrow> ((string \<times> json) list \<times> string) option"
where
  "parse_value 0 s = None"
| "parse_value (Suc n) s = (case skip_ws s of
       [] \<Rightarrow> None
     | c # r \<Rightarrow>
         if c = quot then map_option (\<lambda>(x, r). (JString x, r)) (json_unquote r)
         else if c = CHR ''['' then
           (case skip_ws r of
              [] \<Rightarrow> None
            | d # r' \<Rightarrow> if d = CHR '']'' then Some (JArray [], r')
                        else map_option (\<lambda>(vs, r). (JArray vs, r)) (parse_elems n (d # r')))
         else if c = CHR ''{'' then
           (case skip_ws r of
              [] \<Rightarrow> None
            | d # r' \<Rightarrow> if d = CHR ''}'' then Some (JObject [], r')
                        else map_option (\<lambda>(kvs, r). (JObject kvs, r)) (parse_members n (d # r')))
         else if c = CHR ''n'' then literal ''null'' JNull (c # r)
         else if c = CHR ''t'' then literal ''true'' (JBool True) (c # r)
         else if c = CHR ''f'' then literal ''false'' (JBool False) (c # r)
         else if valid_number (takeWhile is_number_char (c # r)) then
           Some (JNumber (takeWhile is_number_char (c # r)), dropWhile is_number_char (c # r))
         else None)"
| "parse_elems 0 s = None"
| "parse_elems (Suc n) s = (case parse_value n s of
       None \<Rightarrow> None
     | Some (v, r) \<Rightarrow>
         (case skip_ws r of
            [] \<Rightarrow> None
          | d # r' \<Rightarrow>
              if d = CHR '','' then map_option (\<lambda>(vs, r). (v # vs, r)) (parse_elems n r')
              else if d = CHR '']'' then Some ([v], r')
              else None))"
| "parse_members 0 s = None"
| "parse_members (Suc n) s = (case skip_ws s of
       [] \<Rightarrow> None
     | q # r0 \<Rightarrow>
         if q \<noteq> quot then None
         else
           (case json_unquote r0 of
              None \<Rightarrow> None
            | Some (k, r1) \<Rightarrow>
                (case skip_ws r1 of
                   [] \<Rightarrow> None
                 | col # r2 \<Rightarrow>
                     if col \<noteq> CHR '':'' then None
                     else
                       (case parse_value n r2 of
                          None \<Rightarrow> None
                        | Some (v, r3) \<Rightarrow>
                            (case skip_ws r3 of
                               [] \<Rightarrow> None
                             | d # r4 \<Rightarrow>
                                 if d = CHR '','' then map_option (\<lambda>(kvs, r). ((k, v) # kvs, r)) (parse_members n r4)
                                 else if d = CHR ''}'' then Some ([(k, v)], r4)
                                 else None)))))"

definition json_parse :: "string \<Rightarrow> json option" where
  "json_parse s = (case parse_value (Suc (length s)) s of
       Some (v, rest) \<Rightarrow> if skip_ws rest = [] then Some v else None
     | None \<Rightarrow> None)"

section \<open>Reading a printed value\<close>

fun wf_json :: "json \<Rightarrow> bool" where
  "wf_json JNull = True"
| "wf_json (JBool b) = True"
| "wf_json (JNumber s) = valid_number s"
| "wf_json (JString s) = valid_utf8 s"
| "wf_json (JArray vs) = (\<forall>v \<in> set vs. wf_json v)"
| "wf_json (JObject kvs) = (\<forall>kv \<in> set kvs. valid_utf8 (fst kv) \<and> wf_json (snd kv))"

text \<open>The nesting a value needs, which its printed length bounds.\<close>

fun need :: "json \<Rightarrow> nat"
  and need_elems :: "json list \<Rightarrow> nat"
  and need_members :: "(string \<times> json) list \<Rightarrow> nat"
where
  "need (JArray vs) = Suc (need_elems vs)"
| "need (JObject kvs) = Suc (need_members kvs)"
| "need v = 1"
| "need_elems [] = 0"
| "need_elems (v # vs) = Suc (max (need v) (need_elems vs))"
| "need_members [] = 0"
| "need_members ((k, v) # kvs) = Suc (max (need v) (need_members kvs))"

definition no_number :: "string \<Rightarrow> bool" where
  "no_number rest \<longleftrightarrow> (case rest of [] \<Rightarrow> True | c # _ \<Rightarrow> \<not> is_number_char c)"

lemma no_number_simps [simp]:
  "no_number []" "no_number (c # cs) \<longleftrightarrow> \<not> is_number_char c"
  by (simp_all add: no_number_def)

lemma skip_ws_Cons [simp]: "\<not> is_ws c \<Longrightarrow> skip_ws (c # cs) = c # cs"
  by (simp add: skip_ws_def)

lemma skip_ws_Nil [simp]: "skip_ws [] = []"
  by (simp add: skip_ws_def)

lemma valid_number_head:
  assumes "valid_number s"
  obtains c cs where "s = c # cs" "is_number_char c"
  using assms by (cases s) (auto simp: valid_number_def int_part_def)

lemma valid_number_chars: "valid_number s \<Longrightarrow> list_all is_number_char s"
  by (simp add: valid_number_def)

lemma number_span:
  assumes "list_all is_number_char s" and "no_number rest"
  shows "takeWhile is_number_char (s @ rest) = s" and "dropWhile is_number_char (s @ rest) = rest"
proof -
  have "takeWhile is_number_char rest = []" "dropWhile is_number_char rest = rest"
    using assms(2) by (cases rest; simp)+
  with assms(1) show "takeWhile is_number_char (s @ rest) = s"
    and "dropWhile is_number_char (s @ rest) = rest"
    by (simp_all add: list_all_iff takeWhile_append2 dropWhile_append2)
qed

lemma number_char_other:
  assumes "is_number_char c"
  shows "\<not> is_ws c" "c \<noteq> quot" "c \<noteq> CHR ''[''" "c \<noteq> CHR '']''" "c \<noteq> CHR ''{''" "c \<noteq> CHR ''}''"
    "c \<noteq> CHR ''n''" "c \<noteq> CHR ''t''" "c \<noteq> CHR ''f''"
  using assms by (auto simp: is_number_char_def in_range_def is_ws_def)

lemma not_number_char [simp]:
  "\<not> is_number_char (CHR '','')" "\<not> is_number_char (CHR '']'')" "\<not> is_number_char (CHR ''}'')"
  by (simp_all add: is_number_char_def in_range_def)

lemma not_ws [simp]:
  "\<not> is_ws quot" "\<not> is_ws (CHR ''['')" "\<not> is_ws (CHR '']'')" "\<not> is_ws (CHR ''{'')"
  "\<not> is_ws (CHR ''}'')" "\<not> is_ws (CHR '','')" "\<not> is_ws (CHR '':'')"
  "\<not> is_ws (CHR ''n'')" "\<not> is_ws (CHR ''t'')" "\<not> is_ws (CHR ''f'')"
  by (simp_all add: is_ws_def)

lemma json_quote_append: "json_quote s @ rest = quot # json_escape s @ quot # rest"
  by (simp add: json_quote_def)

lemma print_head:
  assumes "wf_json v"
  obtains c cs where "json_print v = c # cs" "\<not> is_ws c" "c \<noteq> CHR '']''" "c \<noteq> CHR ''}''"
proof (cases v)
  case (JNumber s)
  with assms that show thesis
    by (auto elim!: valid_number_head dest: number_char_other)
next
  case (JBool b)
  with that show thesis by (cases b) auto
qed (use that in \<open>auto simp: json_quote_def split: if_splits\<close>)

lemma print_elems_head:
  assumes "\<forall>v \<in> set vs. wf_json v" and "vs \<noteq> []"
  obtains c cs where "json_print_elems vs = c # cs" "\<not> is_ws c" "c \<noteq> CHR '']''"
proof -
  obtain v ws where vs: "vs = v # ws" using assms(2) by (cases vs) auto
  with assms(1) obtain c cs where "json_print v = c # cs" "\<not> is_ws c" "c \<noteq> CHR '']''"
    by (auto elim: print_head)
  with vs that show thesis by (cases ws) auto
qed

lemma print_members_head:
  assumes "kvs \<noteq> []"
  obtains cs where "json_print_members kvs = quot # cs"
proof -
  obtain k v ws where kvs: "kvs = (k, v) # ws" using assms by (cases kvs) auto
  with that show thesis by (cases ws) (auto simp: json_quote_def)
qed

lemma parse_print_all:
  "wf_json v \<Longrightarrow> need v \<le> n \<Longrightarrow> no_number rest \<Longrightarrow>
     parse_value n (json_print v @ rest) = Some (v, rest)"
  "\<forall>v \<in> set vs. wf_json v \<Longrightarrow> vs \<noteq> [] \<Longrightarrow> need_elems vs \<le> n \<Longrightarrow>
     parse_elems n (json_print_elems vs @ CHR '']'' # rest) = Some (vs, rest)"
  "\<forall>kv \<in> set kvs. valid_utf8 (fst kv) \<and> wf_json (snd kv) \<Longrightarrow> kvs \<noteq> [] \<Longrightarrow> need_members kvs \<le> n \<Longrightarrow>
     parse_members n (json_print_members kvs @ CHR ''}'' # rest) = Some (kvs, rest)"
proof (induction v and vs and kvs arbitrary: n rest and n rest and n rest
    rule: json_print_json_print_elems_json_print_members.induct)
  case (3 s)
  then obtain m where n: "n = Suc m" by (cases n) auto
  from 3 obtain c cs where s: "s = c # cs" "is_number_char c"
    by (auto elim: valid_number_head)
  from 3 have span: "takeWhile is_number_char (s @ rest) = s" "dropWhile is_number_char (s @ rest) = rest"
    by (simp_all add: number_span valid_number_chars)
  with 3 n s show ?case
    by (simp add: number_char_other)
next
  case (5 vs)
  then obtain m where n: "n = Suc m" by (cases n) auto
  show ?case
  proof (cases "vs = []")
    case True
    with n show ?thesis by simp
  next
    case False
    with 5 obtain c cs where head: "json_print_elems vs = c # cs" "\<not> is_ws c" "c \<noteq> CHR '']''"
      by (auto elim: print_elems_head)
    from 5 n False have "parse_elems m (json_print_elems vs @ CHR '']'' # rest) = Some (vs, rest)"
      by simp
    with n head show ?thesis by simp
  qed
next
  case (6 kvs)
  then obtain m where n: "n = Suc m" by (cases n) auto
  show ?case
  proof (cases "kvs = []")
    case True
    with n show ?thesis by simp
  next
    case False
    then obtain cs where head: "json_print_members kvs = quot # cs"
      by (auto elim: print_members_head)
    from 6 n False have "parse_members m (json_print_members kvs @ CHR ''}'' # rest) = Some (kvs, rest)"
      by simp
    with n head show ?thesis by simp
  qed
next
  case (8 v)
  then obtain m where n: "n = Suc m" by (cases n) auto
  with 8 show ?case by simp
next
  case (9 v w vs)
  then obtain m where n: "n = Suc m" by (cases n) auto
  with 9 show ?case by simp
next
  case (11 k v)
  then obtain m where n: "n = Suc m" by (cases n) auto
  with 11 show ?case
    by (simp add: json_quote_append unquote_escape valid_utf8_def)
next
  case (12 k v kv kvs)
  then obtain m where n: "n = Suc m" by (cases n) auto
  with 12 show ?case
    by (cases kv) (simp add: json_quote_append unquote_escape valid_utf8_def)
qed (auto simp: literal_def json_quote_append unquote_escape valid_utf8_def dest!: Suc_le_D)

lemma need_le_length_all:
  "wf_json v \<Longrightarrow> need v \<le> length (json_print v)"
  "\<forall>v \<in> set vs. wf_json v \<Longrightarrow> need_elems vs \<le> Suc (length (json_print_elems vs))"
  "\<forall>kv \<in> set kvs. valid_utf8 (fst kv) \<and> wf_json (snd kv) \<Longrightarrow>
     need_members kvs \<le> Suc (length (json_print_members kvs))"
proof (induction v and vs and kvs rule: json_print_json_print_elems_json_print_members.induct)
  case (3 s)
  then show ?case by (auto elim: valid_number_head)
qed (auto simp: json_quote_def)

theorem json_parse_print:
  assumes "wf_json v"
  shows "json_parse (json_print v) = Some v"
proof -
  have "parse_value (Suc (length (json_print v))) (json_print v @ []) = Some (v, [])"
    using assms need_le_length_all(1) [OF assms] by (intro parse_print_all(1)) simp_all
  then have "parse_value (Suc (length (json_print v))) (json_print v) = Some (v, [])" by simp
  then show ?thesis unfolding json_parse_def by (simp only: option.case prod.case skip_ws_Nil if_True simp_thms)
qed

corollary json_print_inj:
  assumes "wf_json v" and "wf_json w" and "json_print v = json_print w"
  shows "v = w"
proof -
  have "Some v = json_parse (json_print w)"
    unfolding assms(3) [symmetric] by (rule json_parse_print [OF assms(1), symmetric])
  also have "\<dots> = Some w" by (rule json_parse_print [OF assms(2)])
  finally show ?thesis by (rule option.inject [THEN iffD1])
qed

lemma valid_utf8_ascii: "list_all (\<lambda>c. byte c < 0x80) s \<Longrightarrow> valid_utf8 s"
  unfolding valid_utf8_def by (induction s) (simp_all add: coerce_utf8.simps(2))

text \<open>Valid text is closed under appending.\<close>

lemma rune_error_size: "rune_size (rune_error @ t) = 3"
  by (simp add: rune_error_def in_range_def)

lemma valid_utf8_head: "valid_utf8 (c # cs) \<Longrightarrow> rune_size (c # cs) \<noteq> 0"
proof
  assume v: "valid_utf8 (c # cs)" and z: "rune_size (c # cs) = 0"
  then have "c # cs = rune_error @ coerce_utf8 cs"
    by (simp add: valid_utf8_def coerce_utf8.simps(2) del: rune_size.simps)
  with z rune_error_size show False by (metis zero_neq_numeral)
qed

lemma coerce_utf8_append: "valid_utf8 s \<Longrightarrow> coerce_utf8 (s @ t) = s @ coerce_utf8 t"
proof (induction s rule: coerce_utf8.induct)
  case 1
  show ?case by simp
next
  case (2 c cs)
  define n where "n = rune_size (c # cs)"
  have n: "n \<noteq> 0" "n \<le> length (c # cs)"
    using valid_utf8_head [OF "2.prems"] rune_size_le [of "c # cs"] by (simp_all only: n_def not_False_eq_True)
  have size: "rune_size (c # cs @ t) = n"
    using rune_size_take [of "c # cs" "drop n (c # cs) @ t"] n(1) append_take_drop_id [of n "c # cs"]
    by (metis append.assoc append_Cons n_def)
  have "take n (c # cs) @ coerce_utf8 (drop n (c # cs)) = c # cs"
    using "2.prems" n(1) by (simp add: valid_utf8_def coerce_utf8.simps(2) n_def del: rune_size.simps)
  then have "coerce_utf8 (drop n (c # cs)) = drop n (c # cs)"
    by (metis append_same_eq append_take_drop_id same_append_eq)
  then have IH: "coerce_utf8 (drop n (c # cs) @ t) = drop n (c # cs) @ coerce_utf8 t"
    using "2.IH"(2) n(1) by (simp only: n_def valid_utf8_def not_False_eq_True)
  have "coerce_utf8 (c # cs @ t) = take n (c # cs @ t) @ coerce_utf8 (drop n (c # cs @ t))"
    using size n(1) by (simp add: coerce_utf8.simps(2) del: rune_size.simps)
  also have "\<dots> = take n (c # cs) @ coerce_utf8 (drop n (c # cs) @ t)"
    using n(2) by (metis append_Cons drop_append diff_is_0_eq' drop0 take_append take0 append_Nil2)
  also have "\<dots> = (c # cs) @ coerce_utf8 t"
    unfolding IH by (metis append.assoc append_take_drop_id)
  finally show ?case by simp
qed

lemma valid_utf8_append: "valid_utf8 s \<Longrightarrow> valid_utf8 t \<Longrightarrow> valid_utf8 (s @ t)"
  by (simp add: valid_utf8_def coerce_utf8_append [unfolded valid_utf8_def])

lemma valid_utf8_cat:
  "list_all (\<lambda>c. byte c < 0x80) p \<Longrightarrow> valid_utf8 s \<Longrightarrow> list_all (\<lambda>c. byte c < 0x80) q \<Longrightarrow>
     valid_utf8 (p @ s @ q)"
  by (simp add: valid_utf8_append valid_utf8_ascii)

end
