(* ===== verification/Sha256.thy ===== *)
theory Sha256
  imports Go_Prelude "HOL-Library.Word"
begin

text \<open>
  \<open>sha256.Sum256\<close> and \<open>hex.EncodeToString\<close> of the Go standard library, as
  \<open>isPlanApplied\<close> uses them: FIPS 180-4 on 32-bit words that wrap around.
\<close>

unbundle bit_operations_syntax

type_synonym u8 = "8 word"
type_synonym u32 = "32 word"

section \<open>Constants and word functions\<close>

text \<open>
  The round constants are the first 32 bits of the fractional parts of the cube roots of
  the first 64 primes, the initial state those of the square roots of the first eight:
  \<open>root_bits k p\<close> is the \<open>k\<close>-th root of \<open>p\<close> scaled by \<open>2 ^ 32\<close> and rounded down, found bit
  by bit, and the conversion to a word drops the integer part.
\<close>

definition first_primes :: "nat list" where
  "first_primes = filter (\<lambda>p. list_all (\<lambda>d. p mod d \<noteq> 0) [2..<p]) [2..<312]"

definition root_bits :: "nat \<Rightarrow> nat \<Rightarrow> nat" where
  "root_bits k p = fold (\<lambda>b r. if (r + 2 ^ b) ^ k \<le> p * 2 ^ (32 * k) then r + 2 ^ b else r) (rev [0..<37]) 0"

definition sha_k :: "u32 list" where
  "sha_k = map (\<lambda>p. word_of_nat (root_bits 3 p)) first_primes"

definition rotr32 :: "nat \<Rightarrow> u32 \<Rightarrow> u32" where
  "rotr32 n x = drop_bit n x OR push_bit (32 - n) x"

definition big_sigma0 :: "u32 \<Rightarrow> u32" where
  "big_sigma0 x = rotr32 2 x XOR rotr32 13 x XOR rotr32 22 x"

definition big_sigma1 :: "u32 \<Rightarrow> u32" where
  "big_sigma1 x = rotr32 6 x XOR rotr32 11 x XOR rotr32 25 x"

definition small_sigma0 :: "u32 \<Rightarrow> u32" where
  "small_sigma0 x = rotr32 7 x XOR rotr32 18 x XOR drop_bit 3 x"

definition small_sigma1 :: "u32 \<Rightarrow> u32" where
  "small_sigma1 x = rotr32 17 x XOR rotr32 19 x XOR drop_bit 10 x"

definition sha_ch :: "u32 \<Rightarrow> u32 \<Rightarrow> u32 \<Rightarrow> u32" where
  "sha_ch x y z = (x AND y) XOR (NOT x AND z)"

definition sha_maj :: "u32 \<Rightarrow> u32 \<Rightarrow> u32 \<Rightarrow> u32" where
  "sha_maj x y z = (x AND y) XOR (x AND z) XOR (y AND z)"

section \<open>Padding, schedule, compression\<close>

text \<open>The message length in bits, as eight big-endian bytes of a \<open>uint64\<close>.\<close>

definition sha_length_bytes :: "nat \<Rightarrow> u8 list" where
  "sha_length_bytes n =
     (let w = push_bit 3 (word_of_nat n) :: 64 word
      in map (\<lambda>i. ucast (drop_bit i w)) [56, 48, 40, 32, 24, 16, 8, 0])"

definition sha_pad :: "u8 list \<Rightarrow> u8 list" where
  "sha_pad msg = msg @ 0x80 # replicate ((119 - length msg mod 64) mod 64) 0
     @ sha_length_bytes (length msg)"

fun be_words :: "u8 list \<Rightarrow> u32 list" where
  "be_words (a # b # c # d # rest) =
     (push_bit 24 (ucast a) OR push_bit 16 (ucast b) OR push_bit 8 (ucast c) OR ucast d)
       # be_words rest"
| "be_words _ = []"

text \<open>The message schedule, built backwards: the newest word is at the head.\<close>

fun sha_schedule :: "nat \<Rightarrow> u32 list \<Rightarrow> u32 list" where
  "sha_schedule 0 ws = rev ws"
| "sha_schedule (Suc n) ws =
     sha_schedule n ((small_sigma1 (ws ! 1) + ws ! 6 + small_sigma0 (ws ! 14) + ws ! 15) # ws)"

datatype sha_state = Sha u32 u32 u32 u32 u32 u32 u32 u32

fun sha_round :: "u32 \<times> u32 \<Rightarrow> sha_state \<Rightarrow> sha_state" where
  "sha_round (k, w) (Sha a b c d e f g h) =
     (let t1 = h + big_sigma1 e + sha_ch e f g + k + w;
          t2 = big_sigma0 a + sha_maj a b c
      in Sha (t1 + t2) a b c (d + t1) e f g)"

fun sha_add :: "sha_state \<Rightarrow> sha_state \<Rightarrow> sha_state" where
  "sha_add (Sha a b c d e f g h) (Sha a' b' c' d' e' f' g' h') =
     Sha (a + a') (b + b') (c + c') (d + d') (e + e') (f + f') (g + g') (h + h')"

definition sha_block :: "sha_state \<Rightarrow> u8 list \<Rightarrow> sha_state" where
  "sha_block s blk =
     sha_add s (fold sha_round (zip sha_k (sha_schedule 48 (rev (be_words blk)))) s)"

definition sha_init :: sha_state where
  "sha_init = (let h = (\<lambda>i. word_of_nat (root_bits 2 (first_primes ! i)))
     in Sha (h 0) (h 1) (h 2) (h 3) (h 4) (h 5) (h 6) (h 7))"

function sha_blocks :: "sha_state \<Rightarrow> u8 list \<Rightarrow> sha_state" where
  "sha_blocks s xs = (if length xs < 64 then s else sha_blocks (sha_block s (take 64 xs)) (drop 64 xs))"
  by pat_completeness auto
termination
  by (relation "measure (\<lambda>(s, xs). length xs)") auto

declare sha_blocks.simps [simp del]

definition word_bytes :: "u32 \<Rightarrow> u8 list" where
  "word_bytes w = [ucast (drop_bit 24 w), ucast (drop_bit 16 w), ucast (drop_bit 8 w), ucast w]"

fun sha_digest :: "sha_state \<Rightarrow> u8 list" where
  "sha_digest (Sha a b c d e f g h) = concat (map word_bytes [a, b, c, d, e, f, g, h])"

definition sha256_Sum256 :: "u8 list \<Rightarrow> u8 list" where
  "sha256_Sum256 msg = sha_digest (sha_blocks sha_init (sha_pad msg))"

section \<open>Hexadecimal text\<close>

definition hex_digit :: "nat \<Rightarrow> char" where
  "hex_digit n = ''0123456789abcdef'' ! n"

definition hex_byte :: "u8 \<Rightarrow> string" where
  "hex_byte b = [hex_digit (unat b div 16), hex_digit (unat b mod 16)]"

definition hex_EncodeToString :: "u8 list \<Rightarrow> string" where
  "hex_EncodeToString bs = concat (map hex_byte bs)"

definition bytes_of :: "string \<Rightarrow> u8 list" where
  "bytes_of s = map of_char s"

section \<open>Facts\<close>

lemma length_sha_pad: "length (sha_pad msg) mod 64 = 0"
proof -
  define r where "r = length msg mod 64"
  have r: "r < 64" by (simp add: r_def)
  have "length (sha_pad msg) = length msg + (9 + (119 - r) mod 64)"
    by (simp add: sha_pad_def sha_length_bytes_def Let_def r_def)
  moreover have "(length msg + x) mod 64 = (r + x) mod 64" for x
    by (simp add: r_def mod_add_left_eq)
  moreover have "(r + (9 + (119 - r) mod 64)) mod 64 = 0"
  proof (cases "r < 56")
    case True
    then have "119 - r = (55 - r) + 64" by simp
    then have "(119 - r) mod 64 = 55 - r" by (simp only: mod_add_self2) simp
    with True show ?thesis by simp
  next
    case False
    then have "(119 - r) mod 64 = 119 - r" by (intro mod_less) simp
    with r False show ?thesis by simp
  qed
  ultimately show ?thesis by simp
qed

lemma length_sha256 [simp]: "length (sha256_Sum256 msg) = 32"
  by (cases "sha_blocks sha_init (sha_pad msg)") (simp add: sha256_Sum256_def word_bytes_def)

lemma hex_length [simp]: "length (hex_EncodeToString bs) = 2 * length bs"
  by (induction bs) (simp_all add: hex_EncodeToString_def hex_byte_def)

lemma hex_digit_inj: "m < 16 \<Longrightarrow> n < 16 \<Longrightarrow> hex_digit m = hex_digit n \<Longrightarrow> m = n"
proof -
  have "inj_on hex_digit {..<16}"
    by (simp add: inj_on_def hex_digit_def lessThan_def numeral_eq_Suc less_Suc_eq all_conj_distrib)
  then show "m < 16 \<Longrightarrow> n < 16 \<Longrightarrow> hex_digit m = hex_digit n \<Longrightarrow> m = n"
    by (auto simp: inj_on_def)
qed

lemma hex_byte_inj: "hex_byte a = hex_byte b \<Longrightarrow> a = b"
proof -
  assume eq: "hex_byte a = hex_byte b"
  have lt: "unat x div 16 < 16" "unat x mod 16 < 16" for x :: u8
    using unsigned_less [of x, where 'a = nat] by auto
  from eq have "unat a div 16 = unat b div 16" "unat a mod 16 = unat b mod 16"
    using lt hex_digit_inj by (auto simp: hex_byte_def)
  then have "unat a = unat b" by (metis div_mult_mod_eq)
  then show "a = b" by (simp add: word_unat_eq_iff)
qed

lemma hex_inj: "hex_EncodeToString xs = hex_EncodeToString ys \<Longrightarrow> xs = ys"
proof (induction xs arbitrary: ys)
  case Nil
  then show ?case by (cases ys) (auto simp: hex_EncodeToString_def hex_byte_def)
next
  case (Cons x xs)
  from Cons.prems obtain y ys' where ys: "ys = y # ys'"
    by (cases ys) (auto simp: hex_EncodeToString_def hex_byte_def)
  with Cons.prems have "hex_byte x @ hex_EncodeToString xs = hex_byte y @ hex_EncodeToString ys'"
    by (simp add: hex_EncodeToString_def)
  then have "hex_byte x = hex_byte y" "hex_EncodeToString xs = hex_EncodeToString ys'"
    by (simp_all add: hex_byte_def)
  with Cons.IH ys show ?case by (auto dest: hex_byte_inj)
qed
lemma hex_chars: "set (hex_EncodeToString bs) \<subseteq> set ''0123456789abcdef''"
proof -
  define A where "A = set ''0123456789abcdef''"
  have "hex_digit n \<in> A" if "n < 16" for n
    unfolding A_def hex_digit_def using that by (intro nth_mem) simp
  then have "set (hex_byte b) \<subseteq> A" for b
    using unsigned_less [of b, where 'a = nat] by (auto simp: hex_byte_def)
  then have "set (hex_EncodeToString bs) \<subseteq> A"
    by (auto simp: hex_EncodeToString_def)
  then show ?thesis by (simp only: A_def)
qed

end
