(* ===== verification/Plan_Instructions.thy ===== *)
theory Plan_Instructions
  imports Go_Json Sha256
begin

text \<open>
  \<open>internal/controller/instructions.go\<close>: the one-time instructions that the system agent on
  a machine runs, the plan that carries them as JSON, and the test whether the agent has
  applied a plan.
\<close>

section \<open>Plans\<close>

record OneTimeInstruction =
  oti_Name :: string
  oti_Image :: string
  oti_Env :: "string list"
  oti_Args :: "string list"
  oti_Command :: string
  oti_SaveOutput :: bool

record Plan =
  OneTimeInstructions :: "OneTimeInstruction list"

text \<open>
  A composite literal that sets name, command, arguments and \<open>SaveOutput: true\<close> and leaves
  the other fields zero, as each constructor below writes it.
\<close>

definition shell_instruction :: "string \<Rightarrow> string list \<Rightarrow> OneTimeInstruction" where
  "shell_instruction nm args = \<lparr>oti_Name = nm, oti_Image = [], oti_Env = [], oti_Args = args,
     oti_Command = ''/bin/sh'', oti_SaveOutput = True\<rparr>"

lemma shell_instruction_simps [simp]:
  "oti_Name (shell_instruction nm args) = nm" "oti_Image (shell_instruction nm args) = []"
  "oti_Env (shell_instruction nm args) = []" "oti_Args (shell_instruction nm args) = args"
  "oti_Command (shell_instruction nm args) = ''/bin/sh''"
  "oti_SaveOutput (shell_instruction nm args) = True"
  by (simp_all add: shell_instruction_def)

definition killAllInstruction :: OneTimeInstruction where
  "killAllInstruction = shell_instruction ''shutdown''
     [''-c'',
      ''if [ -z $(command -v rke2) ] && [ -z $(command -v rke2-killall.sh) ]; then echo rke2 does not appear to be installed; exit 0; else rke2-killall.sh; fi'']"

definition etcdRestoreInstruction :: "EtcdMachineBackup \<Rightarrow> OneTimeInstruction" where
  "etcdRestoreInstruction snapshot = shell_instruction ''etcd-restore''
     [''-c'',
      ''rke2 server --cluster-reset'',
      ''--cluster-reset-restore-path='' @ strings_TrimPrefix (mbs_Location (mb_Spec snapshot)) ''file://'']"

definition manifestRemovalInstruction :: OneTimeInstruction where
  "manifestRemovalInstruction = shell_instruction ''remove-server-manifests''
     [''-c'',
      ''rm -rf /var/lib/rancher/rke2/server/manifests/rke2-*.yaml'']"

definition removeServerUrlFromConfig :: OneTimeInstruction where
  "removeServerUrlFromConfig = shell_instruction ''remove-server-manifests''
     [''-c'',
      ''sed -i '' @ [squot] @ ''/^server:/d'' @ [squot] @ '' /etc/rancher/rke2/config.yaml'']"

definition addServerUrlToConfig :: "string \<Rightarrow> OneTimeInstruction" where
  "addServerUrlToConfig serverIP = shell_instruction ''add-server-url-to-config''
     [''-c'',
      ''echo '' @ [squot] @ ''server: https://'' @ serverIP @ '':9345'' @ [squot]
        @ '' >> /etc/rancher/rke2/config.yaml'']"

definition removeEtcdDataInstruction :: OneTimeInstruction where
  "removeEtcdDataInstruction = shell_instruction ''remove-etcd-db-dir''
     [''-c'',
      ''rm -rf /var/lib/rancher/rke2/server/db/etcd'']"

definition startRKE2Instruction :: OneTimeInstruction where
  "startRKE2Instruction = shell_instruction ''start-rke2''
     [''-c'',
      ''systemctl start rke2-server.service'']"

lemmas instruction_defs =
  killAllInstruction_def etcdRestoreInstruction_def manifestRemovalInstruction_def
  removeServerUrlFromConfig_def addServerUrlToConfig_def removeEtcdDataInstruction_def
  startRKE2Instruction_def

section \<open>Plans as JSON\<close>

text \<open>A member with the \<open>omitempty\<close> option: left out where the value is the empty one.\<close>

definition omitempty :: "string \<Rightarrow> bool \<Rightarrow> json \<Rightarrow> (string \<times> json) list" where
  "omitempty k is_zero v = (if is_zero then [] else [(k, v)])"

definition instruction_json :: "OneTimeInstruction \<Rightarrow> json" where
  "instruction_json i = JObject (
     omitempty ''name'' (oti_Name i = []) (JString (oti_Name i))
     @ omitempty ''image'' (oti_Image i = []) (JString (oti_Image i))
     @ omitempty ''env'' (oti_Env i = []) (JArray (map JString (oti_Env i)))
     @ omitempty ''args'' (oti_Args i = []) (JArray (map JString (oti_Args i)))
     @ omitempty ''command'' (oti_Command i = []) (JString (oti_Command i))
     @ omitempty ''saveOutput'' (\<not> oti_SaveOutput i) (JBool (oti_SaveOutput i)))"

definition plan_json :: "Plan \<Rightarrow> json" where
  "plan_json p = JObject (
     omitempty ''instructions'' (OneTimeInstructions p = [])
       (JArray (map instruction_json (OneTimeInstructions p))))"

definition instructionsAsJson :: "OneTimeInstruction list \<Rightarrow> go_error + bytes" where
  "instructionsAsJson is = Inr (json_print (plan_json \<lparr>OneTimeInstructions = is\<rparr>))"

text \<open>The bytes of a plan: \<^const>\<open>instructionsAsJson\<close> never fails.\<close>

definition plan_bytes :: "OneTimeInstruction list \<Rightarrow> bytes" where
  "plan_bytes is = json_print (plan_json \<lparr>OneTimeInstructions = is\<rparr>)"

lemma instructionsAsJson_ok [simp]: "instructionsAsJson is = Inr (plan_bytes is)"
  by (simp add: instructionsAsJson_def plan_bytes_def)

section \<open>Applied plans\<close>

definition isPlanApplied :: "bytes \<Rightarrow> bytes \<Rightarrow> bool" where
  "isPlanApplied plan appliedChecksum =
     (let result = sha256_Sum256 (bytes_of plan);
          planHash = hex_EncodeToString result
      in planHash = appliedChecksum)"

definition plan_checksum :: "bytes \<Rightarrow> bytes" where
  "plan_checksum plan = hex_EncodeToString (sha256_Sum256 (bytes_of plan))"

lemma isPlanApplied_iff: "isPlanApplied plan cs \<longleftrightarrow> cs = plan_checksum plan"
  by (auto simp: isPlanApplied_def plan_checksum_def Let_def)

lemma length_plan_checksum [simp]: "length (plan_checksum plan) = 64"
  by (simp add: plan_checksum_def)

lemma plan_checksum_not_Nil [simp]: "plan_checksum plan \<noteq> []"
  by (metis length_plan_checksum list.size(3) zero_neq_numeral)

section \<open>Reading a plan back\<close>

text \<open>
  What the agent's \<open>json.Unmarshal\<close> into a \<open>Plan\<close> finds in a value: a member of another
  type is an error, a missing member is the zero value.
\<close>

definition string_member :: "json go_map \<Rightarrow> string \<Rightarrow> string option" where
  "string_member m k = (case map_of m k of
       None \<Rightarrow> Some []
     | Some (JString s) \<Rightarrow> Some s
     | Some _ \<Rightarrow> None)"

definition bool_member :: "json go_map \<Rightarrow> string \<Rightarrow> bool option" where
  "bool_member m k = (case map_of m k of
       None \<Rightarrow> Some False
     | Some (JBool b) \<Rightarrow> Some b
     | Some _ \<Rightarrow> None)"

fun strings_of :: "json list \<Rightarrow> string list option" where
  "strings_of [] = Some []"
| "strings_of (JString s # vs) = map_option (Cons s) (strings_of vs)"
| "strings_of (_ # vs) = None"

definition strings_member :: "json go_map \<Rightarrow> string \<Rightarrow> string list option" where
  "strings_member m k = (case map_of m k of
       None \<Rightarrow> Some []
     | Some (JArray vs) \<Rightarrow> strings_of vs
     | Some _ \<Rightarrow> None)"

fun instruction_of_json :: "json \<Rightarrow> OneTimeInstruction option" where
  "instruction_of_json (JObject m) =
     (case (string_member m ''name'', string_member m ''image'', strings_member m ''env'',
            strings_member m ''args'', string_member m ''command'', bool_member m ''saveOutput'') of
        (Some nm, Some img, Some env, Some args, Some cmd, Some save) \<Rightarrow>
          Some \<lparr>oti_Name = nm, oti_Image = img, oti_Env = env, oti_Args = args,
                oti_Command = cmd, oti_SaveOutput = save\<rparr>
      | _ \<Rightarrow> None)"
| "instruction_of_json _ = None"

fun instructions_of :: "json list \<Rightarrow> OneTimeInstruction list option" where
  "instructions_of [] = Some []"
| "instructions_of (v # vs) =
     (case (instruction_of_json v, instructions_of vs) of
        (Some i, Some is) \<Rightarrow> Some (i # is)
      | _ \<Rightarrow> None)"

fun plan_of_json :: "json \<Rightarrow> Plan option" where
  "plan_of_json (JObject m) =
     (case map_of m ''instructions'' of
        None \<Rightarrow> Some \<lparr>OneTimeInstructions = []\<rparr>
      | Some (JArray vs) \<Rightarrow> map_option (\<lambda>is. \<lparr>OneTimeInstructions = is\<rparr>) (instructions_of vs)
      | Some _ \<Rightarrow> None)"
| "plan_of_json _ = None"

definition read_plan :: "bytes \<Rightarrow> Plan option" where
  "read_plan bs = Option.bind (json_parse bs) plan_of_json"

definition valid_instruction :: "OneTimeInstruction \<Rightarrow> bool" where
  "valid_instruction i \<longleftrightarrow> valid_utf8 (oti_Name i) \<and> valid_utf8 (oti_Image i) \<and> valid_utf8 (oti_Command i)
     \<and> list_all valid_utf8 (oti_Env i) \<and> list_all valid_utf8 (oti_Args i)"

lemma strings_of_map [simp]: "strings_of (map JString xs) = Some xs"
  by (induction xs) auto

lemma map_of_omitempty:
  "map_of (omitempty k z v @ m) k' = (if \<not> z \<and> k' = k then Some v else map_of m k')"
  "map_of (omitempty k z v) k' = (if \<not> z \<and> k' = k then Some v else None)"
  by (simp_all add: omitempty_def)

lemma instruction_of_json_inverse [simp]: "instruction_of_json (instruction_json i) = Some i"
  by (simp add: instruction_json_def string_member_def strings_member_def bool_member_def
      map_of_omitempty del: map_of_append)

lemma instructions_of_inverse [simp]: "instructions_of (map instruction_json is) = Some is"
  by (induction "is") auto

lemma plan_of_json_inverse [simp]: "plan_of_json (plan_json p) = Some p"
  by (simp add: plan_json_def map_of_omitempty)

lemma set_omitempty [simp]: "x \<in> set (omitempty k z v) \<longleftrightarrow> \<not> z \<and> x = (k, v)"
  by (simp add: omitempty_def)

lemma wf_instruction_json: "valid_instruction i \<Longrightarrow> wf_json (instruction_json i)"
  by (auto simp: instruction_json_def valid_instruction_def list_all_iff valid_utf8_ascii)

lemma wf_plan_json: "list_all valid_instruction (OneTimeInstructions p) \<Longrightarrow> wf_json (plan_json p)"
  by (auto simp: plan_json_def list_all_iff wf_instruction_json valid_utf8_ascii)

lemma read_plan_bytes:
  "list_all valid_instruction is \<Longrightarrow> read_plan (plan_bytes is) = Some \<lparr>OneTimeInstructions = is\<rparr>"
  by (simp add: read_plan_def plan_bytes_def wf_plan_json json_parse_print)

lemma plan_bytes_inj:
  assumes "list_all valid_instruction is" and "list_all valid_instruction js"
    and "plan_bytes is = plan_bytes js"
  shows "is = js"
proof -
  have "Some \<lparr>OneTimeInstructions = is\<rparr> = read_plan (plan_bytes js)"
    unfolding assms(3) [symmetric] by (rule read_plan_bytes [OF assms(1), symmetric])
  also have "\<dots> = Some \<lparr>OneTimeInstructions = js\<rparr>" by (rule read_plan_bytes [OF assms(2)])
  finally show ?thesis by simp
qed

section \<open>The plans of a restore\<close>

text \<open>
  The four instruction lists the restore controller writes: to every machine to stop RKE2,
  to the init machine to restore, to the init machine to start, and to every other machine
  to join the init machine at an address.
\<close>

abbreviation kill_instructions :: "OneTimeInstruction list" where
  "kill_instructions \<equiv> [killAllInstruction]"

abbreviation restore_instructions :: "EtcdMachineBackup \<Rightarrow> OneTimeInstruction list" where
  "restore_instructions b \<equiv>
     [removeServerUrlFromConfig, manifestRemovalInstruction, etcdRestoreInstruction b]"

abbreviation start_instructions :: "OneTimeInstruction list" where
  "start_instructions \<equiv> [startRKE2Instruction]"

abbreviation join_instructions :: "string \<Rightarrow> OneTimeInstruction list" where
  "join_instructions ip \<equiv>
     [removeServerUrlFromConfig, addServerUrlToConfig ip, removeEtcdDataInstruction,
      manifestRemovalInstruction, startRKE2Instruction]"

lemma valid_instructions [simp]:
  "valid_instruction killAllInstruction" "valid_instruction manifestRemovalInstruction"
  "valid_instruction removeServerUrlFromConfig" "valid_instruction removeEtcdDataInstruction"
  "valid_instruction startRKE2Instruction"
  by (simp_all add: instruction_defs valid_instruction_def valid_utf8_ascii)

lemma valid_etcdRestoreInstruction:
  "valid_utf8 (strings_TrimPrefix (mbs_Location (mb_Spec b)) ''file://'') \<Longrightarrow>
     valid_instruction (etcdRestoreInstruction b)"
  using valid_utf8_append [of "''--cluster-reset-restore-path=''"]
  by (simp add: etcdRestoreInstruction_def valid_instruction_def valid_utf8_ascii)

lemma valid_addServerUrlToConfig:
  assumes "valid_utf8 ip"
  shows "valid_instruction (addServerUrlToConfig ip)"
proof -
  have "valid_utf8 ((''echo '' @ [squot] @ ''server: https://'') @ ip @
      '':9345'' @ [squot] @ '' >> /etc/rancher/rke2/config.yaml'')"
    using assms by (intro valid_utf8_cat) simp_all
  then show ?thesis
    by (simp add: addServerUrlToConfig_def valid_instruction_def valid_utf8_ascii)
qed

lemma etcdRestoreInstruction_eq_iff:
  "etcdRestoreInstruction b = etcdRestoreInstruction b' \<longleftrightarrow>
     strings_TrimPrefix (mbs_Location (mb_Spec b)) ''file://''
       = strings_TrimPrefix (mbs_Location (mb_Spec b')) ''file://''"
  by (simp add: etcdRestoreInstruction_def shell_instruction_def)

lemma addServerUrlToConfig_eq_iff: "addServerUrlToConfig ip = addServerUrlToConfig ip' \<longleftrightarrow> ip = ip'"
  by (simp add: addServerUrlToConfig_def shell_instruction_def)

section \<open>Properties\<close>

lemma plan_bytes_eq_iff:
  "list_all valid_instruction is \<Longrightarrow> list_all valid_instruction js \<Longrightarrow>
     plan_bytes is = plan_bytes js \<longleftrightarrow> is = js"
  by (auto intro: plan_bytes_inj)

text \<open>C23: An agent that decodes a plan gets back the instructions it was made from, in order
  and field by field, whatever bytes its strings hold as long as they are UTF-8.\<close>

theorem plan_round_trip:
  assumes "list_all valid_instruction is"
  shows "read_plan (plan_bytes is) = Some \<lparr>OneTimeInstructions = is\<rparr>"
  by (rule read_plan_bytes [OF assms])

theorem plan_round_trip_witness:
  "read_plan (plan_bytes (join_instructions ''10.0.0.1'')) = Some \<lparr>OneTimeInstructions = join_instructions ''10.0.0.1''\<rparr>"
  by (rule plan_round_trip) (simp add: valid_addServerUrlToConfig valid_utf8_ascii)

text \<open>C25: The plans of the four stages are four different byte strings, and the restore plan
  tells two snapshots apart, the join plan two addresses: a plan secret that holds one of
  them is always rewritten when the next stage, or another restore, needs another.\<close>

theorem stage_plans_distinct:
  assumes "valid_utf8 (strings_TrimPrefix (mbs_Location (mb_Spec b)) ''file://'')"
    and "valid_utf8 (strings_TrimPrefix (mbs_Location (mb_Spec b')) ''file://'')"
    and "valid_utf8 ip" and "valid_utf8 ip'"
  shows "distinct [plan_bytes kill_instructions, plan_bytes (restore_instructions b),
      plan_bytes start_instructions, plan_bytes (join_instructions ip)] \<and>
    (plan_bytes (restore_instructions b) = plan_bytes (restore_instructions b') \<longleftrightarrow>
      strings_TrimPrefix (mbs_Location (mb_Spec b)) ''file://'' = strings_TrimPrefix (mbs_Location (mb_Spec b')) ''file://'') \<and>
    (plan_bytes (join_instructions ip) = plan_bytes (join_instructions ip') \<longleftrightarrow> ip = ip')"
proof -
  have v: "list_all valid_instruction (restore_instructions b)" "list_all valid_instruction (restore_instructions b')"
    "list_all valid_instruction (join_instructions ip)" "list_all valid_instruction (join_instructions ip')"
    "list_all valid_instruction kill_instructions" "list_all valid_instruction start_instructions"
    using assms by (simp_all add: valid_etcdRestoreInstruction valid_addServerUrlToConfig)
  have "killAllInstruction \<noteq> startRKE2Instruction"
    by (simp add: instruction_defs shell_instruction_def)
  then show ?thesis
    by (simp only: distinct.simps list.set plan_bytes_eq_iff [OF v(5,1)] plan_bytes_eq_iff [OF v(5,6)]
        plan_bytes_eq_iff [OF v(5,3)] plan_bytes_eq_iff [OF v(1,6)] plan_bytes_eq_iff [OF v(1,3)]
        plan_bytes_eq_iff [OF v(6,3)] plan_bytes_eq_iff [OF v(1,2)] plan_bytes_eq_iff [OF v(3,4)] insert_iff)
      (simp add: etcdRestoreInstruction_eq_iff addServerUrlToConfig_eq_iff)
qed

theorem stage_plans_distinct_witness:
  "let b = \<lparr>mb_meta = meta_for ''nightly'' ''default'', mb_Spec = \<lparr>mbs_ClusterName = ''rke2'',
         mbs_MachineName = ''cp-1'', mbs_Location = ''file:///db/snapshots/nightly'', mbs_Manual = False\<rparr>,
         mb_Status = \<lparr>mbst_Conditions = []\<rparr>\<rparr>
   in plan_bytes (restore_instructions b) \<noteq> plan_bytes (join_instructions ''10.0.0.1'')"
  unfolding Let_def
  using stage_plans_distinct [of
    "\<lparr>mb_meta = meta_for ''nightly'' ''default'', mb_Spec = \<lparr>mbs_ClusterName = ''rke2'',
         mbs_MachineName = ''cp-1'', mbs_Location = ''file:///db/snapshots/nightly'', mbs_Manual = False\<rparr>,
         mb_Status = \<lparr>mbst_Conditions = []\<rparr>\<rparr>"
    "\<lparr>mb_meta = meta_for ''nightly'' ''default'', mb_Spec = \<lparr>mbs_ClusterName = ''rke2'',
         mbs_MachineName = ''cp-1'', mbs_Location = ''file:///db/snapshots/nightly'', mbs_Manual = False\<rparr>,
         mb_Status = \<lparr>mbst_Conditions = []\<rparr>\<rparr>" "''10.0.0.1''" "''10.0.0.1''"]
  by (simp add: valid_utf8_ascii strings_TrimPrefix_def)

text \<open>The outputs of a plan are saved under the names of its instructions, and two
  instructions of the restore plan, and of the join plan, share a name: both outputs cannot
  be kept.\<close>

theorem plan_names_clash:
  "\<not> distinct (map oti_Name (restore_instructions b)) \<and> \<not> distinct (map oti_Name (join_instructions ip))
     \<and> list_all oti_SaveOutput (restore_instructions b @ join_instructions ip)"
  by (simp add: instruction_defs)

end
