(* ===== verification/Restore_Controller.thy ===== *)
theory Restore_Controller
  imports Kube_Client Plan_Instructions
begin

text \<open>
  \<open>internal/controller/etcdsnapshotrestore_controller.go\<close>: the reconciler of
  \<open>ETCDSnapshotRestore\<close> objects. A restore moves a cluster through the phases Started,
  Shutdown, Restore and Finished; in each phase the reconciler writes a plan into the plan
  secrets of the machines and waits until the agents report it applied. The functions
  below are the Go functions in their order, with the client \<open>c\<close> and the library
  functions \<open>cd\<close> as arguments.
\<close>

section \<open>Library functions\<close>

text \<open>
  What \<open>decompressPlanOutput\<close> takes from \<open>compress/gzip\<close> and \<open>encoding/json\<close>: reading
  a whole gzip stream, and decoding a JSON object of base64 strings.
\<close>

record codec =
  gunzip :: "bytes \<Rightarrow> go_error + bytes"
  json_Unmarshal_output :: "bytes \<Rightarrow> go_error + bytes go_map"

definition MachinePhaseRunning :: string where "MachinePhaseRunning = ''Running''"

definition MachineInternalIP :: string where "MachineInternalIP = ''InternalIP''"

definition ClusterNameLabel :: string where
  "ClusterNameLabel = ''cluster.x-k8s.io/cluster-name''"

section \<open>Scope\<close>

record scope =
  sc_cluster :: cluster
  sc_machines :: "machine list"
  sc_initMachine :: "machine option"
  sc_etcdmachinebackup :: EtcdMachineBackup

text \<open>The loop that looks for the init machine; it starts from a pointer to an empty machine.\<close>

definition find_init_machine :: "machine list \<Rightarrow> string \<Rightarrow> machine option" where
  "find_init_machine ms nm = (case find (\<lambda>m. mc_Name m = nm) ms of
       Some m \<Rightarrow> Some m
     | None \<Rightarrow> Some empty_machine)"

definition newScope :: "'w client \<Rightarrow> ETCDSnapshotRestore \<Rightarrow> ('w, scope) go" where
  "newScope c r =
     (if srs_ClusterName (sr_Spec r) = [] \<or> srs_EtcdMachineBackupName (sr_Spec r) = [] then
        fail (Errorf ''clusterName and etcdMachineBackupName must be set'')
      else
        bind_err (call (get_Cluster c (key (om_Namespace (sr_meta r)) (srs_ClusterName (sr_Spec r)))))
          (Wrapf ''failed to get cluster: '') (\<lambda>cluster.
        bind_go (call (list_Machine c
            [InNamespace (om_Namespace (cl_meta cluster)),
             MatchingLabels [(ClusterNameLabel, om_Name (cl_meta cluster))]])) (\<lambda>machines.
        bind_err (call (get_EtcdMachineBackup c
            (key (om_Namespace (sr_meta r)) (srs_EtcdMachineBackupName (sr_Spec r)))))
          (Wrapf ''failed to get etcd machine backup: '') (\<lambda>backup.
        ret \<lparr>sc_cluster = cluster, sc_machines = machines,
             sc_initMachine = find_init_machine machines (mbs_MachineName (mb_Spec backup)),
             sc_etcdmachinebackup = backup\<rparr>))))"

section \<open>Plan secrets\<close>

definition plan_secret_name :: "rke2_config \<Rightarrow> string" where
  "plan_secret_name cfg = strings_Join [rc_Name cfg, ''rke2config'', ''plan''] ''-''"

definition getPlanSecretForMachine :: "'w client \<Rightarrow> machine \<Rightarrow> ('w, secret) go" where
  "getPlanSecretForMachine c m =
     bind_go (deref ''machine.Spec.Bootstrap.ConfigRef'' (mc_ConfigRef m)) (\<lambda>ref.
     bind_err (call (get_RKE2Config c (key (mc_Namespace m) (or_Name ref))))
       (Wrapf ''failed to get RKE2Config: '') (\<lambda>cfg.
     bind_err (call (get_Secret c (key (mc_Namespace m) (plan_secret_name cfg))))
       (Wrapf ''failed to get plan secret: '') ret))"

text \<open>
  The machine is only named in the log. The result is the secret the pointer then holds:
  the server's answer where a patch was sent.
\<close>

definition updatePlanSecretWithPlan ::
  "'w client \<Rightarrow> machine option \<Rightarrow> secret \<Rightarrow> bytes \<Rightarrow> ('w, secret) go" where
  "updatePlanSecretWithPlan c m s data =
     (if secret_data s ''plan'' \<noteq> data then
        bind_go (deref ''machine'' m) (\<lambda>_.
          (case sec_Data s of
             None \<Rightarrow> panicking NilMapWrite
           | Some d \<Rightarrow>
               bind_err (call (patch_Secret c s (s\<lparr>sec_Data := Some (map_assign ''plan'' data d)\<rparr>)))
                 (Wrapf ''failed to patch plan secret: '') ret))
      else ret s)"

text \<open>\<open>if planSecret.Data == nil { planSecret.Data = map[string][]byte{} }\<close>.\<close>

definition ensure_data :: "secret \<Rightarrow> secret" where
  "ensure_data s = (case sec_Data s of None \<Rightarrow> s\<lparr>sec_Data := Some []\<rparr> | Some d \<Rightarrow> s)"

definition decompressPlanOutput :: "codec \<Rightarrow> secret \<Rightarrow> go_error + bytes go_map" where
  "decompressPlanOutput cd s =
     (case gunzip cd (secret_data s ''applied-output'') of
        Inl e \<Rightarrow> Inl e
      | Inr out \<Rightarrow>
          (case json_Unmarshal_output cd out of
             Inl e \<Rightarrow> Inl (Wrapf ''failed to unmarshal output: '' e)
           | Inr m \<Rightarrow> Inr m))"

fun first_internal_ip :: "machine_address list \<Rightarrow> string" where
  "first_internal_ip [] = []"
| "first_internal_ip (a # as) = (if ma_Type a = MachineInternalIP then ma_Address a else first_internal_ip as)"

definition getInternalMachineIP :: "machine \<Rightarrow> string" where
  "getInternalMachineIP m = first_internal_ip (mc_Addresses m)"

section \<open>Phase Started: stop RKE2 on every machine\<close>

definition thirty_seconds :: ctrl_result where
  "thirty_seconds = requeue_after (30 * second)"

text \<open>The loop body, with \<open>allMachinesReady\<close> as the accumulator.\<close>

definition stop_machine :: "'w client \<Rightarrow> codec \<Rightarrow> scope \<Rightarrow> machine \<Rightarrow> bool \<Rightarrow> ('w, bool) go" where
  "stop_machine c cd sc m ready =
     bind_err (of_result (instructionsAsJson kill_instructions))
       (Wrapf ''failed to get kill all instruction: '') (\<lambda>kill.
     bind_err (getPlanSecretForMachine c m) (Wrapf ''failed to get plan secret for machine: '') (\<lambda>s.
     bind_err (updatePlanSecretWithPlan c (sc_initMachine sc) (ensure_data s) kill)
       (Wrapf ''failed to patch plan secret: '') (\<lambda>_.
     bind_err (getPlanSecretForMachine c m) (Wrapf ''failed to get plan secret for machine: '') (\<lambda>s'.
     if \<not> isPlanApplied kill (secret_data s' ''applied-checksum'') then ret False
     else bind_err (of_result (decompressPlanOutput cd s')) (Wrapf ''failed to decompress plan output: '')
       (\<lambda>_. ret ready)))))"

definition stopRKE2OnAllMachines ::
  "'w client \<Rightarrow> codec \<Rightarrow> scope \<Rightarrow> ETCDSnapshotRestore \<Rightarrow> ('w, ETCDSnapshotRestore \<times> ctrl_result) go" where
  "stopRKE2OnAllMachines c cd sc r =
     bind_go (for_range (stop_machine c cd sc) (sc_machines sc) True) (\<lambda>allMachinesReady.
     if allMachinesReady then ret (set_phase ETCDSnapshotPhaseShutdown r, no_requeue)
     else ret (r, thirty_seconds))"

section \<open>Phase Shutdown: restore on the init machine\<close>

definition restoreSnaphotOnInitMachine ::
  "'w client \<Rightarrow> codec \<Rightarrow> scope \<Rightarrow> ETCDSnapshotRestore \<Rightarrow> ('w, ETCDSnapshotRestore \<times> ctrl_result) go" where
  "restoreSnaphotOnInitMachine c cd sc r =
     (if mbs_Location (mb_Spec (sc_etcdmachinebackup sc)) = [] then
        fail (Errorf ''etcdMachineBackup location must be set'')
      else (case sc_initMachine sc of
        None \<Rightarrow> fail (Errorf ''initMachine must be set'')
      | Some initMachine \<Rightarrow>
          bind_err (getPlanSecretForMachine c initMachine)
            (Wrapf ''failed to get plan secret for machine: '') (\<lambda>s.
          bind_err (of_result (instructionsAsJson (restore_instructions (sc_etcdmachinebackup sc))))
            (Wrapf ''failed to get etcd restore instructions: '') (\<lambda>instructions.
          bind_err (updatePlanSecretWithPlan c (Some initMachine) (ensure_data s) instructions)
            (Wrapf ''failed to patch plan secret: '') (\<lambda>s'.
          if \<not> isPlanApplied instructions (secret_data s' ''applied-checksum'') then ret (r, thirty_seconds)
          else bind_err (of_result (decompressPlanOutput cd s')) (Wrapf ''failed to decompress plan output: '')
            (\<lambda>_. ret (set_phase ETCDSnapshotPhaseRestore r, no_requeue)))))))"

section \<open>Phase Restore: start RKE2, the init machine first\<close>

text \<open>The loop body over the machines; the init machine is skipped.\<close>

definition start_machine ::
  "'w client \<Rightarrow> codec \<Rightarrow> machine \<Rightarrow> string \<Rightarrow> machine \<Rightarrow> bool \<Rightarrow> ('w, bool) go" where
  "start_machine c cd initMachine initMachineIP m ready =
     (if mc_Name m = mc_Name initMachine then ret ready
      else
        bind_err (of_result (instructionsAsJson (join_instructions initMachineIP)))
          (Wrapf ''failed to get start RKE2 instruction: '') (\<lambda>start.
        bind_err (getPlanSecretForMachine c m) (Wrapf ''failed to get plan secret for machine: '') (\<lambda>s.
        bind_err (updatePlanSecretWithPlan c (Some m) (ensure_data s) start)
          (Wrapf ''failed to patch plan secret: '') (\<lambda>_.
        bind_err (getPlanSecretForMachine c m) (Wrapf ''failed to get plan secret for machine: '') (\<lambda>s'.
        if \<not> isPlanApplied start (secret_data s' ''applied-checksum'') then ret False
        else bind_err (of_result (decompressPlanOutput cd s')) (Wrapf ''failed to decompress plan output: '')
          (\<lambda>_. ret ready))))))"

definition startRKE2OnAllMachines ::
  "'w client \<Rightarrow> codec \<Rightarrow> scope \<Rightarrow> ETCDSnapshotRestore \<Rightarrow> ('w, ETCDSnapshotRestore \<times> ctrl_result) go" where
  "startRKE2OnAllMachines c cd sc r =
     bind_go (deref ''scope.initMachine'' (sc_initMachine sc)) (\<lambda>initMachine.
     if getInternalMachineIP initMachine = [] then
       fail (Errorf ''failed to get internal machine IP, field is empty'')
     else
       bind_err (getPlanSecretForMachine c initMachine)
         (Wrapf ''failed to get plan secret for machine: '') (\<lambda>s.
       bind_err (of_result (instructionsAsJson start_instructions))
         (Wrapf ''failed to get start RKE2 instruction: '') (\<lambda>startInit.
       bind_err (updatePlanSecretWithPlan c (Some initMachine) s startInit)
         (Wrapf ''failed to patch plan secret: '') (\<lambda>s'.
       if \<not> isPlanApplied startInit (secret_data s' ''applied-checksum'') then ret (r, thirty_seconds)
       else
         bind_err (of_result (decompressPlanOutput cd s')) (Wrapf ''failed to decompress plan output: '') (\<lambda>_.
         bind_go (for_range (start_machine c cd initMachine (getInternalMachineIP initMachine))
           (sc_machines sc) True) (\<lambda>allMachinesReady.
         if allMachinesReady then ret (set_phase ETCDSnapshotPhaseFinished r, no_requeue)
         else ret (r, thirty_seconds)))))))"

section \<open>Reconcile\<close>

text \<open>
  The body of \<open>reconcileNormal\<close> after the phase is set: an error leaves the restore
  object as it is here, a value is the object and the result.
\<close>

definition reconcile_scope ::
  "'w client \<Rightarrow> codec \<Rightarrow> ETCDSnapshotRestore \<Rightarrow> ('w, ETCDSnapshotRestore \<times> ctrl_result) go" where
  "reconcile_scope c cd r =
     bind_go (newScope c r) (\<lambda>sc.
     if \<not> list_all (\<lambda>m. mc_Phase m = MachinePhaseRunning) (sc_machines sc) then
       ret (r, thirty_seconds)
     else
       bind_err (call (patch_Cluster c (sc_cluster sc) ((sc_cluster sc)\<lparr>cl_Paused := True\<rparr>)))
         (Wrapf ''failed to pause cluster: '') (\<lambda>cluster.
       if sr_Phase r = ETCDSnapshotPhaseStarted then
         stopRKE2OnAllMachines c cd (sc\<lparr>sc_cluster := cluster\<rparr>) r
       else if sr_Phase r = ETCDSnapshotPhaseShutdown then
         restoreSnaphotOnInitMachine c cd (sc\<lparr>sc_cluster := cluster\<rparr>) r
       else if sr_Phase r = ETCDSnapshotPhaseRestore then
         startRKE2OnAllMachines c cd (sc\<lparr>sc_cluster := cluster\<rparr>) r
       else if sr_Phase r = ETCDSnapshotPhaseFinished then
         bind_err (call (patch_Cluster c cluster (cluster\<lparr>cl_Paused := False\<rparr>)))
           (Wrapf ''failed to pause cluster: '') (\<lambda>_. ret (r, no_requeue))
       else ret (r, no_requeue)))"

definition reconcileNormal ::
  "'w client \<Rightarrow> codec \<Rightarrow> ETCDSnapshotRestore \<Rightarrow> ('w, ETCDSnapshotRestore \<times> (go_error + ctrl_result)) go" where
  "reconcileNormal c cd r0 =
     (let r = (if sr_Phase r0 = [] then set_phase ETCDSnapshotPhaseStarted r0 else r0)
      in bind_go (catch_err (reconcile_scope c cd r)) (\<lambda>done. case done of
           Inl e \<Rightarrow> ret (r, Inl e)
         | Inr (r', result) \<Rightarrow> ret (r', Inr result)))"

text \<open>
  What a reconciler returns beside its result: an error of its own, or the aggregate of
  several.
\<close>

datatype reconcile_error = Single go_error | Aggregate "go_error list"

definition reconcileDelete :: "ETCDSnapshotRestore \<Rightarrow> ('w, ctrl_result \<times> reconcile_error option) go" where
  "reconcileDelete r = ret (no_requeue, None)"

definition Reconcile ::
  "'w client \<Rightarrow> codec \<Rightarrow> object_key \<Rightarrow> ('w, ctrl_result \<times> reconcile_error option) go" where
  "Reconcile c cd req =
     bind_go (attempt (get_ETCDSnapshotRestore c req)) (\<lambda>got. case got of
       Inl e \<Rightarrow> if IsNotFound e then ret (no_requeue, None)
                else ret (no_requeue, Some (Single (ApiError e)))
     | Inr r \<Rightarrow>
         if om_DeletionTimestamp (sr_meta r) \<noteq> None then reconcileDelete r
         else
           bind_go (reconcileNormal c cd r) (\<lambda>(r1, result).
           let errs1 = (case result of
                 Inl e \<Rightarrow> [Wrapf ''error reconciling etcd snapshot restore: '' e]
               | Inr _ \<Rightarrow> []);
               status = sr_Status r1
           in bind_go (attempt (patch_ETCDSnapshotRestore c r r1)) (\<lambda>patched.
           let errs2 = errs1 @ (case patched of
                 Inl e \<Rightarrow> [Wrapf ''failed to patch etcd snapshot restore: '' (ApiError e)]
               | Inr _ \<Rightarrow> []);
               r2 = (case patched of Inl _ \<Rightarrow> r1 | Inr answer \<Rightarrow> answer)\<lparr>sr_Status := status\<rparr>
           in bind_go (attempt (patch_ETCDSnapshotRestore_status c r r2)) (\<lambda>patched'.
           let errs3 = errs2 @ (case patched' of
                 Inl e \<Rightarrow> [Wrapf ''failed to patch etcd snapshot restore: '' (ApiError e)]
               | Inr _ \<Rightarrow> [])
           in if errs3 \<noteq> [] then ret (no_requeue, Some (Aggregate errs3))
              else ret (case result of Inl _ \<Rightarrow> no_requeue | Inr res \<Rightarrow> res, None)))))"

end
