(* ===== verification/Restore_Safety.thy ===== *)
theory Restore_Safety
  imports Restore_Controller
begin

text \<open>
  What the restore reconciler does against any client whatever: the calls it records and
  its outcome. No hypothesis is made on the API server or on anything else that acts on
  the cluster, so the statements hold under every interleaving and every failure.
\<close>

section \<open>The calls of the helpers\<close>

lemma emits_all_getPlanSecret:
  assumes "\<And>k r. P (EvGetRKE2Config k r)" "\<And>k r. P (EvGetSecret k r)"
  shows "emits_all P (getPlanSecretForMachine (recording c) m)"
  unfolding getPlanSecretForMachine_def recording_simps
  by (intro emits_all_rules emits_all_call assms)

lemma emits_all_updatePlanSecret:
  assumes "\<And>d r. sec_Data s = Some d \<Longrightarrow> secret_data s ''plan'' \<noteq> data \<Longrightarrow>
      P (EvPatchSecret s (s\<lparr>sec_Data := Some (map_assign ''plan'' data d)\<rparr>) r)"
  shows "emits_all P (updatePlanSecretWithPlan (recording c) m s data)"
proof (cases "sec_Data s")
  case None
  then show ?thesis
    by (auto simp: updatePlanSecretWithPlan_def intro: emits_all_rules)
next
  case (Some d)
  with assms show ?thesis
    unfolding updatePlanSecretWithPlan_def recording_simps Some option.case
    by (intro emits_all_rules emits_all_call) auto
qed

lemma emits_all_newScope:
  assumes "\<And>k r. P (EvGetCluster k r)" "\<And>os r. P (EvListMachine os r)"
    "\<And>k r. P (EvGetEtcdMachineBackup k r)"
  shows "emits_all P (newScope (recording c) r)"
  unfolding newScope_def recording_simps
  by (intro emits_all_rules emits_all_call assms)

text \<open>
  A read that the trace of a call to \<^const>\<open>getPlanSecretForMachine\<close> proves: the machine's
  configuration was read, and the plan secret named after it.
\<close>

definition fetched :: "event list \<Rightarrow> machine \<Rightarrow> secret \<Rightarrow> bool" where
  "fetched es m s \<longleftrightarrow> (\<exists>ref cfg. mc_ConfigRef m = Some ref
     \<and> EvGetRKE2Config (key (mc_Namespace m) (or_Name ref)) (Inr cfg) \<in> set es
     \<and> EvGetSecret (key (mc_Namespace m) (plan_secret_name cfg)) (Inr s) \<in> set es)"

text \<open>The machine's agent was seen to report a plan as applied.\<close>

definition reported :: "event list \<Rightarrow> machine \<Rightarrow> bytes \<Rightarrow> bool" where
  "reported es m plan \<longleftrightarrow>
     (\<exists>s. fetched es m s \<and> secret_data s ''applied-checksum'' = plan_checksum plan)"

lemma fetched_mono: "fetched es m s \<Longrightarrow> set es \<subseteq> set es' \<Longrightarrow> fetched es' m s"
  unfolding fetched_def by blast

lemma reported_mono: "reported es m plan \<Longrightarrow> set es \<subseteq> set es' \<Longrightarrow> reported es' m plan"
  unfolding reported_def by (blast intro: fetched_mono)

lemma emits_getPlanSecret:
  "emits (getPlanSecretForMachine (recording c) m) (\<lambda>new out. \<forall>s. out = Return s \<longrightarrow> fetched new m s)"
  unfolding getPlanSecretForMachine_def recording_simps
  apply (rule emits_bind_err [where P = "\<lambda>new out. new = [] \<and> (\<forall>a. out = Return a \<longrightarrow> mc_ConfigRef m = Some a)"])
  subgoal by (rule emits_deref) simp_all
  subgoal for ref new1
    apply (rule emits_bind_err [where P = "\<lambda>new out. \<forall>a. out = Return a \<longrightarrow>
        EvGetRKE2Config (key (mc_Namespace m) (or_Name ref)) (Inr a) \<in> set new"])
    subgoal by (rule emits_call) simp_all
    subgoal for cfg new2
      apply (rule emits_bind_err [where P = "\<lambda>new out. \<forall>a. out = Return a \<longrightarrow>
          EvGetSecret (key (mc_Namespace m) (plan_secret_name cfg)) (Inr a) \<in> set new"])
      subgoal by (rule emits_call) simp_all
      subgoal by (rule emits_ret) (auto simp: fetched_def)
      by simp_all
    by simp_all
  by simp_all

text \<open>What an update leaves: the plan is there unless the server answered otherwise.\<close>

lemma emits_updatePlanSecret:
  "emits (updatePlanSecretWithPlan (recording c) m s data) (\<lambda>new out. \<forall>s'. out = Return s' \<longrightarrow>
     (new = [] \<and> s' = s \<and> secret_data s ''plan'' = data) \<or>
     (\<exists>d. sec_Data s = Some d \<and>
        new = [EvPatchSecret s (s\<lparr>sec_Data := Some (map_assign ''plan'' data d)\<rparr>) (Inr s')]))"
proof (cases "secret_data s ''plan'' = data")
  case True
  then show ?thesis
    by (auto simp: updatePlanSecretWithPlan_def intro: emits_ret)
next
  case False
  show ?thesis
  proof (cases m)
    case None
    with False show ?thesis
      by (auto simp: updatePlanSecretWithPlan_def intro: emits_panicking)
  next
    case (Some m')
    show ?thesis
    proof (cases "sec_Data s")
      case None
      with False Some show ?thesis
        by (auto simp: updatePlanSecretWithPlan_def intro: emits_panicking)
    next
      case (Some d)
      have "emits (call (record_call (EvPatchSecret s (s\<lparr>sec_Data := Some (map_assign ''plan'' data d)\<rparr>))
            (patch_Secret c s (s\<lparr>sec_Data := Some (map_assign ''plan'' data d)\<rparr>))))
          (\<lambda>new out. \<forall>s'. out = Return s' \<longrightarrow>
             new = [EvPatchSecret s (s\<lparr>sec_Data := Some (map_assign ''plan'' data d)\<rparr>) (Inr s')])"
        by (rule emits_call) simp_all
      then have "emits (bind_err (call (record_call (EvPatchSecret s (s\<lparr>sec_Data := Some (map_assign ''plan'' data d)\<rparr>))
            (patch_Secret c s (s\<lparr>sec_Data := Some (map_assign ''plan'' data d)\<rparr>))))
            (Wrapf ''failed to patch plan secret: '') ret)
          (\<lambda>new out. \<forall>s'. out = Return s' \<longrightarrow>
             new = [EvPatchSecret s (s\<lparr>sec_Data := Some (map_assign ''plan'' data d)\<rparr>) (Inr s')])"
        by (rule emits_bind_err) (auto intro: emits_ret)
      with False \<open>m = Some m'\<close> Some show ?thesis
        by (auto simp: updatePlanSecretWithPlan_def elim: emits_weaken)
    qed
  qed
qed

lemma emits_any_getPlanSecret: "emits (getPlanSecretForMachine (recording c) m) (\<lambda>_ _. True)"
  by (intro emits_any emits_all_getPlanSecret) simp_all

lemma emits_any_updatePlanSecret: "emits (updatePlanSecretWithPlan (recording c) m s data) (\<lambda>_ _. True)"
  by (intro emits_any emits_all_updatePlanSecret) simp_all

section \<open>A phase ends only when the agents have applied its plan\<close>

lemma emits_decompress: "emits (of_result (decompressPlanOutput cd s)) (\<lambda>new out. new = [])"
  by (rule emits_of_result) simp_all

text \<open>
  The two machine loops share their body: fetch the plan secret, write the plan, fetch it
  again, look whether the agent has applied it. They differ in the plan, and in the
  machine the update names in the log.
\<close>

definition drive_plan ::
  "'w client \<Rightarrow> codec \<Rightarrow> machine option \<Rightarrow> machine \<Rightarrow> bytes \<Rightarrow> bool \<Rightarrow> ('w, bool) go" where
  "drive_plan c cd named m plan ready =
     bind_err (getPlanSecretForMachine c m) (Wrapf ''failed to get plan secret for machine: '') (\<lambda>s.
     bind_err (updatePlanSecretWithPlan c named (ensure_data s) plan)
       (Wrapf ''failed to patch plan secret: '') (\<lambda>_.
     bind_err (getPlanSecretForMachine c m) (Wrapf ''failed to get plan secret for machine: '') (\<lambda>s'.
     if \<not> isPlanApplied plan (secret_data s' ''applied-checksum'') then ret False
     else bind_err (of_result (decompressPlanOutput cd s')) (Wrapf ''failed to decompress plan output: '')
       (\<lambda>_. ret ready))))"

lemma stop_machine_drive:
  "stop_machine c cd sc m ready = drive_plan c cd (sc_initMachine sc) m (plan_bytes kill_instructions) ready"
  by (simp add: stop_machine_def drive_plan_def)

lemma start_machine_drive:
  "start_machine c cd im ip m ready =
     (if mc_Name m = mc_Name im then ret ready
      else drive_plan c cd (Some m) m (plan_bytes (join_instructions ip)) ready)"
  by (simp add: start_machine_def drive_plan_def)

text \<open>An iteration leaves the flag up only if it was up and the agent reported the plan.\<close>

lemma emits_drive_plan:
  "emits (drive_plan (recording c) cd named m plan ready) (\<lambda>new out. \<forall>b. out = Return b \<longrightarrow> b \<longrightarrow>
     ready \<and> reported new m plan)"
  unfolding drive_plan_def
  apply (rule emits_bind_err [OF emits_any_getPlanSecret])
  subgoal for s new1
    apply (rule emits_bind_err [OF emits_any_updatePlanSecret])
    subgoal for s1 new2
      apply (rule emits_bind_err [OF emits_getPlanSecret])
      subgoal for s2 new3
        apply (rule emits_if)
        subgoal by (rule emits_ret) simp
        subgoal premises prems
        proof (rule emits_bind_err [OF emits_decompress])
          from prems have "reported new3 m plan"
            by (auto simp: reported_def isPlanApplied_iff)
          then have "reported (new1 @ new2 @ new3) m plan" by (rule reported_mono) auto
          then show "emits (ret ready) (\<lambda>new4 out. \<forall>b. out = Return b \<longrightarrow> b \<longrightarrow>
              ready \<and> reported (new1 @ new2 @ new3 @ x @ new4) m plan)" if "x = []" for x
            using that by (auto intro: emits_ret)
        qed simp_all
        done
      by simp_all
    by simp_all
  by simp_all

text \<open>
  Either loop ends with the flag up only if every iteration justified it.
\<close>

lemma emits_for_range_flag:
  assumes body: "\<And>x ready. emits (f x ready) (\<lambda>new out. \<forall>b. out = Return b \<longrightarrow> b \<longrightarrow> ready \<and> R new x)"
    and mono: "\<And>es es' x. R es x \<Longrightarrow> set es \<subseteq> set es' \<Longrightarrow> R es' x"
  shows "emits (for_range f xs True) (\<lambda>new out. \<forall>b. out = Return b \<longrightarrow> b \<longrightarrow> (\<forall>x \<in> set xs. R new x))"
proof (rule emits_for_range [where I = "\<lambda>done new ready. ready \<longrightarrow> (\<forall>x \<in> set done. R new x)"])
  fix ys x zs a and new :: "event list"
  assume I: "a \<longrightarrow> (\<forall>x \<in> set ys. R new x)"
  have step: "R (new @ new2) y" if "b" "b \<longrightarrow> a \<and> R new2 x" "y \<in> set (ys @ [x])" for b new2 y
    using that I by (auto intro: mono)
  show "emits (f x a) (\<lambda>new2 out. case out of
       Return a' \<Rightarrow> a' \<longrightarrow> (\<forall>y \<in> set (ys @ [x]). R (new @ new2) y)
     | Error e \<Rightarrow> \<forall>b. Error e = Return b \<longrightarrow> b \<longrightarrow> (\<forall>x \<in> set xs. R (new @ new2) x)
     | Panicked p \<Rightarrow> \<forall>b. Panicked p = Return b \<longrightarrow> b \<longrightarrow> (\<forall>x \<in> set xs. R (new @ new2) x))"
    by (rule emits_weaken [OF body]) (use step in \<open>auto split: outcome.splits\<close>)
qed simp_all

lemma emits_stopRKE2OnAllMachines:
  "emits (stopRKE2OnAllMachines (recording c) cd sc r) (\<lambda>new out. \<forall>r' res. out = Return (r', res) \<longrightarrow>
     r' = r \<and> res = thirty_seconds \<or>
     r' = set_phase ETCDSnapshotPhaseShutdown r \<and> res = no_requeue \<and>
       (\<forall>m \<in> set (sc_machines sc). reported new m (plan_bytes kill_instructions)))"
  unfolding stopRKE2OnAllMachines_def
  apply (rule emits_bind_err [OF emits_for_range_flag
        [where R = "\<lambda>es m. reported es m (plan_bytes kill_instructions)"]])
  subgoal by (simp add: stop_machine_drive emits_drive_plan)
  subgoal by (rule reported_mono)
  subgoal by (rule emits_if) (auto intro!: emits_ret)
  by simp_all

text \<open>
  On the init machine the plan is checked against the secret the update left: the one
  that was fetched, or the server's answer to the patch of it.
\<close>

definition answered :: "event list \<Rightarrow> machine \<Rightarrow> bytes \<Rightarrow> bool" where
  "answered es m plan \<longleftrightarrow> reported es m plan \<or>
     (\<exists>s b m' s'. fetched es m s \<and> EvPatchSecret b m' (Inr s') \<in> set es \<and> sec_meta b = sec_meta s
        \<and> secret_data s' ''applied-checksum'' = plan_checksum plan)"

lemma answered_mono: "answered es m plan \<Longrightarrow> set es \<subseteq> set es' \<Longrightarrow> answered es' m plan"
  unfolding answered_def by (meson fetched_mono reported_mono subsetD)

lemma ensure_data_simps [simp]:
  "secret_data (ensure_data s) k = secret_data s k" "sec_meta (ensure_data s) = sec_meta s"
  "sec_Data (ensure_data s) \<noteq> None"
  by (cases "sec_Data s"; simp add: ensure_data_def secret_data_def)+

lemma answered_update:
  assumes "fetched new1 m s" and "secret_data s' ''applied-checksum'' = plan_checksum plan"
    and "sec_meta base = sec_meta s" and "secret_data base ''applied-checksum'' = secret_data s ''applied-checksum''"
    and "new2 = [] \<and> s' = base \<and> secret_data base ''plan'' = plan \<or>
      (\<exists>d. sec_Data base = Some d \<and>
        new2 = [EvPatchSecret base (base\<lparr>sec_Data := Some (map_assign ''plan'' plan d)\<rparr>) (Inr s')])"
  shows "answered (new1 @ new2) m plan"
  using assms(5)
proof
  assume "new2 = [] \<and> s' = base \<and> secret_data base ''plan'' = plan"
  with assms show ?thesis by (auto simp: answered_def reported_def)
next
  assume "\<exists>d. sec_Data base = Some d \<and>
      new2 = [EvPatchSecret base (base\<lparr>sec_Data := Some (map_assign ''plan'' plan d)\<rparr>) (Inr s')]"
  then obtain d where new2: "new2 = [EvPatchSecret base (base\<lparr>sec_Data := Some (map_assign ''plan'' plan d)\<rparr>) (Inr s')]"
    by blast
  have "fetched (new1 @ new2) m s" by (rule fetched_mono [OF assms(1)]) simp
  with assms(2,3) new2 show ?thesis unfolding answered_def by fastforce
qed

lemma emits_restoreSnaphotOnInitMachine:
  "emits (restoreSnaphotOnInitMachine (recording c) cd sc r) (\<lambda>new out. \<forall>r' res. out = Return (r', res) \<longrightarrow>
     r' = r \<and> res = thirty_seconds \<or>
     r' = set_phase ETCDSnapshotPhaseRestore r \<and> res = no_requeue \<and>
       (\<exists>im. sc_initMachine sc = Some im \<and>
         answered new im (plan_bytes (restore_instructions (sc_etcdmachinebackup sc)))))"
proof (cases "sc_initMachine sc")
  case None
  then show ?thesis
    by (auto simp: restoreSnaphotOnInitMachine_def intro: emits_fail)
next
  case (Some im)
  show ?thesis
    unfolding restoreSnaphotOnInitMachine_def instructionsAsJson_ok of_result_simps bind_err_ret Some option.case
    apply (rule emits_if)
    subgoal by (rule emits_fail) simp
    apply (rule emits_bind_err [OF emits_getPlanSecret])
    subgoal for s new1
      apply (rule emits_bind_err [OF emits_updatePlanSecret])
      subgoal premises prems for s' new2
      proof (rule emits_if)
        show "emits (ret (r, thirty_seconds)) (\<lambda>new3 out. \<forall>r' res. out = Return (r', res) \<longrightarrow>
            r' = r \<and> res = thirty_seconds \<or> P (new1 @ new2 @ new3) r' res)" for P
          by (rule emits_ret) simp
        assume "\<not> \<not> isPlanApplied (plan_bytes (restore_instructions (sc_etcdmachinebackup sc)))
            (secret_data s' ''applied-checksum'')"
        then have ans: "answered (new1 @ new2) im (plan_bytes (restore_instructions (sc_etcdmachinebackup sc)))"
          using prems by (intro answered_update [where base = "ensure_data s" and s = s]) (simp_all add: isPlanApplied_iff)
        show "emits (bind_err (of_result (decompressPlanOutput cd s')) (Wrapf ''failed to decompress plan output: '')
              (\<lambda>_. ret (set_phase ETCDSnapshotPhaseRestore r, no_requeue)))
            (\<lambda>new3 out. \<forall>r' res. out = Return (r', res) \<longrightarrow> r' = r \<and> res = thirty_seconds \<or>
              r' = set_phase ETCDSnapshotPhaseRestore r \<and> res = no_requeue \<and>
              (\<exists>ima. Some im = Some ima \<and> answered (new1 @ new2 @ new3) ima
                (plan_bytes (restore_instructions (sc_etcdmachinebackup sc)))))"
          apply (rule emits_bind_err [OF emits_decompress])
          subgoal by (rule emits_ret) (use ans in auto)
          by simp_all
      qed
      by simp_all
    by simp_all
qed

section \<open>Which plans a phase writes\<close>

text \<open>A read, or a patch that puts one of the given plans into a plan secret.\<close>

fun writes_only :: "bytes set \<Rightarrow> event \<Rightarrow> bool" where
  "writes_only ps (EvPatchSecret b m r) \<longleftrightarrow> secret_data m ''plan'' \<in> ps"
| "writes_only ps e \<longleftrightarrow> \<not> is_write e"

lemma writes_only_mono: "writes_only ps e \<Longrightarrow> ps \<subseteq> qs \<Longrightarrow> writes_only qs e"
  by (cases e) auto

lemma secret_data_assign [simp]:
  "secret_data (s\<lparr>sec_Data := Some (map_assign k v d)\<rparr>) k = v"
  by (simp add: secret_data_def)

lemma writes_updatePlanSecret:
  "emits_all (writes_only {data}) (updatePlanSecretWithPlan (recording c) m s data)"
  by (rule emits_all_updatePlanSecret) simp

lemma writes_getPlanSecret: "emits_all (writes_only ps) (getPlanSecretForMachine (recording c) m)"
  by (rule emits_all_getPlanSecret) simp_all

lemma writes_drive_plan: "emits_all (writes_only {plan}) (drive_plan (recording c) cd named m plan ready)"
  unfolding drive_plan_def
  by (intro emits_all_rules writes_getPlanSecret writes_updatePlanSecret)

lemma writes_stopRKE2OnAllMachines:
  "emits_all (writes_only {plan_bytes kill_instructions}) (stopRKE2OnAllMachines (recording c) cd sc r)"
  unfolding stopRKE2OnAllMachines_def stop_machine_drive
  by (intro emits_all_rules writes_drive_plan)

lemma writes_restoreSnaphotOnInitMachine:
  "emits_all (writes_only {plan_bytes (restore_instructions (sc_etcdmachinebackup sc))})
     (restoreSnaphotOnInitMachine (recording c) cd sc r)"
  unfolding restoreSnaphotOnInitMachine_def instructionsAsJson_ok of_result_simps bind_err_ret
  by (cases "sc_initMachine sc")
    (auto intro!: emits_all_rules writes_getPlanSecret writes_updatePlanSecret)

lemma writes_start_machine:
  "emits_all (writes_only {plan_bytes (join_instructions ip)}) (start_machine (recording c) cd im ip m ready)"
  unfolding start_machine_drive by (intro emits_all_rules writes_drive_plan)

text \<open>
  Starting up: nothing but the start plan of the init machine is written before that
  machine is seen to have applied it, and only the plans that join it are written after.
\<close>

definition started_first :: "machine \<Rightarrow> event list \<Rightarrow> bool" where
  "started_first im es \<longleftrightarrow> (\<exists>pre post. es = pre @ post
     \<and> list_all (writes_only {plan_bytes start_instructions}) pre
     \<and> (post = [] \<or> answered pre im (plan_bytes start_instructions))
     \<and> list_all (writes_only {plan_bytes (join_instructions (getInternalMachineIP im))}) post)"

lemma started_firstI1: "list_all (writes_only {plan_bytes start_instructions}) es \<Longrightarrow> started_first im es"
  unfolding started_first_def by (intro exI [of _ es] exI [of _ "[]"]) simp

lemma started_firstI2:
  "list_all (writes_only {plan_bytes start_instructions}) pre \<Longrightarrow>
   answered pre im (plan_bytes start_instructions) \<Longrightarrow>
   list_all (writes_only {plan_bytes (join_instructions (getInternalMachineIP im))}) post \<Longrightarrow>
   started_first im (pre @ post)"
  unfolding started_first_def by blast

lemma emits_getPlanSecret_writes:
  "emits (getPlanSecretForMachine (recording c) m)
     (\<lambda>new out. (\<forall>s. out = Return s \<longrightarrow> fetched new m s) \<and> list_all (writes_only ps) new)"
  using writes_getPlanSecret unfolding emits_all_def by (rule emits_conj [OF emits_getPlanSecret])

text \<open>Writing a plan and finding it applied in what the update left is an answer for it.\<close>

lemma emits_updatePlanSecret_answered:
  assumes "fetched new1 m s" and "sec_meta base = sec_meta s"
    and "secret_data base ''applied-checksum'' = secret_data s ''applied-checksum''"
  shows "emits (updatePlanSecretWithPlan (recording c) named base plan) (\<lambda>new2 out.
     list_all (writes_only {plan}) new2 \<and>
     (\<forall>s'. out = Return s' \<longrightarrow> isPlanApplied plan (secret_data s' ''applied-checksum'') \<longrightarrow>
       answered (new1 @ new2) m plan))"
proof -
  have "emits (updatePlanSecretWithPlan (recording c) named base plan) (\<lambda>new2 out.
     \<forall>s'. out = Return s' \<longrightarrow> isPlanApplied plan (secret_data s' ''applied-checksum'') \<longrightarrow>
       answered (new1 @ new2) m plan)"
    by (rule emits_weaken [OF emits_updatePlanSecret])
      (auto simp: isPlanApplied_iff intro!: answered_update [OF assms(1) _ assms(2,3)])
  with writes_updatePlanSecret show ?thesis
    unfolding emits_all_def by (rule emits_conj)
qed

lemma emits_start_loop:
  "emits (for_range (start_machine (recording c) cd im ip) ms True) (\<lambda>new out.
     list_all (writes_only {plan_bytes (join_instructions ip)}) new \<and>
     (\<forall>b. out = Return b \<longrightarrow> b \<longrightarrow>
       (\<forall>m \<in> set ms. mc_Name m \<noteq> mc_Name im \<longrightarrow> reported new m (plan_bytes (join_instructions ip)))))"
proof (rule emits_conj)
  show "emits (for_range (start_machine (recording c) cd im ip) ms True)
      (\<lambda>new out. list_all (writes_only {plan_bytes (join_instructions ip)}) new)"
    using emits_all_for_range [OF writes_start_machine] unfolding emits_all_def .
  show "emits (for_range (start_machine (recording c) cd im ip) ms True) (\<lambda>new out. \<forall>b. out = Return b \<longrightarrow> b \<longrightarrow>
      (\<forall>m \<in> set ms. mc_Name m \<noteq> mc_Name im \<longrightarrow> reported new m (plan_bytes (join_instructions ip))))"
  proof (rule emits_for_range_flag)
    fix m ready
    show "emits (start_machine (recording c) cd im ip m ready) (\<lambda>new out. \<forall>b. out = Return b \<longrightarrow> b \<longrightarrow>
        ready \<and> (mc_Name m \<noteq> mc_Name im \<longrightarrow> reported new m (plan_bytes (join_instructions ip))))"
      unfolding start_machine_drive
      by (rule emits_if) (auto intro: emits_ret emits_weaken [OF emits_drive_plan])
  qed (blast intro: reported_mono)
qed

lemma emits_startRKE2OnAllMachines:
  assumes im: "sc_initMachine sc = Some im"
  shows "emits (startRKE2OnAllMachines (recording c) cd sc r) (\<lambda>new out. started_first im new \<and>
     (\<forall>r' res. out = Return (r', res) \<longrightarrow>
       r' = r \<and> res = thirty_seconds \<or>
       r' = set_phase ETCDSnapshotPhaseFinished r \<and> res = no_requeue \<and>
         answered new im (plan_bytes start_instructions) \<and>
         (\<forall>m \<in> set (sc_machines sc). mc_Name m \<noteq> mc_Name im \<longrightarrow>
           reported new m (plan_bytes (join_instructions (getInternalMachineIP im))))))"
  unfolding startRKE2OnAllMachines_def instructionsAsJson_ok of_result_simps bind_err_ret im deref_Some
  apply (rule emits_if)
  subgoal by (rule emits_fail) (simp add: started_firstI1)
  apply (rule emits_bind_err [OF emits_getPlanSecret_writes [where ps = "{plan_bytes start_instructions}"]])
  subgoal for s new1
    apply (rule emits_bind_err [OF emits_updatePlanSecret_answered [where ?new1.0 = new1 and m = im and s = s]])
    subgoal by simp
    subgoal by simp
    subgoal by simp
    subgoal premises prems for s' new2
    proof (rule emits_if)
      have pre: "list_all (writes_only {plan_bytes start_instructions}) (new1 @ new2)" using prems by simp
      show "emits (ret (r, thirty_seconds)) (\<lambda>new3 out. started_first im (new1 @ new2 @ new3) \<and>
          (\<forall>r' res. out = Return (r', res) \<longrightarrow> r' = r \<and> res = thirty_seconds \<or> P new3 r' res))" for P
        by (rule emits_ret) (use pre in \<open>simp add: started_firstI1\<close>)
      assume "\<not> \<not> isPlanApplied (plan_bytes start_instructions) (secret_data s' ''applied-checksum'')"
      with prems have ans: "answered (new1 @ new2) im (plan_bytes start_instructions)" by auto
      note first = started_firstI1 [OF pre] started_firstI2 [OF pre ans]
      show "emits (bind_err (of_result (decompressPlanOutput cd s')) (Wrapf ''failed to decompress plan output: '') (\<lambda>_.
          bind_go (for_range (start_machine (recording c) cd im (getInternalMachineIP im)) (sc_machines sc) True)
            (\<lambda>all. if all then ret (set_phase ETCDSnapshotPhaseFinished r, no_requeue) else ret (r, thirty_seconds))))
        (\<lambda>new3 out. started_first im (new1 @ new2 @ new3) \<and> (\<forall>r' res. out = Return (r', res) \<longrightarrow>
          r' = r \<and> res = thirty_seconds \<or>
          r' = set_phase ETCDSnapshotPhaseFinished r \<and> res = no_requeue \<and>
            answered (new1 @ new2 @ new3) im (plan_bytes start_instructions) \<and>
            (\<forall>m \<in> set (sc_machines sc). mc_Name m \<noteq> mc_Name im \<longrightarrow>
              reported (new1 @ new2 @ new3) m (plan_bytes (join_instructions (getInternalMachineIP im))))))"
        apply (rule emits_bind_err [OF emits_decompress])
        subgoal
          apply (rule emits_bind_err [OF emits_start_loop])
          subgoal for ready new4
            by (cases ready) (use first ans in \<open>auto 0 4 intro!: emits_ret
                intro: reported_mono [where es = new4] answered_mono [where es = "new1 @ new2"]\<close>)
          using first by simp_all
        using first by simp_all
    qed
    by (auto intro: started_firstI1)
  by (auto intro: started_firstI1)

end
