(* ===== verification/Restore_Errors.thy ===== *)
theory Restore_Errors
  imports Restore_Safety
begin

text \<open>
  Which errors a reconciliation of a restore returns, read off its calls: the error of the
  call that failed, or, when none did, the reconciler's own complaint about what it read.
  \<open>causes\<close> computes them from the restore and the calls alone; the handlers are proved to
  return exactly what it lists.
\<close>

section \<open>The errors the calls account for\<close>

fun answer_error :: "api_error + 'a \<Rightarrow> go_error list" where
  "answer_error (Inl e) = [ApiError e]"
| "answer_error (Inr a) = []"

fun call_error :: "event \<Rightarrow> go_error list" where
  "call_error (EvGetETCDSnapshotRestore k r) = answer_error r"
| "call_error (EvGetEtcdMachineBackup k r) = answer_error r"
| "call_error (EvGetCluster k r) = answer_error r"
| "call_error (EvGetRKE2Config k r) = answer_error r"
| "call_error (EvGetSecret k r) = answer_error r"
| "call_error (EvGetUnstructured g k r) = answer_error r"
| "call_error (EvListMachine os r) = answer_error r"
| "call_error (EvListSecret os r) = answer_error r"
| "call_error (EvCreate x r) = answer_error r"
| "call_error (EvPatchCluster b m r) = answer_error r"
| "call_error (EvPatchSecret b m r) = answer_error r"
| "call_error (EvPatchETCDSnapshotRestore b m r) = answer_error r"
| "call_error (EvPatchETCDSnapshotRestoreStatus b m r) = answer_error r"

definition call_errors :: "event list \<Rightarrow> go_error list" where
  "call_errors es = concat (map call_error es)"

text \<open>A plan secret that reports the plan as applied, with an output that cannot be read.\<close>

definition unreadable_output :: "codec \<Rightarrow> bytes \<Rightarrow> secret \<Rightarrow> go_error list" where
  "unreadable_output cd plan s =
     (if secret_data s ''applied-checksum'' = plan_checksum plan
      then (case decompressPlanOutput cd s of Inl e \<Rightarrow> [root_cause e] | Inr m \<Rightarrow> [])
      else [])"

text \<open>
  The secrets a machine loop decides on: of those it reads for a machine, the second, after
  it has written the plan.
\<close>

fun secret_of :: "event \<Rightarrow> secret list" where
  "secret_of (EvGetSecret k (Inr s)) = [s]"
| "secret_of _ = []"

definition secrets_read :: "event list \<Rightarrow> secret list" where
  "secrets_read es = concat (map secret_of es)"

fun every_second :: "'a list \<Rightarrow> 'a list" where
  "every_second (x # y # zs) = y # every_second zs"
| "every_second _ = []"

definition loop_complaints :: "codec \<Rightarrow> bytes \<Rightarrow> secret list \<Rightarrow> go_error list" where
  "loop_complaints cd plan ss = concat (map (unreadable_output cd plan) (every_second ss))"

text \<open>
  The secret decided on for the init machine: the one that was read, or the server's answer
  where the plan had to be written to it.
\<close>

fun patch_answer :: "event \<Rightarrow> secret list option" where
  "patch_answer (EvPatchSecret b m (Inr s)) = Some [s]"
| "patch_answer (EvPatchSecret b m (Inl e)) = Some []"
| "patch_answer _ = None"

fun init_secret :: "event list \<Rightarrow> secret list" where
  "init_secret (c # g # p # es) = (case patch_answer p of Some ss \<Rightarrow> ss | None \<Rightarrow> secret_of g)"
| "init_secret [c, g] = secret_of g"
| "init_secret _ = []"

text \<open>The machines and the backup that were read, and the calls after the pause of the cluster.\<close>

fun machines_of :: "event \<Rightarrow> machine list option" where
  "machines_of (EvListMachine os (Inr ms)) = Some ms"
| "machines_of _ = None"

fun backup_of :: "event \<Rightarrow> EtcdMachineBackup option" where
  "backup_of (EvGetEtcdMachineBackup k (Inr b)) = Some b"
| "backup_of _ = None"

fun phase_calls :: "event list \<Rightarrow> (machine list \<times> EtcdMachineBackup \<times> event list) option" where
  "phase_calls (c # l # b # p # es) = (case (machines_of l, backup_of b, call_error p) of
     (Some ms, Some bk, []) \<Rightarrow> Some (ms, bk, es) | _ \<Rightarrow> None)"
| "phase_calls _ = None"

definition phase_complaints ::
  "codec \<Rightarrow> ETCDSnapshotPhase \<Rightarrow> machine list \<Rightarrow> EtcdMachineBackup \<Rightarrow> event list \<Rightarrow> go_error list" where
  "phase_complaints cd ph ms b es =
     (if ph = ETCDSnapshotPhaseStarted then
        loop_complaints cd (plan_bytes kill_instructions) (secrets_read es)
      else if ph = ETCDSnapshotPhaseShutdown then
        (if mbs_Location (mb_Spec b) = [] then [Errorf ''etcdMachineBackup location must be set'']
         else concat (map (unreadable_output cd (plan_bytes (restore_instructions b))) (init_secret es)))
      else if ph = ETCDSnapshotPhaseRestore then
        (let ip = getInternalMachineIP (the (find_init_machine ms (mbs_MachineName (mb_Spec b)))) in
         if ip = [] then [Errorf ''failed to get internal machine IP, field is empty'']
         else concat (map (unreadable_output cd (plan_bytes start_instructions)) (init_secret es)) @
           loop_complaints cd (plan_bytes (join_instructions ip)) (tl (secrets_read es)))
      else [])"

definition causes :: "codec \<Rightarrow> ETCDSnapshotRestore \<Rightarrow> event list \<Rightarrow> go_error list" where
  "causes cd r es =
     (if srs_ClusterName (sr_Spec r) = [] \<or> srs_EtcdMachineBackupName (sr_Spec r) = []
      then [Errorf ''clusterName and etcdMachineBackupName must be set''] else []) @
     (case phase_calls es of None \<Rightarrow> [] | Some (ms, b, es') \<Rightarrow> phase_complaints cd (sr_Phase r) ms b es') @
     call_errors es"

section \<open>Computations that return what their calls account for\<close>

definition accounted :: "(event list \<Rightarrow> go_error list) \<Rightarrow> event list \<Rightarrow> 'a outcome \<Rightarrow> bool" where
  "accounted C new out \<longleftrightarrow> (case out of
     Return a \<Rightarrow> C new = [] | Error e \<Rightarrow> C new = [root_cause e] | Panicked p \<Rightarrow> True)"

lemma accounted_simps [simp]:
  "accounted C new (Return a) \<longleftrightarrow> C new = []"
  "accounted C new (Error e) \<longleftrightarrow> C new = [root_cause e]"
  "accounted C new (Panicked p)"
  by (simp_all add: accounted_def)

lemma call_errors_simps [simp]:
  "call_errors [] = []" "call_errors (e # es) = call_error e @ call_errors es"
  "call_errors (es @ fs) = call_errors es @ call_errors fs"
  by (simp_all add: call_errors_def)

lemma secrets_read_simps [simp]:
  "secrets_read [] = []" "secrets_read (e # es) = secret_of e @ secrets_read es"
  "secrets_read (es @ fs) = secrets_read es @ secrets_read fs"
  by (simp_all add: secrets_read_def)

lemma every_second_append: "even (length xs) \<Longrightarrow> every_second (xs @ ys) = every_second xs @ every_second ys"
  by (induction xs rule: every_second.induct) auto

lemma loop_complaints_append:
  "even (length ss) \<Longrightarrow> loop_complaints cd plan (ss @ ss') = loop_complaints cd plan ss @ loop_complaints cd plan ss'"
  by (simp add: loop_complaints_def every_second_append)

lemma loop_complaints_simps [simp]:
  "loop_complaints cd plan [] = []" "loop_complaints cd plan [s] = []"
  "loop_complaints cd plan (s # s' # ss) = unreadable_output cd plan s' @ loop_complaints cd plan ss"
  by (simp_all add: loop_complaints_def)

lemma decompressPlanOutput_ensure [simp]: "decompressPlanOutput cd (ensure_data s) = decompressPlanOutput cd s"
  by (simp add: decompressPlanOutput_def)

lemma unreadable_output_ensure [simp]: "unreadable_output cd plan (ensure_data s) = unreadable_output cd plan s"
  by (simp add: unreadable_output_def)

text \<open>The calls of the two helpers, with their failures.\<close>

lemma emits_answer:
  "emits (call (record_call ev op)) (\<lambda>new out. \<exists>x. new = [ev x] \<and> (case out of
      Return a \<Rightarrow> x = Inr a | Error e \<Rightarrow> \<exists>a. x = Inl a \<and> e = ApiError a | Panicked p \<Rightarrow> False))"
  by (rule emits_call) auto

definition fetch_shape :: "event list \<Rightarrow> secret outcome \<Rightarrow> bool" where
  "fetch_shape new out \<longleftrightarrow> (case out of
     Return s \<Rightarrow> \<exists>k cfg k'. new = [EvGetRKE2Config k (Inr cfg), EvGetSecret k' (Inr s)]
   | Error e \<Rightarrow> \<exists>a. root_cause e = ApiError a \<and> (\<exists>k. new = [EvGetRKE2Config k (Inl a)] \<or>
       (\<exists>cfg k'. new = [EvGetRKE2Config k (Inr cfg), EvGetSecret k' (Inl a)]))
   | Panicked p \<Rightarrow> new = [])"

lemma emits_fetch: "emits (getPlanSecretForMachine (recording c) m) fetch_shape"
  unfolding getPlanSecretForMachine_def recording_simps
  apply (rule emits_bind_err [where P = "\<lambda>new out. new = [] \<and> (\<forall>e. out \<noteq> Error e)"])
  subgoal by (rule emits_deref) simp_all
  subgoal for ref new1
    apply (rule emits_bind_err [OF emits_answer])
    subgoal for cfg new2
      apply (rule emits_bind_err [OF emits_answer])
      subgoal by (rule emits_ret) (auto simp: fetch_shape_def)
      by (auto simp: fetch_shape_def)
    by (auto simp: fetch_shape_def)
  by (auto simp: fetch_shape_def)

definition update_shape :: "secret \<Rightarrow> event list \<Rightarrow> secret outcome \<Rightarrow> bool" where
  "update_shape s new out \<longleftrightarrow> (case out of
     Return s' \<Rightarrow> new = [] \<and> s' = s \<or> (\<exists>b m. new = [EvPatchSecret b m (Inr s')])
   | Error e \<Rightarrow> \<exists>a b m. root_cause e = ApiError a \<and> new = [EvPatchSecret b m (Inl a)]
   | Panicked p \<Rightarrow> new = [])"

lemma emits_update: "emits (updatePlanSecretWithPlan (recording c) named s plan) (update_shape s)"
proof -
  have patch: "emits (bind_err (call (record_call (EvPatchSecret b m) op)) (Wrapf ''failed to patch plan secret: '') ret)
      (update_shape s)" for b m and op :: "('w, secret) api"
    by (rule emits_bind_err [OF emits_answer])
      (auto simp: update_shape_def intro!: emits_ret)
  show ?thesis
    unfolding updatePlanSecretWithPlan_def recording_simps
    by (cases "sec_Data s"; cases named)
      (auto simp: patch intro!: emits_if emits_ret emits_panicking, auto simp: update_shape_def)
qed

section \<open>The machine loops\<close>

definition loop_causes :: "codec \<Rightarrow> bytes \<Rightarrow> event list \<Rightarrow> go_error list" where
  "loop_causes cd plan es = loop_complaints cd plan (secrets_read es) @ call_errors es"

text \<open>
  A whole iteration reads two secrets, so that the complaints of a loop are those of its
  iterations; it never starts with a patch.
\<close>

definition iterated :: "codec \<Rightarrow> bytes \<Rightarrow> event list \<Rightarrow> 'a outcome \<Rightarrow> bool" where
  "iterated cd plan new out \<longleftrightarrow> accounted (loop_causes cd plan) new out \<and>
     (\<forall>a. out = Return a \<longrightarrow> even (length (secrets_read new))) \<and>
     (case new of [] \<Rightarrow> True | e # es \<Rightarrow> patch_answer e = None)"

lemma iterated_append:
  assumes "loop_causes cd plan new1 = []" "even (length (secrets_read new1))"
    "case new1 of [] \<Rightarrow> True | e # es \<Rightarrow> patch_answer e = None" and "iterated cd plan new2 out"
  shows "iterated cd plan (new1 @ new2) out"
proof -
  have "loop_causes cd plan (new1 @ new2) = loop_causes cd plan new2"
    using assms(1,2) by (simp add: loop_causes_def loop_complaints_append)
  then have "accounted (loop_causes cd plan) (new1 @ new2) out = accounted (loop_causes cd plan) new2 out"
    by (cases out) simp_all
  with assms(2-4) show ?thesis unfolding iterated_def by (cases new1) simp_all
qed

lemma iterated_ret: "iterated cd plan [] (Return a)"
  by (simp add: iterated_def loop_causes_def)

lemma emits_drive_plan_iterated:
  "emits (drive_plan (recording c) cd named m plan ready) (iterated cd plan)"
  unfolding drive_plan_def
  apply (rule emits_bind_err [OF emits_fetch])
  subgoal for s new1
    apply (rule emits_bind_err [OF emits_update])
    subgoal for s1 new2
      apply (rule emits_bind_err [OF emits_fetch])
      subgoal for s2 new3
        apply (rule emits_if)
        subgoal by (rule emits_ret)
          (auto simp: fetch_shape_def update_shape_def iterated_def loop_causes_def unreadable_output_def isPlanApplied_iff)
        apply (rule emits_bind_err [OF emits_of_result [where Q = "\<lambda>new out. new = [] \<and>
            (case out of Return x \<Rightarrow> decompressPlanOutput cd s2 = Inr x | Error e \<Rightarrow> decompressPlanOutput cd s2 = Inl e
             | Panicked p \<Rightarrow> False)"]])
        subgoal by simp
        subgoal by simp
        subgoal by (rule emits_ret)
          (auto simp: fetch_shape_def update_shape_def iterated_def loop_causes_def unreadable_output_def isPlanApplied_iff)
        by (auto simp: fetch_shape_def update_shape_def iterated_def loop_causes_def unreadable_output_def isPlanApplied_iff)
      by (auto simp: fetch_shape_def update_shape_def iterated_def loop_causes_def)
    by (auto simp: fetch_shape_def update_shape_def iterated_def loop_causes_def)
  by (auto simp: fetch_shape_def iterated_def loop_causes_def)

lemma emits_loop_iterated:
  assumes "\<And>x a. emits (f x a) (iterated cd plan)"
  shows "emits (for_range f xs acc) (iterated cd plan)"
proof (induction xs arbitrary: acc)
  case Nil
  then show ?case by (simp add: emits_ret iterated_ret)
next
  case (Cons x xs)
  have "emits (bind_go (f x acc) (for_range f xs)) (iterated cd plan)"
    by (rule emits_bind_err [OF assms])
      (auto intro!: emits_weaken [OF Cons.IH] iterated_append simp: iterated_def)
  then show ?case by simp
qed

lemma emits_stop_accounted:
  "emits (stopRKE2OnAllMachines (recording c) cd sc r) (accounted (loop_causes cd (plan_bytes kill_instructions)))"
  unfolding stopRKE2OnAllMachines_def stop_machine_drive
  by (rule emits_bind_err [OF emits_loop_iterated [OF emits_drive_plan_iterated]])
    (auto simp: iterated_def intro!: emits_ret)

section \<open>The init machine\<close>

text \<open>
  Writing a plan to the init machine and looking whether it is applied: what is decided on
  is the secret the calls so far name.
\<close>

definition decided :: "event list \<Rightarrow> secret outcome \<Rightarrow> bool" where
  "decided es out \<longleftrightarrow> (case out of
     Return s \<Rightarrow> call_errors es = [] \<and> length (secrets_read es) = 1 \<and>
       (\<forall>es'. (case es' of [] \<Rightarrow> True | e # _ \<Rightarrow> patch_answer e = None) \<longrightarrow>
         (\<exists>s'. init_secret (es @ es') = [s'] \<and> (\<forall>cd plan. unreadable_output cd plan s' = unreadable_output cd plan s)))
   | Error e \<Rightarrow> call_errors es = [root_cause e] \<and> length (secrets_read es) \<le> 1 \<and> init_secret es = []
   | Panicked p \<Rightarrow> True)"

lemma decided_fetch: "fetch_shape es (Error e) \<Longrightarrow> decided es (Error (Wrapf w e))"
  by (auto simp: fetch_shape_def decided_def)

lemma decided_update:
  assumes "fetch_shape es1 (Return s)" and "update_shape base es2 out" and "\<And>cd plan. unreadable_output cd plan base = unreadable_output cd plan s"
  shows "decided (es1 @ es2) (case out of Return a \<Rightarrow> Return a | Error e \<Rightarrow> Error (Wrapf w e) | Panicked p \<Rightarrow> Panicked p)"
proof (cases out)
  case (Return s')
  from assms(1) obtain k cfg k' where es1: "es1 = [EvGetRKE2Config k (Inr cfg), EvGetSecret k' (Inr s)]"
    by (auto simp: fetch_shape_def)
  from assms(2) Return consider "es2 = []" "s' = base" | b m where "es2 = [EvPatchSecret b m (Inr s')]"
    by (auto simp: update_shape_def)
  then show ?thesis
  proof cases
    case 1
    with es1 Return assms(3) show ?thesis by (auto simp: decided_def split: list.split)
  next
    case 2
    with es1 Return show ?thesis by (auto simp: decided_def)
  qed
qed (use assms(1,2) in \<open>auto simp: fetch_shape_def update_shape_def decided_def\<close>)

lemmas decided_update_Error = decided_update [where out = "Error _", unfolded outcome.case]

lemma decided_ErrorD:
  assumes "decided es (Error e)"
  shows "call_errors es = [root_cause e]" "init_secret es = []" "tl (secrets_read es) = []"
  using assms by (cases "secrets_read es"; simp add: decided_def)+

text \<open>What follows the decision: another computation, when the output can be read.\<close>

lemma emits_read_output:
  assumes es: "decided es (Return s)"
    and C: "\<And>es'. (case es' of [] \<Rightarrow> True | e # _ \<Rightarrow> patch_answer e = None) \<Longrightarrow>
      C (es @ es') = concat (map (unreadable_output cd plan) (init_secret (es @ es'))) @ D es'"
    and D: "D [] = []"
    and k: "emits k (\<lambda>new out. accounted D new out \<and> (case new of [] \<Rightarrow> True | e # _ \<Rightarrow> patch_answer e = None))"
    and wait: "emits stop (\<lambda>new out. new = [] \<and> (\<exists>a. out = Return a))"
  shows "emits (if \<not> isPlanApplied plan (secret_data s ''applied-checksum'') then stop
      else bind_err (of_result (decompressPlanOutput cd s)) (Wrapf w) (\<lambda>_. k))
    (\<lambda>new. accounted C (es @ new))"
proof -
  have *: "C (es @ es') = unreadable_output cd plan s @ D es'"
    if "case es' of [] \<Rightarrow> True | e # _ \<Rightarrow> patch_answer e = None" for es'
    using es C [OF that] that unfolding decided_def by fastforce
  show ?thesis
  proof (rule emits_if)
    assume "\<not> isPlanApplied plan (secret_data s ''applied-checksum'')"
    with * [of "[]"] D have "C es = []" by (simp add: unreadable_output_def isPlanApplied_iff)
    then show "emits stop (\<lambda>new. accounted C (es @ new))" by (auto intro: emits_weaken [OF wait])
  next
    assume app: "\<not> \<not> isPlanApplied plan (secret_data s ''applied-checksum'')"
    show "emits (bind_err (of_result (decompressPlanOutput cd s)) (Wrapf w) (\<lambda>_. k)) (\<lambda>new. accounted C (es @ new))"
    proof (cases "decompressPlanOutput cd s")
      case (Inl e)
      with app * [of "[]"] D show ?thesis by (auto simp: unreadable_output_def isPlanApplied_iff intro!: emits_fail)
    next
      case (Inr m)
      with app * have "C (es @ es') = D es'" if "case es' of [] \<Rightarrow> True | e # _ \<Rightarrow> patch_answer e = None" for es'
        using that by (simp add: unreadable_output_def)
      with Inr show ?thesis by (auto simp: accounted_def intro!: emits_weaken [OF k] split: outcome.splits)
    qed
  qed
qed

section \<open>The phases\<close>

definition init_causes :: "codec \<Rightarrow> bytes \<Rightarrow> event list \<Rightarrow> go_error list" where
  "init_causes cd plan es = concat (map (unreadable_output cd plan) (init_secret es))"

lemma emits_restore_accounted:
  assumes "sc_initMachine sc \<noteq> None"
  shows "emits (restoreSnaphotOnInitMachine (recording c) cd sc r)
    (accounted (\<lambda>es. (if mbs_Location (mb_Spec (sc_etcdmachinebackup sc)) = []
         then [Errorf ''etcdMachineBackup location must be set'']
         else init_causes cd (plan_bytes (restore_instructions (sc_etcdmachinebackup sc))) es) @ call_errors es))"
proof -
  from assms obtain im where im: "sc_initMachine sc = Some im" by blast
  show ?thesis
    unfolding restoreSnaphotOnInitMachine_def instructionsAsJson_ok of_result_simps bind_err_ret im option.case
    apply (rule emits_if)
    subgoal by (rule emits_fail) simp
    apply (rule emits_bind_err [OF emits_fetch])
    subgoal for s new1
      apply (rule emits_bind_err [OF emits_update])
      subgoal for s' new2
        using decided_update [of new1 s "ensure_data s" new2 "Return s'"]
        by (simp only: append_assoc [symmetric] outcome.case unreadable_output_ensure)
          (rule emits_read_output [where D = call_errors],
           auto simp: init_causes_def decided_def intro!: emits_ret)
      using decided_update [of new1 s "ensure_data s" _ "Error _"] by (auto simp: decided_def init_causes_def)
    by (auto dest!: decided_fetch simp: decided_def init_causes_def)
qed

lemma emits_start_accounted:
  assumes im: "sc_initMachine sc = Some im"
  shows "emits (startRKE2OnAllMachines (recording c) cd sc r)
    (accounted (\<lambda>es. (if getInternalMachineIP im = []
         then [Errorf ''failed to get internal machine IP, field is empty'']
         else init_causes cd (plan_bytes start_instructions) es @
           loop_complaints cd (plan_bytes (join_instructions (getInternalMachineIP im))) (tl (secrets_read es))) @ call_errors es))"
  unfolding startRKE2OnAllMachines_def instructionsAsJson_ok of_result_simps bind_err_ret im deref_Some
  apply (rule emits_if)
  subgoal by (rule emits_fail) simp
  apply (rule emits_bind_err [OF emits_fetch])
  subgoal for s new1
    apply (rule emits_bind_err [OF emits_update])
    subgoal for s' new2
      using decided_update [of new1 s s new2 "Return s'"]
      apply (simp only: append_assoc [symmetric] outcome.case)
      apply (rule emits_read_output [where D = "loop_causes cd (plan_bytes (join_instructions (getInternalMachineIP im)))"])
      subgoal by simp
      subgoal by (auto simp: init_causes_def decided_def loop_causes_def add_is_1 length_Suc_conv)
      subgoal by (simp add: loop_causes_def)
      subgoal
        by (rule emits_bind_err [OF emits_loop_iterated [where plan = "plan_bytes (join_instructions (getInternalMachineIP im))"]])
          (auto simp: start_machine_drive iterated_def loop_causes_def intro!: emits_ret emits_if emits_drive_plan_iterated)
      subgoal by (auto intro!: emits_ret)
      done
    subgoal using decided_ErrorD [OF decided_update_Error [of new1 s s, OF _ _ refl]] by (simp add: init_causes_def)
    by (simp add: decided_def)
  subgoal using decided_ErrorD [OF decided_fetch] by (simp add: init_causes_def)
  by simp

section \<open>The whole reconciliation\<close>

lemma find_init_machine_Some: "\<exists>im. find_init_machine ms nm = Some im"
  by (simp add: find_init_machine_def split: option.split)

lemma emits_newScope_accounted:
  "emits (newScope (recording c) r) (\<lambda>new out. case out of
     Return sc \<Rightarrow> srs_ClusterName (sr_Spec r) \<noteq> [] \<and> srs_EtcdMachineBackupName (sr_Spec r) \<noteq> [] \<and>
       sc_initMachine sc = find_init_machine (sc_machines sc) (mbs_MachineName (mb_Spec (sc_etcdmachinebackup sc))) \<and>
       (\<exists>k1 os k2. new = [EvGetCluster k1 (Inr (sc_cluster sc)), EvListMachine os (Inr (sc_machines sc)),
          EvGetEtcdMachineBackup k2 (Inr (sc_etcdmachinebackup sc))])
   | Error e \<Rightarrow> causes cd r new = [root_cause e] | Panicked p \<Rightarrow> False)"
proof -
  show ?thesis
    unfolding newScope_def recording_simps
    apply (rule emits_if)
    subgoal by (rule emits_fail) (simp add: causes_def)
    apply (rule emits_bind_err [OF emits_answer])
    subgoal for cluster new1
      apply (rule emits_bind_err [OF emits_answer])
      subgoal for machines new2
        apply (rule emits_bind_err [OF emits_answer])
        subgoal by (rule emits_ret) auto
        by (auto simp: causes_def)
      by (auto simp: causes_def)
    by (auto simp: causes_def)
qed

lemma accounted_weaken:
  "emits m (accounted C) \<Longrightarrow> (\<And>es. D (pre @ es) = C es) \<Longrightarrow> emits m (\<lambda>new. accounted D (pre @ new))"
  by (erule emits_weaken) (auto simp: accounted_def split: outcome.splits)

lemma emits_reconcile_scope_accounted:
  fixes c :: "'w client"
  shows "emits (reconcile_scope (recording c) cd r) (accounted (causes cd r))"
  unfolding reconcile_scope_def recording_simps
  apply (rule emits_bind_err [OF emits_newScope_accounted [where cd = cd]])
  subgoal for sc new1
    apply (rule emits_if)
    subgoal by (rule emits_ret) (auto simp: causes_def)
    apply (rule emits_bind_err [OF emits_answer])
    subgoal premises prems for cluster new2
    proof -
      from prems obtain k1 os k2 b m where new: "new1 @ new2 = [EvGetCluster k1 (Inr (sc_cluster sc)),
          EvListMachine os (Inr (sc_machines sc)), EvGetEtcdMachineBackup k2 (Inr (sc_etcdmachinebackup sc)),
          EvPatchCluster b m (Inr cluster)]" by auto
      then have C: "causes cd r (new1 @ new2 @ es) =
          phase_complaints cd (sr_Phase r) (sc_machines sc) (sc_etcdmachinebackup sc) es @ call_errors es" for es
        unfolding append_assoc [symmetric] new using prems by (simp add: causes_def)
      obtain im where im: "sc_initMachine sc = Some im"
        and im': "find_init_machine (sc_machines sc) (mbs_MachineName (mb_Spec (sc_etcdmachinebackup sc))) = Some im"
        using prems find_init_machine_Some by fastforce
      let ?sc = "sc\<lparr>sc_cluster := cluster\<rparr>"
      note split = phase_complaints_def im' loop_causes_def init_causes_def Let_def
      have "emits (stopRKE2OnAllMachines (recording c) cd ?sc r) (\<lambda>new. accounted (causes cd r) ((new1 @ new2) @ new))"
        if "sr_Phase r = ETCDSnapshotPhaseStarted"
        by (rule accounted_weaken [OF emits_stop_accounted]) (simp add: C that split)
      moreover have "emits (restoreSnaphotOnInitMachine (recording c) cd ?sc r) (\<lambda>new. accounted (causes cd r) ((new1 @ new2) @ new))"
        if "sr_Phase r = ETCDSnapshotPhaseShutdown"
        by (rule accounted_weaken [OF emits_restore_accounted]) (simp_all add: C that split im)
      moreover have "emits (startRKE2OnAllMachines (recording c) cd ?sc r) (\<lambda>new. accounted (causes cd r) ((new1 @ new2) @ new))"
        if "sr_Phase r = ETCDSnapshotPhaseRestore"
        by (rule accounted_weaken [OF emits_start_accounted [of _ im]]) (simp_all add: C that split im)
      moreover have "emits (bind_err (call (record_call (EvPatchCluster cluster x) op)) (Wrapf e) (\<lambda>_. ret (r, no_requeue)))
          (\<lambda>new. accounted (causes cd r) ((new1 @ new2) @ new))"
        if "sr_Phase r = ETCDSnapshotPhaseFinished" for x e and op :: "('w, cluster) api"
        by (rule emits_bind_err [OF emits_answer])
          (auto simp: C that split intro!: emits_ret)
      moreover have "emits (ret (r, no_requeue) :: (event list \<times> 'w, _) go) (\<lambda>new. accounted (causes cd r) ((new1 @ new2) @ new))"
        if "sr_Phase r \<notin> {ETCDSnapshotPhaseStarted, ETCDSnapshotPhaseShutdown, ETCDSnapshotPhaseRestore}"
        by (rule emits_ret) (use that C [of "[]"] in \<open>simp add: split\<close>)
      ultimately show ?thesis by simp
    qed
    by (auto simp: causes_def)
  by simp_all

text \<open>The result \<^const>\<open>reconcileNormal\<close> gives is the error its calls account for.\<close>

lemma emits_reconcileNormal_accounted:
  assumes "r1 = (if sr_Phase r = [] then set_phase ETCDSnapshotPhaseStarted r else r)"
  shows "emits (reconcileNormal (recording c) cd r) (\<lambda>new out. case out of
    Return (r', result) \<Rightarrow> causes cd r1 new = (case result of Inl e \<Rightarrow> [root_cause e] | Inr res \<Rightarrow> [])
  | Error e \<Rightarrow> False | Panicked p \<Rightarrow> True)"
  unfolding reconcileNormal_def Let_def assms [symmetric]
  by (rule emits_bind_err [OF emits_catch_err [OF emits_reconcile_scope_accounted, where Q = "\<lambda>new out. case out of
      Return d \<Rightarrow> causes cd r1 new = (case d of Inl e \<Rightarrow> [root_cause e] | Inr x \<Rightarrow> [])
    | Error e \<Rightarrow> False | Panicked p \<Rightarrow> True"]])
    (auto intro!: emits_ret split: sum.splits)

end
