(* ===== verification/Restore_Reconcile.thy ===== *)
theory Restore_Reconcile
  imports Restore_Errors
begin

text \<open>
  The restore reconciler as a whole, against any client: the phases form a state machine
  whose transitions are justified by what was read, plans are written only under a paused
  cluster whose machines all run, and nothing else is written.
\<close>

section \<open>The scope\<close>

text \<open>What the trace of \<^const>\<open>newScope\<close> proves about the scope it returns.\<close>

definition scope_read :: "event list \<Rightarrow> ETCDSnapshotRestore \<Rightarrow> scope \<Rightarrow> bool" where
  "scope_read es r sc \<longleftrightarrow> srs_ClusterName (sr_Spec r) \<noteq> [] \<and> srs_EtcdMachineBackupName (sr_Spec r) \<noteq> [] \<and>
     EvGetCluster (key (om_Namespace (sr_meta r)) (srs_ClusterName (sr_Spec r))) (Inr (sc_cluster sc)) \<in> set es \<and>
     EvListMachine [InNamespace (om_Namespace (cl_meta (sc_cluster sc))),
         MatchingLabels [(ClusterNameLabel, om_Name (cl_meta (sc_cluster sc)))]] (Inr (sc_machines sc)) \<in> set es \<and>
     EvGetEtcdMachineBackup (key (om_Namespace (sr_meta r)) (srs_EtcdMachineBackupName (sr_Spec r)))
         (Inr (sc_etcdmachinebackup sc)) \<in> set es \<and>
     sc_initMachine sc = find_init_machine (sc_machines sc) (mbs_MachineName (mb_Spec (sc_etcdmachinebackup sc)))"

lemma scope_read_mono: "scope_read es r sc \<Longrightarrow> set es \<subseteq> set es' \<Longrightarrow> scope_read es' r sc"
  unfolding scope_read_def by blast

lemma emits_newScope:
  "emits (newScope (recording c) r) (\<lambda>new out. \<forall>sc. out = Return sc \<longrightarrow> scope_read new r sc \<and>
     (\<exists>k1 os k2. new = [EvGetCluster k1 (Inr (sc_cluster sc)), EvListMachine os (Inr (sc_machines sc)),
        EvGetEtcdMachineBackup k2 (Inr (sc_etcdmachinebackup sc))]))"
  unfolding newScope_def recording_simps
  apply (rule emits_if)
  subgoal by (rule emits_fail) simp
  apply (rule emits_bind_err [OF emits_read])
  subgoal for cluster new1
    apply (rule emits_bind_err [OF emits_read])
    subgoal for machines new2
      apply (rule emits_bind_err [OF emits_read])
      subgoal by (rule emits_ret) (auto simp: scope_read_def)
      by simp_all
    by simp_all
  by simp_all

section \<open>The phases as a state machine\<close>

definition current_phase :: "ETCDSnapshotRestore \<Rightarrow> ETCDSnapshotPhase" where
  "current_phase r = (if sr_Phase r = [] then ETCDSnapshotPhaseStarted else sr_Phase r)"

text \<open>
  \<open>advances es r p\<close>: the calls \<open>es\<close> justify that restore \<open>r\<close> is recorded in phase \<open>p\<close>.
\<close>

inductive advances :: "event list \<Rightarrow> ETCDSnapshotRestore \<Rightarrow> ETCDSnapshotPhase \<Rightarrow> bool"
  for es :: "event list" and r :: ETCDSnapshotRestore where
  stays: "advances es r (current_phase r)"
| stopped: "advances es r ETCDSnapshotPhaseShutdown"
  if "current_phase r = ETCDSnapshotPhaseStarted" and "scope_read es r sc"
    and "\<And>m. m \<in> set (sc_machines sc) \<Longrightarrow>
      mc_Phase m = MachinePhaseRunning \<and> reported es m (plan_bytes kill_instructions)"
| restored: "advances es r ETCDSnapshotPhaseRestore"
  if "current_phase r = ETCDSnapshotPhaseShutdown" and "scope_read es r sc"
    and "sc_initMachine sc = Some im"
    and "answered es im (plan_bytes (restore_instructions (sc_etcdmachinebackup sc)))"
| restarted: "advances es r ETCDSnapshotPhaseFinished"
  if "current_phase r = ETCDSnapshotPhaseRestore" and "scope_read es r sc"
    and "sc_initMachine sc = Some im"
    and "answered es im (plan_bytes start_instructions)"
    and "\<And>m. m \<in> set (sc_machines sc) \<Longrightarrow> mc_Name m \<noteq> mc_Name im \<Longrightarrow>
      reported es m (plan_bytes (join_instructions (getInternalMachineIP im)))"

inductive_cases advances_ShutdownE: "advances es r ETCDSnapshotPhaseShutdown"
inductive_cases advances_RestoreE: "advances es r ETCDSnapshotPhaseRestore"
inductive_cases advances_FinishedE: "advances es r ETCDSnapshotPhaseFinished"

lemma advances_mono:
  assumes "advances es r p" and sub: "set es \<subseteq> set es'"
  shows "advances es' r p"
  using assms(1)
proof cases
  case stays
  then show ?thesis by (simp add: advances.stays)
next
  case (stopped sc)
  then show ?thesis
    by (auto intro!: advances.stopped [of r es' sc] intro: scope_read_mono [OF _ sub] reported_mono [OF _ sub])
next
  case (restored sc im)
  then show ?thesis
    by (auto intro!: advances.restored [of r es' sc im] intro: scope_read_mono [OF _ sub] answered_mono [OF _ sub])
next
  case (restarted sc im)
  then show ?thesis
    by (auto intro!: advances.restarted [of r es' sc im]
        intro: scope_read_mono [OF _ sub] answered_mono [OF _ sub] reported_mono [OF _ sub])
qed

text \<open>A reconciliation moves at most one phase ahead, and never back.\<close>

lemma advances_next:
  "advances es r p \<Longrightarrow> p = current_phase r \<or> (current_phase r, p) \<in>
     {(ETCDSnapshotPhaseStarted, ETCDSnapshotPhaseShutdown),
      (ETCDSnapshotPhaseShutdown, ETCDSnapshotPhaseRestore),
      (ETCDSnapshotPhaseRestore, ETCDSnapshotPhaseFinished)}"
  by (erule advances.cases) simp_all

lemma set_current_phase:
  "(if sr_Phase r = [] then set_phase ETCDSnapshotPhaseStarted r else r) = set_phase (current_phase r) r"
  by (simp add: current_phase_def set_phase_def)

lemma scope_read_set_phase [simp]: "scope_read es (set_phase p r) sc = scope_read es r sc"
  by (simp add: scope_read_def)

lemma emits_any_newScope: "emits (newScope (recording c) r) (\<lambda>_ _. True)"
  by (intro emits_any emits_all_newScope) simp_all

definition justified :: "event list \<Rightarrow> ETCDSnapshotRestore \<Rightarrow> (ETCDSnapshotRestore \<times> 'b) outcome \<Rightarrow> bool" where
  "justified es r out \<longleftrightarrow> (\<forall>r' res. out = Return (r', res) \<longrightarrow>
     advances es r (sr_Phase r') \<and> r' = set_phase (sr_Phase r') r)"

lemma justified_simps [simp]:
  "justified es r (Error e)" "justified es r (Panicked p)"
  "q = current_phase r \<Longrightarrow> justified es r (Return (set_phase q r, res))"
  by (simp_all add: justified_def advances.stays)

lemma justifiedI:
  assumes "\<And>r' res. out = Return (r', res) \<Longrightarrow>
      r' = set_phase (current_phase r) r \<or> r' = set_phase p r \<and> advances es r p"
  shows "justified es r out"
  using assms by (cases out) (force simp: justified_def intro: advances.stays)+

lemma emits_stop_justified:
  assumes now: "current_phase r = ETCDSnapshotPhaseStarted" and read: "scope_read es r sc"
    and running: "list_all (\<lambda>m. mc_Phase m = MachinePhaseRunning) (sc_machines sc)"
  shows "emits (stopRKE2OnAllMachines (recording c) cd (sc\<lparr>sc_cluster := cl\<rparr>) (set_phase (current_phase r) r))
    (\<lambda>new. justified (es @ new) r)"
proof -
  have "advances (es @ new) r ETCDSnapshotPhaseShutdown"
    if "\<forall>m \<in> set (sc_machines sc). reported new m (plan_bytes kill_instructions)" for new
    by (rule advances.stopped [OF now scope_read_mono [OF read]])
      (use that running in \<open>auto simp: list_all_iff intro: reported_mono\<close>)
  then show ?thesis
    by (intro emits_weaken [OF emits_stopRKE2OnAllMachines] justifiedI [where p = ETCDSnapshotPhaseShutdown]) auto
qed

lemma emits_restore_justified:
  assumes now: "current_phase r = ETCDSnapshotPhaseShutdown" and read: "scope_read es r sc"
  shows "emits (restoreSnaphotOnInitMachine (recording c) cd (sc\<lparr>sc_cluster := cl\<rparr>) (set_phase (current_phase r) r))
    (\<lambda>new. justified (es @ new) r)"
proof -
  have "advances (es @ new) r ETCDSnapshotPhaseRestore"
    if "sc_initMachine sc = Some im"
      "answered new im (plan_bytes (restore_instructions (sc_etcdmachinebackup sc)))" for new im
    by (rule advances.restored [OF now scope_read_mono [OF read] that(1) answered_mono [OF that(2)]]) auto
  then show ?thesis
    by (intro emits_weaken [OF emits_restoreSnaphotOnInitMachine] justifiedI [where p = ETCDSnapshotPhaseRestore])
      auto
qed

lemma emits_start_justified:
  assumes now: "current_phase r = ETCDSnapshotPhaseRestore" and read: "scope_read es r sc"
  shows "emits (startRKE2OnAllMachines (recording c) cd (sc\<lparr>sc_cluster := cl\<rparr>) (set_phase (current_phase r) r))
    (\<lambda>new. justified (es @ new) r)"
proof -
  obtain im where im: "sc_initMachine sc = Some im"
    using read find_init_machine_Some unfolding scope_read_def by metis
  have "advances (es @ new) r ETCDSnapshotPhaseFinished"
    if "answered new im (plan_bytes start_instructions)"
      "\<forall>m \<in> set (sc_machines sc). mc_Name m \<noteq> mc_Name im \<longrightarrow>
         reported new m (plan_bytes (join_instructions (getInternalMachineIP im)))" for new
    by (rule advances.restarted [OF now scope_read_mono [OF read] im answered_mono [OF that(1)]])
      (use that(2) in \<open>auto intro: reported_mono\<close>)
  with im show ?thesis
    by (intro emits_weaken [OF emits_startRKE2OnAllMachines [where im = im]]
        justifiedI [where p = ETCDSnapshotPhaseFinished]) auto
qed

lemma emits_reconcile_scope:
  "emits (reconcile_scope (recording c) cd (set_phase (current_phase r) r)) (\<lambda>new. justified new r)"
  unfolding reconcile_scope_def recording_simps set_phase_simps
  apply (rule emits_bind_err [OF emits_newScope])
  subgoal premises prems for sc new1
  proof -
    from prems have read: "scope_read (new1 @ new2) r sc" for new2
      by (auto intro: scope_read_mono [of new1])
    show ?thesis
      apply (rule emits_if)
      subgoal by (rule emits_ret) simp
      apply (rule emits_bind_err [OF emits_read])
      subgoal for cluster new2
        using emits_stop_justified [of r "new1 @ new2" sc, OF _ read]
          emits_restore_justified [of r "new1 @ new2" sc, OF _ read]
          emits_start_justified [of r "new1 @ new2" sc, OF _ read]
        by (auto intro!: emits_ret emits_bind_err [OF emits_read])
      by simp_all
  qed
  by simp_all

lemma emits_reconcileNormal:
  "emits (reconcileNormal (recording c) cd r) (\<lambda>new. justified new r)"
  unfolding reconcileNormal_def Let_def set_current_phase
  by (rule emits_bind_err [OF emits_catch_err [OF emits_reconcile_scope, where
        Q = "\<lambda>new out. \<forall>d. out = Return d \<longrightarrow> (case d of Inl e \<Rightarrow> True | Inr x \<Rightarrow> justified new r (Return x))"]])
    (auto intro!: emits_ret advances.stays split: sum.splits simp: justified_def)

text \<open>
  What a reconciliation does after \<^const>\<open>reconcileNormal\<close>: it sends the object, then the
  status of the object, and gathers the errors.
\<close>

definition conclude ::
  "'w client \<Rightarrow> ETCDSnapshotRestore \<Rightarrow> ETCDSnapshotRestore \<Rightarrow> go_error + ctrl_result \<Rightarrow>
   ('w, ctrl_result \<times> reconcile_error option) go" where
  "conclude c r r1 result =
     bind_go (attempt (patch_ETCDSnapshotRestore c r r1)) (\<lambda>patched.
     bind_go (attempt (patch_ETCDSnapshotRestore_status c r
       ((case patched of Inl _ \<Rightarrow> r1 | Inr answer \<Rightarrow> answer)\<lparr>sr_Status := sr_Status r1\<rparr>))) (\<lambda>patched'.
     let errs = (case result of Inl e \<Rightarrow> [Wrapf ''error reconciling etcd snapshot restore: '' e] | Inr _ \<Rightarrow> [])
           @ (case patched of Inl e \<Rightarrow> [Wrapf ''failed to patch etcd snapshot restore: '' (ApiError e)] | Inr _ \<Rightarrow> [])
           @ (case patched' of Inl e \<Rightarrow> [Wrapf ''failed to patch etcd snapshot restore: '' (ApiError e)] | Inr _ \<Rightarrow> [])
     in if errs \<noteq> [] then ret (no_requeue, Some (Aggregate errs))
        else ret (case result of Inl _ \<Rightarrow> no_requeue | Inr res \<Rightarrow> res, None)))"

lemma Reconcile_conclude:
  "Reconcile c cd req =
     bind_go (attempt (get_ETCDSnapshotRestore c req)) (\<lambda>got. case got of
       Inl e \<Rightarrow> if IsNotFound e then ret (no_requeue, None) else ret (no_requeue, Some (Single (ApiError e)))
     | Inr r \<Rightarrow>
         if om_DeletionTimestamp (sr_meta r) \<noteq> None then ret (no_requeue, None)
         else bind_go (reconcileNormal c cd r) (\<lambda>(r1, result). conclude c r r1 result))"
  unfolding Reconcile_def conclude_def reconcileDelete_def Let_def append_assoc ..

text \<open>The calls of a reconciliation, and its outcome.\<close>

definition restore_calls :: "'w client \<Rightarrow> codec \<Rightarrow> object_key \<Rightarrow> 'w \<Rightarrow> event list" where
  "restore_calls c cd req w = fst (snd (Reconcile (recording c) cd req ([], w)))"

definition restore_outcome ::
  "'w client \<Rightarrow> codec \<Rightarrow> object_key \<Rightarrow> 'w \<Rightarrow> (ctrl_result \<times> reconcile_error option) outcome" where
  "restore_outcome c cd req w = fst (Reconcile (recording c) cd req ([], w))"

lemma emits_calls:
  assumes "emits (Reconcile (recording c) cd req) Q"
  shows "Q (restore_calls c cd req w) (restore_outcome c cd req w)"
proof -
  from assms obtain new w' out where "Reconcile (recording c) cd req ([], w) = (out, ([] @ new, w'))" "Q new out"
    unfolding emits_def by blast
  then show ?thesis by (simp add: restore_calls_def restore_outcome_def)
qed

text \<open>
  A patch of the restore object is made from the object that was read, changes only its
  phase, and the calls before it justify the phase.
\<close>

fun justified_patch :: "object_key \<Rightarrow> event list \<Rightarrow> event \<Rightarrow> bool" where
  "justified_patch req es (EvPatchETCDSnapshotRestore b m res) \<longleftrightarrow>
     EvGetETCDSnapshotRestore req (Inr b) \<in> set es \<and> advances es b (sr_Phase m) \<and> m = set_phase (sr_Phase m) b"
| "justified_patch req es (EvPatchETCDSnapshotRestoreStatus b m res) \<longleftrightarrow>
     EvGetETCDSnapshotRestore req (Inr b) \<in> set es \<and> advances es b (sr_Phase m)
     \<and> sr_Status m = (sr_Status b)\<lparr>srst_Phase := sr_Phase m\<rparr>"
| "justified_patch req es e \<longleftrightarrow> True"

lemma justified_patch_mono:
  "justified_patch req es e \<Longrightarrow> set es \<subseteq> set es' \<Longrightarrow> justified_patch req es' e"
  by (cases e) (auto intro: advances_mono)

definition is_restore_patch :: "event \<Rightarrow> bool" where
  "is_restore_patch e \<longleftrightarrow> (case e of EvPatchETCDSnapshotRestore b m r \<Rightarrow> True
     | EvPatchETCDSnapshotRestoreStatus b m r \<Rightarrow> True | _ \<Rightarrow> False)"

lemma justified_patch_other: "\<not> is_restore_patch e \<Longrightarrow> justified_patch req es e"
  by (cases e) (simp_all add: is_restore_patch_def)

definition handler_call :: "event \<Rightarrow> bool" where
  "handler_call e \<longleftrightarrow> \<not> is_restore_patch e"

lemma writes_handler: "writes_only ps e \<Longrightarrow> handler_call e"
  by (cases e) (simp_all add: handler_call_def is_restore_patch_def)

lemmas handler_writes = emits_all_mono [where Q = handler_call, OF _ writes_handler]

lemma handler_startRKE2OnAllMachines:
  "emits_all handler_call (startRKE2OnAllMachines (recording c) cd sc r)"
  unfolding startRKE2OnAllMachines_def instructionsAsJson_ok of_result_simps bind_err_ret
  by (intro emits_all_rules handler_writes [OF writes_getPlanSecret [of UNIV]]
      handler_writes [OF writes_updatePlanSecret] handler_writes [OF writes_start_machine])

lemma handler_reconcile_scope: "emits_all handler_call (reconcile_scope (recording c) cd r)"
  unfolding reconcile_scope_def recording_simps
  by (intro emits_all_rules emits_all_call emits_all_newScope handler_startRKE2OnAllMachines
      handler_writes [OF writes_stopRKE2OnAllMachines] handler_writes [OF writes_restoreSnaphotOnInitMachine])
    (simp_all add: handler_call_def is_restore_patch_def)

lemma handler_reconcileNormal: "emits_all handler_call (reconcileNormal (recording c) cd r)"
  unfolding reconcileNormal_def Let_def
  by (rule emits_all_bind_err [OF emits_all_catch_err [OF handler_reconcile_scope]])
    (auto intro: emits_all_rules split: sum.split)

text \<open>The outcome of a reconciliation whose two patches were answered.\<close>

definition concluded ::
  "go_error + ctrl_result \<Rightarrow> api_error + 'a \<Rightarrow> api_error + 'b \<Rightarrow> ctrl_result \<times> reconcile_error option" where
  "concluded result res1 res2 =
     (let errs = (case result of Inl e \<Rightarrow> [Wrapf ''error reconciling etcd snapshot restore: '' e] | Inr _ \<Rightarrow> [])
           @ (case res1 of Inl e \<Rightarrow> [Wrapf ''failed to patch etcd snapshot restore: '' (ApiError e)] | Inr _ \<Rightarrow> [])
           @ (case res2 of Inl e \<Rightarrow> [Wrapf ''failed to patch etcd snapshot restore: '' (ApiError e)] | Inr _ \<Rightarrow> [])
      in case (errs, result) of ([], Inr res) \<Rightarrow> (res, None) | _ \<Rightarrow> (no_requeue, Some (Aggregate errs)))"

abbreviation conclude_events ::
  "ETCDSnapshotRestore \<Rightarrow> ETCDSnapshotRestore \<Rightarrow> api_error + ETCDSnapshotRestore \<Rightarrow>
   api_error + ETCDSnapshotRestore \<Rightarrow> event list" where
  "conclude_events r r1 res1 res2 \<equiv>
     [EvPatchETCDSnapshotRestore r r1 res1,
      EvPatchETCDSnapshotRestoreStatus r
        ((case res1 of Inl _ \<Rightarrow> r1 | Inr answer \<Rightarrow> answer)\<lparr>sr_Status := sr_Status r1\<rparr>) res2]"

lemma emits_conclude:
  "emits (conclude (recording c) r r1 result) (\<lambda>new out. \<exists>res1 res2.
     new = conclude_events r r1 res1 res2 \<and> out = Return (concluded result res1 res2))"
  unfolding conclude_def recording_simps Let_def
  apply (rule emits_bind_err [OF emits_attempt [where Q = "\<lambda>new out. \<exists>x. out = Return x \<and> new = [EvPatchETCDSnapshotRestore r r1 x]"]])
  subgoal by simp
  subgoal for patched new1
    apply (rule emits_bind_err [OF emits_attempt [where Q = "\<lambda>new out. \<exists>x. out = Return x \<and> new = [EvPatchETCDSnapshotRestoreStatus r
         ((case patched of Inl _ \<Rightarrow> r1 | Inr answer \<Rightarrow> answer)\<lparr>sr_Status := sr_Status r1\<rparr>) x]"]])
    subgoal by simp
    subgoal for patched2 new2
      by (cases result; cases patched; cases patched2) (auto simp: concluded_def intro!: emits_ret)
    by simp_all
  by simp_all

text \<open>A property of a reconciliation, from one of \<^const>\<open>reconcileNormal\<close>.\<close>

lemma emits_Reconcile_lift:
  assumes normal: "\<And>r. emits (reconcileNormal (recording c) cd r) (P r)"
    and got: "\<And>e. Q [EvGetETCDSnapshotRestore req (Inl e)]
        (Return (no_requeue, if IsNotFound e then None else Some (Single (ApiError e))))"
      "\<And>r. om_DeletionTimestamp (sr_meta r) \<noteq> None \<Longrightarrow>
        Q [EvGetETCDSnapshotRestore req (Inr r)] (Return (no_requeue, None))"
    and left: "\<And>r new e. P r new (Error e) \<Longrightarrow> om_DeletionTimestamp (sr_meta r) = None \<Longrightarrow>
        Q (EvGetETCDSnapshotRestore req (Inr r) # new) (Error e)"
      "\<And>r new p. P r new (Panicked p) \<Longrightarrow> om_DeletionTimestamp (sr_meta r) = None \<Longrightarrow>
        Q (EvGetETCDSnapshotRestore req (Inr r) # new) (Panicked p)"
    and sent: "\<And>r new r1 result res1 res2. P r new (Return (r1, result)) \<Longrightarrow>
      om_DeletionTimestamp (sr_meta r) = None \<Longrightarrow>
      Q (EvGetETCDSnapshotRestore req (Inr r) # new @ conclude_events r r1 res1 res2)
        (Return (concluded result res1 res2))"
  shows "emits (Reconcile (recording c) cd req) Q"
  unfolding Reconcile_conclude recording_simps
  apply (rule emits_bind_err [OF emits_attempt [where Q = "\<lambda>new out. \<exists>x. out = Return x \<and> new = [EvGetETCDSnapshotRestore req x]"]])
  subgoal by simp
  subgoal for x new1
  proof (cases x)
    case (Inr r)
    assume "\<exists>y. Return x = Return y \<and> new1 = [EvGetETCDSnapshotRestore req y]"
    with Inr have new1: "new1 = [EvGetETCDSnapshotRestore req (Inr r)]" by simp
    have "emits (bind_go (reconcileNormal (recording c) cd r) (\<lambda>(r1, result). conclude (recording c) r r1 result))
        (\<lambda>new2. Q (new1 @ new2))" if "om_DeletionTimestamp (sr_meta r) = None"
      by (rule emits_bind_err [OF normal])
        (use that in \<open>auto simp: new1 intro: left dest: sent intro!: emits_weaken [OF emits_conclude]\<close>)
    with Inr new1 got(2) show ?thesis by (auto intro!: emits_ret)
  next
    case (Inl e)
    with got(1) [of e] show "\<exists>y. Return x = Return y \<and> new1 = [EvGetETCDSnapshotRestore req y] \<Longrightarrow> ?thesis"
      by (auto intro!: emits_ret split: if_splits)
  qed
  by simp_all

lemma emits_Reconcile_justified:
  "emits (Reconcile (recording c) cd req) (\<lambda>new out. each_call (justified_patch req) [] new)"
proof (rule emits_Reconcile_lift [where
      P = "\<lambda>r new out. list_all handler_call new \<and> justified new r out"])
  have quiet: "list_all handler_call new \<Longrightarrow> each_call (justified_patch req) pre new" for pre new
    by (erule each_call_all) (simp add: handler_call_def justified_patch_other)
  show "emits (reconcileNormal (recording c) cd r) (\<lambda>new out. list_all handler_call new \<and> justified new r out)" for r
    using handler_reconcileNormal unfolding emits_all_def by (rule emits_conj [OF _ emits_reconcileNormal])
  fix r r1 res1 res2 and new :: "event list" and result :: "go_error + ctrl_result"
  assume calls: "list_all handler_call new \<and> justified new r (Return (r1, result))"
  then have adv: "advances es r (sr_Phase r1)" if "set new \<subseteq> set es" for es
    by (auto simp: justified_def intro: advances_mono [OF _ that])
  from calls have r1: "r1 = set_phase (sr_Phase r1) r" by (simp add: justified_def)
  then have "sr_Status r1 = (sr_Status r)\<lparr>srst_Phase := sr_Phase r1\<rparr>"
    by (metis set_phase_def ETCDSnapshotRestore.simps(3) ETCDSnapshotRestore.select_convs(3)
        ETCDSnapshotRestore.surjective ETCDSnapshotRestore.update_convs(3))
  with calls quiet r1 show "each_call (justified_patch req) []
      (EvGetETCDSnapshotRestore req (Inr r) # new @ conclude_events r r1 res1 res2)"
    by (auto intro!: adv)
next
  have quiet: "each_call (justified_patch req) [] (EvGetETCDSnapshotRestore req (Inr r) # new)"
    if "list_all handler_call new" for r new
    using that by (auto intro!: each_call_all [of handler_call] simp: handler_call_def justified_patch_other)
  show "each_call (justified_patch req) [] (EvGetETCDSnapshotRestore req (Inr r) # new)"
    if "list_all handler_call new \<and> justified new r (Error e)" for r new and e
    using that quiet by blast
  show "each_call (justified_patch req) [] (EvGetETCDSnapshotRestore req (Inr r) # new)"
    if "list_all handler_call new \<and> justified new r (Panicked p)" for r new and p
    using that quiet by blast
qed simp_all

section \<open>Plans only under a paused cluster of running machines\<close>

text \<open>
  What a watcher of the calls knows: nothing, that every machine listed is running, or
  that on top of that the cluster was paused. \<open>guard_step\<close> is \<open>None\<close> at a call that is
  out of order: a plan without the pause, a pause without the look at the machines, any
  object created.
\<close>

datatype guard = Unchecked | Checked | Pausing

fun guard_step :: "guard \<Rightarrow> event \<Rightarrow> guard option" where
  "guard_step g (EvListMachine os (Inr ms)) =
     Some (if list_all (\<lambda>m. mc_Phase m = MachinePhaseRunning) ms then Checked else Unchecked)"
| "guard_step g (EvPatchCluster b m res) =
     (if g = Unchecked then None
      else Some (case res of Inl _ \<Rightarrow> g | Inr _ \<Rightarrow> if cl_Paused m then Pausing else Checked))"
| "guard_step g (EvPatchSecret b m res) = (if g = Pausing then Some g else None)"
| "guard_step g (EvCreate x res) = None"
| "guard_step g e = Some g"

fun guard_run :: "guard \<Rightarrow> event list \<Rightarrow> guard option" where
  "guard_run g [] = Some g"
| "guard_run g (e # es) = Option.bind (guard_step g e) (\<lambda>g'. guard_run g' es)"

lemma guard_run_append: "guard_run g (es @ fs) = Option.bind (guard_run g es) (\<lambda>g'. guard_run g' fs)"
  by (induction es arbitrary: g) (simp_all add: bind_assoc)

text \<open>Calls that leave the cluster alone are in order under a paused cluster.\<close>

definition pausing_call :: "event \<Rightarrow> bool" where
  "pausing_call e \<longleftrightarrow> guard_step Pausing e = Some Pausing"

lemma guard_run_pausing: "list_all pausing_call es \<Longrightarrow> guard_run Pausing es = Some Pausing"
  by (induction es) (auto simp: pausing_call_def)

lemma pausing_getPlanSecret: "emits_all pausing_call (getPlanSecretForMachine (recording c) m)"
  by (rule emits_all_getPlanSecret) (simp_all add: pausing_call_def)

lemma pausing_updatePlanSecret: "emits_all pausing_call (updatePlanSecretWithPlan (recording c) m s data)"
  by (rule emits_all_updatePlanSecret) (simp add: pausing_call_def)

lemma pausing_drive_plan: "emits_all pausing_call (drive_plan (recording c) cd named m plan ready)"
  unfolding drive_plan_def
  by (intro emits_all_rules pausing_getPlanSecret pausing_updatePlanSecret)

lemma pausing_stop: "emits_all pausing_call (stopRKE2OnAllMachines (recording c) cd sc r)"
  unfolding stopRKE2OnAllMachines_def stop_machine_drive
  by (intro emits_all_rules pausing_drive_plan)

lemma pausing_restore: "emits_all pausing_call (restoreSnaphotOnInitMachine (recording c) cd sc r)"
  unfolding restoreSnaphotOnInitMachine_def instructionsAsJson_ok of_result_simps bind_err_ret
  by (cases "sc_initMachine sc")
    (auto intro!: emits_all_rules pausing_getPlanSecret pausing_updatePlanSecret)

lemma pausing_start: "emits_all pausing_call (startRKE2OnAllMachines (recording c) cd sc r)"
  unfolding startRKE2OnAllMachines_def start_machine_drive instructionsAsJson_ok of_result_simps bind_err_ret
  by (intro emits_all_rules pausing_getPlanSecret pausing_updatePlanSecret pausing_drive_plan)

section \<open>Nothing else is written\<close>

text \<open>The plans the reconciler ever writes.\<close>

definition restore_plans :: "bytes set" where
  "restore_plans = {plan_bytes kill_instructions, plan_bytes start_instructions}
     \<union> range (\<lambda>b. plan_bytes (restore_instructions b)) \<union> range (\<lambda>ip. plan_bytes (join_instructions ip))"

text \<open>
  What a phase may write: the pause flag of the cluster, and the plan of a plan secret. It
  creates nothing, and leaves the restore to the end of the reconciliation.
\<close>

fun confined :: "event \<Rightarrow> bool" where
  "confined (EvPatchCluster b m res) \<longleftrightarrow> m = b\<lparr>cl_Paused := cl_Paused m\<rparr>"
| "confined (EvPatchSecret b m res) \<longleftrightarrow> (\<exists>d p. p \<in> restore_plans \<and> sec_Data b = Some d \<and>
     m = b\<lparr>sec_Data := Some (map_assign ''plan'' p d)\<rparr>)"
| "confined (EvPatchETCDSnapshotRestore b m res) \<longleftrightarrow> False"
| "confined (EvPatchETCDSnapshotRestoreStatus b m res) \<longleftrightarrow> False"
| "confined (EvCreate x res) \<longleftrightarrow> False"
| "confined e \<longleftrightarrow> True"

text \<open>
  What a reconciliation may write beside: the restore it read, with another phase, and then
  the status of that restore, with the same phase and nothing else changed. The object the
  status is sent in is the server's answer to the first patch, or, where it failed, the
  object of that patch.
\<close>

fun confined_patch :: "event list \<Rightarrow> event \<Rightarrow> bool" where
  "confined_patch es (EvPatchETCDSnapshotRestore b m res) \<longleftrightarrow> m = set_phase (sr_Phase m) b"
| "confined_patch es (EvPatchETCDSnapshotRestoreStatus b m res) \<longleftrightarrow>
     (\<exists>x. EvPatchETCDSnapshotRestore b (set_phase (sr_Phase m) b) x \<in> set es \<and>
       m = (case x of Inl e \<Rightarrow> b | Inr a \<Rightarrow> a)\<lparr>sr_Status := (sr_Status b)\<lparr>srst_Phase := sr_Phase m\<rparr>\<rparr>)"
| "confined_patch es e \<longleftrightarrow> confined e"

lemma confined_patch_confined: "confined e \<Longrightarrow> confined_patch es e"
  by (cases e) simp_all

lemma restore_plans_simps [simp]:
  "plan_bytes kill_instructions \<in> restore_plans" "plan_bytes start_instructions \<in> restore_plans"
  "plan_bytes (restore_instructions b) \<in> restore_plans" "plan_bytes (join_instructions ip) \<in> restore_plans"
  by (auto simp: restore_plans_def)

lemma confined_getPlanSecret: "emits_all confined (getPlanSecretForMachine (recording c) m)"
  by (rule emits_all_getPlanSecret) simp_all

lemma confined_updatePlanSecret:
  "plan \<in> restore_plans \<Longrightarrow> emits_all confined (updatePlanSecretWithPlan (recording c) m s plan)"
  by (rule emits_all_updatePlanSecret) auto

lemma confined_drive_plan:
  "plan \<in> restore_plans \<Longrightarrow> emits_all confined (drive_plan (recording c) cd named m plan ready)"
  unfolding drive_plan_def
  by (intro emits_all_rules confined_getPlanSecret confined_updatePlanSecret)

lemma confined_stop: "emits_all confined (stopRKE2OnAllMachines (recording c) cd sc r)"
  unfolding stopRKE2OnAllMachines_def stop_machine_drive
  by (intro emits_all_rules confined_drive_plan restore_plans_simps)

lemma confined_restore: "emits_all confined (restoreSnaphotOnInitMachine (recording c) cd sc r)"
  unfolding restoreSnaphotOnInitMachine_def instructionsAsJson_ok of_result_simps bind_err_ret
  by (cases "sc_initMachine sc")
    (auto intro!: emits_all_rules confined_getPlanSecret confined_updatePlanSecret)

lemma confined_start: "emits_all confined (startRKE2OnAllMachines (recording c) cd sc r)"
  unfolding startRKE2OnAllMachines_def start_machine_drive instructionsAsJson_ok of_result_simps bind_err_ret
  by (intro emits_all_rules confined_getPlanSecret confined_updatePlanSecret confined_drive_plan
      restore_plans_simps)

section \<open>What the phases have in common\<close>

text \<open>
  While a restore is under way, a reconciliation that leaves its phase asks to be called
  again in thirty seconds; one that moves the phase does not, since its own patch of the
  status triggers the next. In every other phase the restore is left.
\<close>

definition requeues :: "ETCDSnapshotRestore \<Rightarrow> ETCDSnapshotRestore \<Rightarrow> ctrl_result \<Rightarrow> bool" where
  "requeues r r' res \<longleftrightarrow> res = thirty_seconds \<and> sr_Phase r' = current_phase r \<or>
     res = no_requeue \<and> (sr_Phase r' \<noteq> current_phase r \<or> current_phase r \<notin>
       {ETCDSnapshotPhaseStarted, ETCDSnapshotPhaseShutdown, ETCDSnapshotPhaseRestore})"

lemma yields_stop:
  "yields (stopRKE2OnAllMachines c cd sc r) (\<lambda>(r', res). (r', res) = (r, thirty_seconds) \<or>
     (r', res) = (set_phase ETCDSnapshotPhaseShutdown r, no_requeue))"
  unfolding stopRKE2OnAllMachines_def by (intro yields_bind yields_if) (simp_all add: yields_ret)

lemma yields_restore:
  "yields (restoreSnaphotOnInitMachine c cd sc r) (\<lambda>(r', res). (r', res) = (r, thirty_seconds) \<or>
     (r', res) = (set_phase ETCDSnapshotPhaseRestore r, no_requeue))"
  unfolding restoreSnaphotOnInitMachine_def
  by (cases "sc_initMachine sc") (auto intro!: yields_bind yields_if yields_ret yields_fail)

lemma yields_start:
  "yields (startRKE2OnAllMachines c cd sc r) (\<lambda>(r', res). (r', res) = (r, thirty_seconds) \<or>
     (r', res) = (set_phase ETCDSnapshotPhaseFinished r, no_requeue))"
  unfolding startRKE2OnAllMachines_def
  by (intro yields_bind yields_if yields_fail yields_ret) simp_all

text \<open>
  The contract the three handlers share, and what it gives: a handler leaves the restore
  or moves it to its next phase, and its calls keep to the paused cluster and to what the
  reconciler owns.
\<close>

locale phase_handler =
  fixes handle :: "scope \<Rightarrow> ETCDSnapshotRestore \<Rightarrow> (event list \<times> 'w, ETCDSnapshotRestore \<times> ctrl_result) go"
    and next_phase :: ETCDSnapshotPhase
  assumes outcome: "yields (handle sc r) (\<lambda>(r', res). (r', res) = (r, thirty_seconds) \<or>
      (r', res) = (set_phase next_phase r, no_requeue))"
    and pausing: "emits_all pausing_call (handle sc r)"
    and keeps_confined: "emits_all confined (handle sc r)"
begin

lemma guarded: "emits (handle sc r) (\<lambda>new out. \<exists>g. guard_run Pausing new = Some g)"
  using pausing unfolding emits_all_def by (rule emits_weaken) (simp add: guard_run_pausing)

lemma requeue:
  "current_phase r \<noteq> next_phase \<Longrightarrow>
     yields (handle sc (set_phase (current_phase r) r)) (\<lambda>(r', res). requeues r r' res)"
  by (rule yields_weaken [OF outcome]) (auto simp: requeues_def)

end

interpretation stop: phase_handler "stopRKE2OnAllMachines (recording c) cd" ETCDSnapshotPhaseShutdown for c cd
  by unfold_locales (rule yields_stop pausing_stop confined_stop)+

interpretation restore: phase_handler "restoreSnaphotOnInitMachine (recording c) cd" ETCDSnapshotPhaseRestore for c cd
  by unfold_locales (rule yields_restore pausing_restore confined_restore)+

interpretation start: phase_handler "startRKE2OnAllMachines (recording c) cd" ETCDSnapshotPhaseFinished for c cd
  by unfold_locales (rule yields_start pausing_start confined_start)+

section \<open>The three promises of a reconciliation\<close>

lemma guarded_newScope:
  "emits (newScope (recording c) r) (\<lambda>new out. guard_run Unchecked new \<noteq> None \<and>
     (\<forall>sc. out = Return sc \<longrightarrow> guard_run Unchecked new =
        Some (if list_all (\<lambda>m. mc_Phase m = MachinePhaseRunning) (sc_machines sc) then Checked else Unchecked)))"
proof (rule emits_conj)
  have any: "emits_all (\<lambda>e. \<exists>os x. \<forall>g. guard_step g e = Some g \<or> e = EvListMachine os x) (newScope (recording c) r)"
    by (rule emits_all_newScope) auto
  have "guard_run g es \<noteq> None" if "list_all (\<lambda>e. \<exists>os x. \<forall>g. guard_step g e = Some g \<or> e = EvListMachine os x) es"
    for es g
    using that
  proof (induction es arbitrary: g)
    case (Cons e es)
    then obtain os x where "guard_step g e = Some g \<or> e = EvListMachine os x" by auto
    then have "\<exists>g'. guard_step g e = Some g'" by (cases x) auto
    with Cons show ?case by auto
  qed simp
  with any show "emits (newScope (recording c) r) (\<lambda>new out. guard_run Unchecked new \<noteq> None)"
    unfolding emits_all_def by (auto elim: emits_weaken)
qed (rule emits_weaken [OF emits_newScope], auto)

lemma guarded_reconcile_scope:
  "emits (reconcile_scope (recording c) cd r) (\<lambda>new out. guard_run Unchecked new \<noteq> None)"
  unfolding reconcile_scope_def recording_simps
  apply (rule emits_bind_err [OF guarded_newScope])
  subgoal for sc new1
    apply (rule emits_if)
    subgoal by (rule emits_ret) simp
    apply (rule emits_bind_err [OF emits_read])
    subgoal for cluster new2
      by (intro emits_if)
        (auto simp: guard_run_append intro!: emits_ret emits_bind_err [OF emits_read]
          stop.guarded restore.guarded start.guarded)
    by (auto simp: guard_run_append)
  by simp_all

lemma emits_Reconcile_guarded:
  "emits (Reconcile (recording c) cd req) (\<lambda>new out. guard_run Unchecked new \<noteq> None)"
proof (rule emits_Reconcile_lift [where P = "\<lambda>r new out. guard_run Unchecked new \<noteq> None"])
  show "emits (reconcileNormal (recording c) cd r) (\<lambda>new out. guard_run Unchecked new \<noteq> None)" for r
    unfolding reconcileNormal_def Let_def
    by (rule emits_bind_err [OF emits_catch_err [OF guarded_reconcile_scope, where
          Q = "\<lambda>new out. guard_run Unchecked new \<noteq> None"]])
      (auto intro!: emits_ret split: sum.splits)
qed (auto simp: guard_run_append)

lemma confined_reconcileNormal: "emits_all confined (reconcileNormal (recording c) cd r)"
proof -
  have "emits_all confined (reconcile_scope (recording c) cd r)" for r
    unfolding reconcile_scope_def recording_simps
    by (intro emits_all_rules emits_all_call emits_all_newScope stop.keeps_confined restore.keeps_confined start.keeps_confined)
      simp_all
  then show ?thesis
    unfolding reconcileNormal_def Let_def
    by (auto intro!: emits_all_bind_err emits_all_rules split: sum.split)
qed

lemma set_phase_status: "set_phase p r = r\<lparr>sr_Status := (sr_Status r)\<lparr>srst_Phase := p\<rparr>\<rparr>"
  by (simp add: set_phase_def)

lemma emits_Reconcile_confined:
  "emits (Reconcile (recording c) cd req) (\<lambda>new out. each_call confined_patch [] new)"
proof (rule emits_Reconcile_lift [where P = "\<lambda>r new out. list_all confined new \<and> justified new r out"])
  have calls: "each_call confined_patch pre new" if "list_all confined new" for pre new
    using that by (rule each_call_all) (rule confined_patch_confined)
  show "emits (reconcileNormal (recording c) cd r) (\<lambda>new out. list_all confined new \<and> justified new r out)" for r
    using confined_reconcileNormal unfolding emits_all_def by (rule emits_conj [OF _ emits_reconcileNormal])
  show "each_call confined_patch [] (EvGetETCDSnapshotRestore req (Inr r) # new)"
    if "list_all confined new \<and> justified new r (Error e)" for r new and e
    using that calls by simp
  show "each_call confined_patch [] (EvGetETCDSnapshotRestore req (Inr r) # new)"
    if "list_all confined new \<and> justified new r (Panicked p)" for r new and p
    using that calls by simp
  fix r r1 res2 and res1 :: "api_error + ETCDSnapshotRestore" and new :: "event list" and result :: "go_error + ctrl_result"
  assume *: "list_all confined new \<and> justified new r (Return (r1, result))"
  then obtain p where r1: "r1 = set_phase p r" unfolding justified_def by blast
  let ?sent = "(case (res1 :: api_error + ETCDSnapshotRestore) of Inl _ \<Rightarrow> r1 | Inr answer \<Rightarrow> answer)\<lparr>sr_Status := sr_Status r1\<rparr>"
  have "?sent = (case res1 of Inl e \<Rightarrow> r | Inr a \<Rightarrow> a)\<lparr>sr_Status := (sr_Status r)\<lparr>srst_Phase := p\<rparr>\<rparr>"
    "sr_Phase ?sent = p"
    by (cases res1; simp add: r1 set_phase_status)+
  with * calls show "each_call confined_patch [] (EvGetETCDSnapshotRestore req (Inr r) # new @ conclude_events r r1 res1 res2)"
    by (auto simp: r1)
qed simp_all



text \<open>
  The calls of a reconciliation that ends without a panic: the restore was not there, was
  being deleted, or both of its patches were sent, whatever else failed. The work in
  between came to an error exactly when its calls account for one, and to that one.
\<close>

inductive reconciled ::
  "codec \<Rightarrow> object_key \<Rightarrow> event list \<Rightarrow> ctrl_result \<times> reconcile_error option \<Rightarrow> bool"
  for cd :: codec and req :: object_key where
  absent: "reconciled cd req [EvGetETCDSnapshotRestore req (Inl e)] (no_requeue, None)" if "IsNotFound e"
| unreadable: "reconciled cd req [EvGetETCDSnapshotRestore req (Inl e)] (no_requeue, Some (Single (ApiError e)))"
  if "\<not> IsNotFound e"
| deleting: "reconciled cd req [EvGetETCDSnapshotRestore req (Inr r)] (no_requeue, None)"
  if "om_DeletionTimestamp (sr_meta r) \<noteq> None"
| worked: "reconciled cd req (EvGetETCDSnapshotRestore req (Inr r) # new @ conclude_events r (set_phase p r) res1 res2)
    (concluded result res1 res2)"
  if "om_DeletionTimestamp (sr_meta r) = None" and "list_all handler_call new"
    and "causes cd (set_phase (current_phase r) r) new = (case result of Inl e \<Rightarrow> [root_cause e] | Inr res \<Rightarrow> [])"
    and "advances new r p"
    and "\<And>res. result = Inr res \<Longrightarrow> requeues r (set_phase p r) res"


section \<open>Properties\<close>

text \<open>C5: Whatever the API server answers and whoever else acts on the cluster, the
  reconciler records a phase of a restore only from the object it read, only the phase it
  is in or the next one, and the next one only when its reads prove the work of the phase
  done: before Shutdown it listed the machines of the cluster, found every one running and
  read, in the plan secret of each, the checksum of the kill plan as applied; before
  Restore it saw the restore plan applied on the machine the backup names; before Finished
  it saw the start plan applied on that machine and the join plan on every other.\<close>

theorem restore_phase_justified: "each_call (justified_patch req) [] (restore_calls c cd req w)"
  by (rule emits_calls [OF emits_Reconcile_justified])

text \<open>C6: A plan is written to a machine only after the machines of the cluster were listed
  and found running, and while the cluster is paused by the reconciler's own patch; the
  pause itself comes after the look at the machines; nothing is created.\<close>

theorem restore_plans_guarded: "guard_run Unchecked (restore_calls c cd req w) \<noteq> None"
  by (rule emits_calls [OF emits_Reconcile_guarded])

text \<open>C9: Every patch of a reconciliation is confined to what the reconciler owns: of a
  cluster it changes only \<open>spec.paused\<close>, of a secret only the \<open>plan\<close> entry and only to one
  of the five plans of a restore, of a restore only \<open>status.phase\<close>: in the patch of the
  object, and in the patch of its status, which carries the status that was read with the
  phase of the first patch and nothing else changed. Nothing is created.\<close>

theorem restore_writes_confined: "each_call confined_patch [] (restore_calls c cd req w)"
  by (rule emits_calls [OF emits_Reconcile_confined])


text \<open>Recording changes nothing: the client under it sees the same reconciliation.\<close>

lemma forgets_getPlanSecret [forgets_rules]:
  "forgets (getPlanSecretForMachine (recording c) m) (getPlanSecretForMachine c m)"
  unfolding getPlanSecretForMachine_def recording_simps by (intro forgets_rules)

lemma forgets_updatePlanSecret [forgets_rules]:
  "forgets (updatePlanSecretWithPlan (recording c) m s d) (updatePlanSecretWithPlan c m s d)"
  unfolding updatePlanSecretWithPlan_def recording_simps
  by (cases "sec_Data s"; simp only: option.case; intro forgets_rules)

lemma forgets_newScope [forgets_rules]: "forgets (newScope (recording c) r) (newScope c r)"
  unfolding newScope_def recording_simps by (intro forgets_rules)

lemma forgets_stop [forgets_rules]:
  "forgets (stopRKE2OnAllMachines (recording c) cd sc r) (stopRKE2OnAllMachines c cd sc r)"
  unfolding stopRKE2OnAllMachines_def stop_machine_def by (intro forgets_rules)

lemma forgets_restore [forgets_rules]:
  "forgets (restoreSnaphotOnInitMachine (recording c) cd sc r) (restoreSnaphotOnInitMachine c cd sc r)"
  unfolding restoreSnaphotOnInitMachine_def
  by (cases "sc_initMachine sc"; simp only: option.case; intro forgets_rules)

lemma forgets_start [forgets_rules]:
  "forgets (startRKE2OnAllMachines (recording c) cd sc r) (startRKE2OnAllMachines c cd sc r)"
  unfolding startRKE2OnAllMachines_def start_machine_def by (intro forgets_rules)

lemma forgets_reconcileNormal [forgets_rules]:
  "forgets (reconcileNormal (recording c) cd r) (reconcileNormal c cd r)"
  unfolding reconcileNormal_def reconcile_scope_def recording_simps Let_def
  by (intro forgets_rules) (auto intro: forgets_rules split: sum.split)

lemma forgets_Reconcile: "forgets (Reconcile (recording c) cd req) (Reconcile c cd req)"
  unfolding Reconcile_conclude conclude_def recording_simps Let_def
  by (auto intro!: forgets_rules split: sum.split)

text \<open>The calls the properties above speak of are those of the reconciler itself: run on
  the bare client it has the outcome and leaves the state of the recorded run.\<close>

lemma restore_recording_transparent:
  "restore_outcome c cd req w = fst (Reconcile c cd req w) \<and>
   snd (snd (Reconcile (recording c) cd req ([], w))) = snd (Reconcile c cd req w)"
proof -
  obtain es where
    "Reconcile (recording c) cd req ([], w) = (fst (Reconcile c cd req w), es, snd (Reconcile c cd req w))"
    using forgets_Reconcile [of c cd req] unfolding forgets_def by blast
  then show ?thesis by (simp add: restore_outcome_def)
qed

end
