(* ===== verification/Api_Store.thy ===== *)
theory Api_Store
  imports Kube_Client
begin

text \<open>
  A reference API server to run the program against: objects by namespace and name, a
  resource version that grows with every change, merge patches under optimistic locking,
  the status subresource of the restores. It is an instance of the client parameter, not
  part of the program; the laws the program's progress rests on are the locale
  \<open>kind_api\<close>, which the server is shown to satisfy for each kind the program patches.
\<close>

section \<open>The laws of a kind of objects\<close>

text \<open>
  \<open>item w k\<close> is the object stored under a key, \<open>rest w\<close> everything else, \<open>merge b m a\<close> what
  the patch from \<open>b\<close> to \<open>m\<close> makes of \<open>a\<close>, \<open>stamp v a\<close> the object \<open>a\<close> at resource version
  \<open>v\<close>. A patch made from an object at its current version succeeds and changes that object
  only; one that would change nothing leaves even the version; a patch made from any other
  version fails and changes nothing.
\<close>

abbreviation key_of :: "object_meta \<Rightarrow> object_key" where
  "key_of om \<equiv> key (om_Namespace om) (om_Name om)"

locale kind_api =
  fixes get :: "object_key \<Rightarrow> ('w, 'a) api"
    and patch :: "'a \<Rightarrow> 'a \<Rightarrow> ('w, 'a) api"
    and item :: "'w \<Rightarrow> object_key \<Rightarrow> 'a option"
    and rest :: "'w \<Rightarrow> 'r"
    and meta :: "'a \<Rightarrow> object_meta"
    and merge :: "'a \<Rightarrow> 'a \<Rightarrow> 'a \<Rightarrow> 'a"
    and stamp :: "nat \<Rightarrow> 'a \<Rightarrow> 'a"
  assumes get_found: "item w k = Some a \<Longrightarrow> get k w = (Inr a, w)"
    and get_missing: "item w k = None \<Longrightarrow> \<exists>e. get k w = (Inl e, w) \<and> IsNotFound e"
    and patch_current: "item w (key_of (meta m)) = Some a \<Longrightarrow>
      om_ResourceVersion (meta b) = om_ResourceVersion (meta a) \<Longrightarrow>
      \<exists>v w'. patch b m w = (Inr (stamp v (merge b m a)), w') \<and>
        item w' = (item w)(key_of (meta m) \<mapsto> stamp v (merge b m a)) \<and> rest w' = rest w"
    and patch_noop: "item w (key_of (meta m)) = Some a \<Longrightarrow>
      om_ResourceVersion (meta b) = om_ResourceVersion (meta a) \<Longrightarrow> merge b m a = a \<Longrightarrow>
      patch b m w = (Inr a, w)"
    and patch_stale: "item w (key_of (meta m)) = Some a \<Longrightarrow>
      om_ResourceVersion (meta b) \<noteq> om_ResourceVersion (meta a) \<Longrightarrow>
      \<exists>e. patch b m w = (Inl e, w)"
begin

text \<open>Reading an object and patching what was read.\<close>

lemma call_get: "item w k = Some a \<Longrightarrow> call (get k) w = (Return a, w)"
  by (simp add: call_def get_found)

lemma attempt_get: "item w k = Some a \<Longrightarrow> attempt (get k) w = (Return (Inr a), w)"
  by (simp add: attempt_def get_found)

lemma call_patch:
  assumes "item w k = Some a" and "key_of (meta m) = k"
    and "om_ResourceVersion (meta b) = om_ResourceVersion (meta a)"
  obtains v w' where "call (patch b m) w = (Return (stamp v (merge b m a)), w')"
    "item w' = (item w)(k \<mapsto> stamp v (merge b m a))" "rest w' = rest w"
  using patch_current [of w m a b] assms that by (auto simp: call_def)

lemma attempt_patch:
  assumes "item w k = Some a" and "key_of (meta m) = k"
    and "om_ResourceVersion (meta b) = om_ResourceVersion (meta a)"
  obtains v w' where "attempt (patch b m) w = (Return (Inr (stamp v (merge b m a))), w')"
    "item w' = (item w)(k \<mapsto> stamp v (merge b m a))" "rest w' = rest w"
  using patch_current [of w m a b] assms that by (auto simp: attempt_def)

lemma attempt_patch_noop:
  assumes "item w k = Some a" and "key_of (meta m) = k"
    and "om_ResourceVersion (meta b) = om_ResourceVersion (meta a)" and "merge b m a = a"
  shows "attempt (patch b m) w = (Return (Inr a), w)"
  using patch_noop [of w m a b] assms by (simp add: attempt_def)

end

section \<open>The server\<close>

type_synonym 'a items = "(object_key \<times> 'a) list"

record store =
  st_version :: nat
  st_restores :: "ETCDSnapshotRestore items"
  st_backups :: "EtcdMachineBackup items"
  st_clusters :: "cluster items"
  st_machines :: "machine items"
  st_configs :: "rke2_config items"
  st_secrets :: "secret items"
  st_unstructured :: "((group_version_kind \<times> object_key) \<times> unstructured) list"
  st_service_accounts :: "service_account items"
  st_roles :: "role items"
  st_role_bindings :: "role_binding items"

definition not_found :: api_error where
  "not_found = StatusError ReasonNotFound ''not found''"

definition already_exists :: api_error where
  "already_exists = StatusError ReasonAlreadyExists ''already exists''"

definition conflict :: api_error where
  "conflict = StatusError ReasonConflict ''the object has been modified''"

lemma api_error_reasons [simp]:
  "IsNotFound not_found" "\<not> IsNotFound already_exists" "\<not> IsNotFound conflict"
  "IsAlreadyExists already_exists" "\<not> IsAlreadyExists not_found" "\<not> IsAlreadyExists conflict"
  by (simp_all add: not_found_def already_exists_def conflict_def IsNotFound_def IsAlreadyExists_def)

definition get_item :: "('k \<times> 'a) list \<Rightarrow> 'k \<Rightarrow> api_error + 'a" where
  "get_item is k = (case map_of is k of None \<Rightarrow> Inl not_found | Some a \<Rightarrow> Inr a)"

fun selects :: "list_option \<Rightarrow> object_meta \<Rightarrow> bool" where
  "selects (InNamespace ns) om \<longleftrightarrow> om_Namespace om = ns"
| "selects (MatchingLabels ls) om \<longleftrightarrow> list_all (\<lambda>(k, v). map_of (om_Labels om) k = Some v) ls"

definition list_items :: "('a \<Rightarrow> object_meta) \<Rightarrow> list_option list \<Rightarrow> 'a items \<Rightarrow> 'a list" where
  "list_items meta os is = filter (\<lambda>a. list_all (\<lambda>opt. selects opt (meta a)) os) (map snd is)"

definition patch_item ::
  "('a \<Rightarrow> object_meta) \<Rightarrow> ('a \<Rightarrow> 'a \<Rightarrow> 'a \<Rightarrow> 'a) \<Rightarrow> (nat \<Rightarrow> 'a \<Rightarrow> 'a) \<Rightarrow> 'a \<Rightarrow> 'a \<Rightarrow> 'a items \<Rightarrow> nat \<Rightarrow>
   (api_error + 'a) \<times> 'a items \<times> nat" where
  "patch_item meta merge stamp b m is v =
     (case map_of is (key_of (meta m)) of
        None \<Rightarrow> (Inl not_found, is, v)
      | Some cur \<Rightarrow>
          if om_ResourceVersion (meta b) \<noteq> om_ResourceVersion (meta cur) then (Inl conflict, is, v)
          else if merge b m cur = cur then (Inr cur, is, v)
          else (let new = stamp (Suc v) (merge b m cur)
                in (Inr new, AList.update (key_of (meta m)) new is, Suc v)))"

definition create_item ::
  "('a \<Rightarrow> object_meta) \<Rightarrow> (nat \<Rightarrow> 'a \<Rightarrow> 'a) \<Rightarrow> 'a \<Rightarrow> 'a items \<Rightarrow> nat \<Rightarrow> (api_error + unit) \<times> 'a items \<times> nat" where
  "create_item meta stamp a is v =
     (if map_of is (key_of (meta a)) \<noteq> None then (Inl already_exists, is, v)
      else (Inr (), is @ [(key_of (meta a), stamp (Suc v) a)], Suc v))"

text \<open>A field of a merge patch is sent when the patch changes it.\<close>

definition merge_field :: "'b \<Rightarrow> 'b \<Rightarrow> 'b \<Rightarrow> 'b" where
  "merge_field b m cur = (if b = m then cur else m)"

definition merge_map :: "'v go_map \<Rightarrow> 'v go_map \<Rightarrow> 'v go_map \<Rightarrow> 'v go_map" where
  "merge_map b m cur =
     fold (\<lambda>k d. if map_of b k = map_of m k then d else AList.update k (the (map_of m k)) d) (map fst m)
       (fold (\<lambda>k d. if k \<in> set (map fst m) then d else AList.delete k d) (map fst b) cur)"

definition merge_data :: "bytes go_map option \<Rightarrow> bytes go_map option \<Rightarrow> bytes go_map option \<Rightarrow> bytes go_map option" where
  "merge_data b m cur =
     (let items = (\<lambda>d. case d of None \<Rightarrow> [] | Some is \<Rightarrow> is)
      in if b = m then cur else Some (merge_map (items b) (items m) (items cur)))"

definition merge_meta :: "object_meta \<Rightarrow> object_meta \<Rightarrow> object_meta \<Rightarrow> object_meta" where
  "merge_meta b m cur = cur\<lparr>om_Labels := merge_field (om_Labels b) (om_Labels m) (om_Labels cur),
     om_Annotations := merge_field (om_Annotations b) (om_Annotations m) (om_Annotations cur)\<rparr>"

definition merge_cluster :: "cluster \<Rightarrow> cluster \<Rightarrow> cluster \<Rightarrow> cluster" where
  "merge_cluster b m cur = cur\<lparr>cl_meta := merge_meta (cl_meta b) (cl_meta m) (cl_meta cur),
     cl_Paused := merge_field (cl_Paused b) (cl_Paused m) (cl_Paused cur),
     cl_ControlPlaneRef := merge_field (cl_ControlPlaneRef b) (cl_ControlPlaneRef m) (cl_ControlPlaneRef cur)\<rparr>"

definition merge_secret :: "secret \<Rightarrow> secret \<Rightarrow> secret \<Rightarrow> secret" where
  "merge_secret b m cur = cur\<lparr>sec_meta := merge_meta (sec_meta b) (sec_meta m) (sec_meta cur),
     sec_Data := merge_data (sec_Data b) (sec_Data m) (sec_Data cur)\<rparr>"

text \<open>The main resource of a restore ignores its status, the status resource all but it.\<close>

definition merge_restore :: "ETCDSnapshotRestore \<Rightarrow> ETCDSnapshotRestore \<Rightarrow> ETCDSnapshotRestore \<Rightarrow> ETCDSnapshotRestore" where
  "merge_restore b m cur = cur\<lparr>sr_meta := merge_meta (sr_meta b) (sr_meta m) (sr_meta cur),
     sr_Spec := merge_field (sr_Spec b) (sr_Spec m) (sr_Spec cur)\<rparr>"

definition merge_restore_status :: "ETCDSnapshotRestore \<Rightarrow> ETCDSnapshotRestore \<Rightarrow> ETCDSnapshotRestore \<Rightarrow> ETCDSnapshotRestore" where
  "merge_restore_status b m cur = cur\<lparr>sr_Status := \<lparr>
     srst_Phase = merge_field (sr_Phase b) (sr_Phase m) (sr_Phase cur),
     srst_Conditions = merge_field (srst_Conditions (sr_Status b)) (srst_Conditions (sr_Status m))
       (srst_Conditions (sr_Status cur))\<rparr>\<rparr>"

definition stamp_meta :: "nat \<Rightarrow> object_meta \<Rightarrow> object_meta" where
  "stamp_meta v om = om\<lparr>om_ResourceVersion := v\<rparr>"

definition stamp_cluster :: "nat \<Rightarrow> cluster \<Rightarrow> cluster" where
  "stamp_cluster v a = a\<lparr>cl_meta := stamp_meta v (cl_meta a)\<rparr>"

definition stamp_secret :: "nat \<Rightarrow> secret \<Rightarrow> secret" where
  "stamp_secret v a = a\<lparr>sec_meta := stamp_meta v (sec_meta a)\<rparr>"

definition stamp_restore :: "nat \<Rightarrow> ETCDSnapshotRestore \<Rightarrow> ETCDSnapshotRestore" where
  "stamp_restore v a = a\<lparr>sr_meta := stamp_meta v (sr_meta a)\<rparr>"

fun create_object :: "api_object \<Rightarrow> (store, unit) api" where
  "create_object (OServiceAccount x) w =
     (case create_item sa_meta (\<lambda>v a. a\<lparr>sa_meta := stamp_meta v (sa_meta a)\<rparr>) x (st_service_accounts w) (st_version w) of
        (r, is, v) \<Rightarrow> (r, w\<lparr>st_service_accounts := is, st_version := v\<rparr>))"
| "create_object (OSecret x) w =
     (case create_item sec_meta stamp_secret x (st_secrets w) (st_version w) of
        (r, is, v) \<Rightarrow> (r, w\<lparr>st_secrets := is, st_version := v\<rparr>))"
| "create_object (ORole x) w =
     (case create_item ro_meta (\<lambda>v a. a\<lparr>ro_meta := stamp_meta v (ro_meta a)\<rparr>) x (st_roles w) (st_version w) of
        (r, is, v) \<Rightarrow> (r, w\<lparr>st_roles := is, st_version := v\<rparr>))"
| "create_object (ORoleBinding x) w =
     (case create_item rb_meta (\<lambda>v a. a\<lparr>rb_meta := stamp_meta v (rb_meta a)\<rparr>) x (st_role_bindings w) (st_version w) of
        (r, is, v) \<Rightarrow> (r, w\<lparr>st_role_bindings := is, st_version := v\<rparr>))"
| "create_object (OEtcdMachineBackup x) w =
     (case create_item mb_meta (\<lambda>v a. a\<lparr>mb_meta := stamp_meta v (mb_meta a)\<rparr>) x (st_backups w) (st_version w) of
        (r, is, v) \<Rightarrow> (r, w\<lparr>st_backups := is, st_version := v\<rparr>))"

definition server :: "store client" where
  "server = \<lparr>
     get_ETCDSnapshotRestore = (\<lambda>k w. (get_item (st_restores w) k, w)),
     get_EtcdMachineBackup = (\<lambda>k w. (get_item (st_backups w) k, w)),
     get_Cluster = (\<lambda>k w. (get_item (st_clusters w) k, w)),
     get_RKE2Config = (\<lambda>k w. (get_item (st_configs w) k, w)),
     get_Secret = (\<lambda>k w. (get_item (st_secrets w) k, w)),
     get_Unstructured = (\<lambda>g k w. (get_item (st_unstructured w) (g, k), w)),
     list_Machine = (\<lambda>os w. (Inr (list_items mc_meta os (st_machines w)), w)),
     list_Secret = (\<lambda>os w. (Inr (list_items sec_meta os (st_secrets w)), w)),
     create = create_object,
     patch_Cluster = (\<lambda>b m w.
       case patch_item cl_meta merge_cluster stamp_cluster b m (st_clusters w) (st_version w) of
         (r, is, v) \<Rightarrow> (r, w\<lparr>st_clusters := is, st_version := v\<rparr>)),
     patch_Secret = (\<lambda>b m w.
       case patch_item sec_meta merge_secret stamp_secret b m (st_secrets w) (st_version w) of
         (r, is, v) \<Rightarrow> (r, w\<lparr>st_secrets := is, st_version := v\<rparr>)),
     patch_ETCDSnapshotRestore = (\<lambda>b m w.
       case patch_item sr_meta merge_restore stamp_restore b m (st_restores w) (st_version w) of
         (r, is, v) \<Rightarrow> (r, w\<lparr>st_restores := is, st_version := v\<rparr>)),
     patch_ETCDSnapshotRestore_status = (\<lambda>b m w.
       case patch_item sr_meta merge_restore_status stamp_restore b m (st_restores w) (st_version w) of
         (r, is, v) \<Rightarrow> (r, w\<lparr>st_restores := is, st_version := v\<rparr>))\<rparr>"

section \<open>The server satisfies the laws\<close>

lemma patch_item_current:
  assumes "map_of is (key_of (meta m)) = Some a"
    and "om_ResourceVersion (meta b) = om_ResourceVersion (meta a)"
    and "\<And>x. stamp (om_ResourceVersion (meta x)) x = x"
  shows "\<exists>u v' is'. patch_item meta merge stamp b m is v = (Inr (stamp u (merge b m a)), is', v') \<and>
    map_of is' = (map_of is)(key_of (meta m) \<mapsto> stamp u (merge b m a))"
proof (cases "merge b m a = a")
  case True
  with assms show ?thesis
    by (intro exI [of _ "om_ResourceVersion (meta a)"] exI [of _ v] exI [of _ "is"])
      (auto simp: patch_item_def)
next
  case False
  with assms show ?thesis
    by (intro exI [of _ "Suc v"] exI [of _ "AList.update (key_of (meta m)) (stamp (Suc v) (merge b m a)) is"])
      (simp add: patch_item_def Let_def update_conv')
qed

lemma patch_item_stale:
  "map_of is (key_of (meta m)) = Some a \<Longrightarrow> om_ResourceVersion (meta b) \<noteq> om_ResourceVersion (meta a) \<Longrightarrow>
     patch_item meta merge stamp b m is v = (Inl conflict, is, v)"
  by (simp add: patch_item_def)

lemma patch_item_noop:
  "map_of is (key_of (meta m)) = Some a \<Longrightarrow> om_ResourceVersion (meta b) = om_ResourceVersion (meta a) \<Longrightarrow>
     merge b m a = a \<Longrightarrow> patch_item meta merge stamp b m is v = (Inr a, is, v)"
  by (simp add: patch_item_def)

lemma stamp_same [simp]:
  "stamp_cluster (om_ResourceVersion (cl_meta a)) a = a"
  "stamp_secret (om_ResourceVersion (sec_meta s)) s = s"
  "stamp_restore (om_ResourceVersion (sr_meta r)) r = r"
  by (simp_all add: stamp_cluster_def stamp_secret_def stamp_restore_def stamp_meta_def)

interpretation clusters: kind_api "get_Cluster server" "patch_Cluster server"
  "\<lambda>w. map_of (st_clusters w)" "\<lambda>w. w\<lparr>st_clusters := [], st_version := 0\<rparr>"
  cl_meta merge_cluster stamp_cluster
proof unfold_locales
  show "\<exists>v w'. patch_Cluster server b m w = (Inr (stamp_cluster v (merge_cluster b m a)), w') \<and>
      map_of (st_clusters w') = (map_of (st_clusters w))(key_of (cl_meta m) \<mapsto> stamp_cluster v (merge_cluster b m a)) \<and>
      w'\<lparr>st_clusters := [], st_version := 0\<rparr> = w\<lparr>st_clusters := [], st_version := 0\<rparr>"
    if "map_of (st_clusters w) (key_of (cl_meta m)) = Some a"
      "om_ResourceVersion (cl_meta b) = om_ResourceVersion (cl_meta a)" for w m a b
    using patch_item_current [of "st_clusters w" cl_meta m a b stamp_cluster merge_cluster "st_version w", OF that stamp_same(1)]
    by (auto simp: server_def)
qed (auto simp: server_def get_item_def patch_item_stale patch_item_noop)

interpretation secrets: kind_api "get_Secret server" "patch_Secret server"
  "\<lambda>w. map_of (st_secrets w)" "\<lambda>w. w\<lparr>st_secrets := [], st_version := 0\<rparr>"
  sec_meta merge_secret stamp_secret
proof unfold_locales
  show "\<exists>v w'. patch_Secret server b m w = (Inr (stamp_secret v (merge_secret b m a)), w') \<and>
      map_of (st_secrets w') = (map_of (st_secrets w))(key_of (sec_meta m) \<mapsto> stamp_secret v (merge_secret b m a)) \<and>
      w'\<lparr>st_secrets := [], st_version := 0\<rparr> = w\<lparr>st_secrets := [], st_version := 0\<rparr>"
    if "map_of (st_secrets w) (key_of (sec_meta m)) = Some a"
      "om_ResourceVersion (sec_meta b) = om_ResourceVersion (sec_meta a)" for w m a b
    using patch_item_current [of "st_secrets w" sec_meta m a b stamp_secret merge_secret "st_version w", OF that stamp_same(2)]
    by (auto simp: server_def)
qed (auto simp: server_def get_item_def patch_item_stale patch_item_noop)

interpretation restores: kind_api "get_ETCDSnapshotRestore server" "patch_ETCDSnapshotRestore server"
  "\<lambda>w. map_of (st_restores w)" "\<lambda>w. w\<lparr>st_restores := [], st_version := 0\<rparr>"
  sr_meta merge_restore stamp_restore
proof unfold_locales
  show "\<exists>v w'. patch_ETCDSnapshotRestore server b m w = (Inr (stamp_restore v (merge_restore b m a)), w') \<and>
      map_of (st_restores w') = (map_of (st_restores w))(key_of (sr_meta m) \<mapsto> stamp_restore v (merge_restore b m a)) \<and>
      w'\<lparr>st_restores := [], st_version := 0\<rparr> = w\<lparr>st_restores := [], st_version := 0\<rparr>"
    if "map_of (st_restores w) (key_of (sr_meta m)) = Some a"
      "om_ResourceVersion (sr_meta b) = om_ResourceVersion (sr_meta a)" for w m a b
    using patch_item_current [of "st_restores w" sr_meta m a b stamp_restore merge_restore "st_version w", OF that stamp_same(3)]
    by (auto simp: server_def)
qed (auto simp: server_def get_item_def patch_item_stale patch_item_noop)

interpretation statuses: kind_api "get_ETCDSnapshotRestore server" "patch_ETCDSnapshotRestore_status server"
  "\<lambda>w. map_of (st_restores w)" "\<lambda>w. w\<lparr>st_restores := [], st_version := 0\<rparr>"
  sr_meta merge_restore_status stamp_restore
proof unfold_locales
  show "\<exists>v w'. patch_ETCDSnapshotRestore_status server b m w = (Inr (stamp_restore v (merge_restore_status b m a)), w') \<and>
      map_of (st_restores w') = (map_of (st_restores w))(key_of (sr_meta m) \<mapsto> stamp_restore v (merge_restore_status b m a)) \<and>
      w'\<lparr>st_restores := [], st_version := 0\<rparr> = w\<lparr>st_restores := [], st_version := 0\<rparr>"
    if "map_of (st_restores w) (key_of (sr_meta m)) = Some a"
      "om_ResourceVersion (sr_meta b) = om_ResourceVersion (sr_meta a)" for w m a b
    using patch_item_current [of "st_restores w" sr_meta m a b stamp_restore merge_restore_status "st_version w", OF that stamp_same(3)]
    by (auto simp: server_def)
qed (auto simp: server_def get_item_def patch_item_stale patch_item_noop)

text \<open>What a patch of one entry makes of a secret.\<close>

lemma fold_delete_other:
  "set (map fst b) \<subseteq> set (map fst m) \<Longrightarrow>
     fold (\<lambda>k d. if k \<in> set (map fst m) then d else AList.delete k d) (map fst b) cur = cur"
  by (induction b) auto

lemma map_of_fold_update:
  "map_of (fold (\<lambda>k d. if P k then d else AList.update k (f k) d) ks d) k =
     (if k \<in> set ks \<and> \<not> P k then Some (f k) else map_of d k)"
  by (induction ks arbitrary: d) (auto simp: update_conv')

lemma map_of_merge_assign:
  "map_of (merge_map d (map_assign k v d) d) k' = map_of (map_assign k v d) k'"
proof -
  have keys: "set (map fst (map_assign k v d)) = insert k (set (map fst d))"
    using dom_update [of k v d] by simp
  show ?thesis
    unfolding merge_map_def
    by (subst fold_delete_other) (auto simp: map_of_fold_update update_conv' keys [simplified])
qed

lemma merge_meta_same [simp]: "merge_meta om om cur = cur"
  by (simp add: merge_meta_def merge_field_def)

lemma merge_secret_assign:
  assumes "sec_Data base = Some d" and "sec_Data s = Some d \<or> sec_Data s = None \<and> d = []"
  shows "secret_data (merge_secret base (base\<lparr>sec_Data := Some (map_assign k v d)\<rparr>) s) k' =
      (if k' = k then v else secret_data s k')"
    and "sec_meta (merge_secret base (base\<lparr>sec_Data := Some (map_assign k v d)\<rparr>) s) = sec_meta s"
proof -
  have fixed: "map_of d k = Some v" if "d = map_assign k v d"
    using that by (metis fun_upd_same update_conv')
  have empty_data: "merge_map [] [(k, v)] [] = [(k, v)]" by (simp add: merge_map_def)
  show "secret_data (merge_secret base (base\<lparr>sec_Data := Some (map_assign k v d)\<rparr>) s) k' =
      (if k' = k then v else secret_data s k')"
    using assms fixed
    by (auto simp: merge_secret_def merge_data_def secret_data_def map_index_def map_of_merge_assign
        update_conv' Let_def empty_data)
  show "sec_meta (merge_secret base (base\<lparr>sec_Data := Some (map_assign k v d)\<rparr>) s) = sec_meta s"
    by (simp add: merge_secret_def)
qed

lemma stamp_simps [simp]:
  "secret_data (stamp_secret v s) k = secret_data s k" "sec_Data (stamp_secret v s) = sec_Data s"
  "key_of (sec_meta (stamp_secret v s)) = key_of (sec_meta s)"
  "cl_Paused (stamp_cluster v cl) = cl_Paused cl" "key_of (cl_meta (stamp_cluster v cl)) = key_of (cl_meta cl)"
  "sr_Status (stamp_restore v r) = sr_Status r" "sr_Spec (stamp_restore v r) = sr_Spec r"
  "key_of (sr_meta (stamp_restore v r)) = key_of (sr_meta r)"
  "om_DeletionTimestamp (sr_meta (stamp_restore v r)) = om_DeletionTimestamp (sr_meta r)"
  "om_Namespace (sr_meta (stamp_restore v r)) = om_Namespace (sr_meta r)"
  by (simp_all add: stamp_secret_def stamp_cluster_def stamp_restore_def stamp_meta_def secret_data_def)

section \<open>The servers a restore relies on\<close>

text \<open>
  What the restore controller needs of the API server it runs against: the laws of
  \<^const>\<open>kind_api\<close> for the clusters, the secrets, the restores and their status, and that
  the other reads return what is stored. A store is the state of the server as its objects.
\<close>

locale restore_api =
  clusters: kind_api "get_Cluster c" "patch_Cluster c"
    "\<lambda>w. map_of (st_clusters w)" "\<lambda>w. w\<lparr>st_clusters := [], st_version := 0\<rparr>"
    cl_meta merge_cluster stamp_cluster +
  secrets: kind_api "get_Secret c" "patch_Secret c"
    "\<lambda>w. map_of (st_secrets w)" "\<lambda>w. w\<lparr>st_secrets := [], st_version := 0\<rparr>"
    sec_meta merge_secret stamp_secret +
  restores: kind_api "get_ETCDSnapshotRestore c" "patch_ETCDSnapshotRestore c"
    "\<lambda>w. map_of (st_restores w)" "\<lambda>w. w\<lparr>st_restores := [], st_version := 0\<rparr>"
    sr_meta merge_restore stamp_restore +
  statuses: kind_api "get_ETCDSnapshotRestore c" "patch_ETCDSnapshotRestore_status c"
    "\<lambda>w. map_of (st_restores w)" "\<lambda>w. w\<lparr>st_restores := [], st_version := 0\<rparr>"
    sr_meta merge_restore_status stamp_restore
  for c :: "store client" +
  assumes get_config: "map_of (st_configs w) k = Some cfg \<Longrightarrow> get_RKE2Config c k w = (Inr cfg, w)"
    and get_backup: "map_of (st_backups w) k = Some b \<Longrightarrow> get_EtcdMachineBackup c k w = (Inr b, w)"
    and list_machines: "list_Machine c os w = (Inr (list_items mc_meta os (st_machines w)), w)"

interpretation restore_server: restore_api server
  by unfold_locales (simp_all add: server_def get_item_def)

end
