(* ===== verification/Restore_Progress.thy ===== *)
theory Restore_Progress
  imports Restore_Reconcile Api_Store
begin

text \<open>
  A restore on a live cluster. Against every API server with the laws of \<open>restore_api\<close>, and for a cluster set up
  as the operator's users set it up, one reconciliation refines one step of an abstract
  machine that knows only the phase, the pause and, for each machine, its plan and the
  checksum its agent reports; repeated reconciliation with the agents running brings every
  restore to its end.
\<close>

section \<open>A cluster to restore\<close>

text \<open>The names of a restore's objects, with the machines in the order they are listed.\<close>

record site =
  si_req :: object_key
  si_cluster :: string
  si_backup :: EtcdMachineBackup
  si_machines :: "machine list"
  si_init :: machine

definition plan_key :: "store \<Rightarrow> machine \<Rightarrow> object_key option" where
  "plan_key w m = Option.bind (mc_ConfigRef m) (\<lambda>ref.
     map_option (\<lambda>cfg. key (mc_Namespace m) (plan_secret_name cfg))
       (map_of (st_configs w) (key (mc_Namespace m) (or_Name ref))))"

definition plan_secret_of :: "store \<Rightarrow> machine \<Rightarrow> secret option" where
  "plan_secret_of w m = Option.bind (plan_key w m) (map_of (st_secrets w))"

text \<open>An agent that reports a plan as applied leaves an output the controller can read.\<close>

definition output_ok :: "codec \<Rightarrow> secret \<Rightarrow> bool" where
  "output_ok cd s \<longleftrightarrow> secret_data s ''applied-checksum'' = [] \<or>
     (case decompressPlanOutput cd s of Inr m \<Rightarrow> True | Inl e \<Rightarrow> False)"

definition plan_secret_ok :: "codec \<Rightarrow> store \<Rightarrow> machine \<Rightarrow> bool" where
  "plan_secret_ok cd w m \<longleftrightarrow> (case (plan_key w m, plan_secret_of w m) of
     (Some k, Some s) \<Rightarrow> key_of (sec_meta s) = k \<and> output_ok cd s
   | _ \<Rightarrow> False)"

definition site_fixed :: "site \<Rightarrow> store \<Rightarrow> bool" where
  "site_fixed S w \<longleftrightarrow>
     si_cluster S \<noteq> [] \<and> om_Name (mb_meta (si_backup S)) \<noteq> [] \<and>
     map_of (st_backups w) (key (ok_Namespace (si_req S)) (om_Name (mb_meta (si_backup S)))) = Some (si_backup S) \<and>
     list_items mc_meta [InNamespace (ok_Namespace (si_req S)), MatchingLabels [(ClusterNameLabel, si_cluster S)]]
       (st_machines w) = si_machines S \<and>
     list_all (\<lambda>m. mc_Phase m = MachinePhaseRunning) (si_machines S) \<and>
     distinct (map (plan_key w) (si_machines S)) \<and> distinct (map mc_Name (si_machines S)) \<and>
     find (\<lambda>m. mc_Name m = mbs_MachineName (mb_Spec (si_backup S))) (si_machines S) = Some (si_init S) \<and>
     mbs_Location (mb_Spec (si_backup S)) \<noteq> [] \<and> getInternalMachineIP (si_init S) \<noteq> []"

definition site_restore :: "site \<Rightarrow> store \<Rightarrow> bool" where
  "site_restore S w \<longleftrightarrow> (case map_of (st_restores w) (si_req S) of
     Some r \<Rightarrow> key_of (sr_meta r) = si_req S \<and> om_DeletionTimestamp (sr_meta r) = None \<and>
       srs_ClusterName (sr_Spec r) = si_cluster S \<and>
       srs_EtcdMachineBackupName (sr_Spec r) = om_Name (mb_meta (si_backup S))
   | None \<Rightarrow> False)"

definition site_cluster :: "site \<Rightarrow> store \<Rightarrow> bool" where
  "site_cluster S w \<longleftrightarrow> (case map_of (st_clusters w) (key (ok_Namespace (si_req S)) (si_cluster S)) of
     Some cl \<Rightarrow> key_of (cl_meta cl) = key (ok_Namespace (si_req S)) (si_cluster S)
   | None \<Rightarrow> False)"

definition site_phase :: "site \<Rightarrow> store \<Rightarrow> ETCDSnapshotPhase" where
  "site_phase S w = (case map_of (st_restores w) (si_req S) of None \<Rightarrow> [] | Some r \<Rightarrow> sr_Phase r)"

definition site_paused :: "site \<Rightarrow> store \<Rightarrow> bool" where
  "site_paused S w = (case map_of (st_clusters w) (key (ok_Namespace (si_req S)) (si_cluster S)) of
     None \<Rightarrow> False | Some cl \<Rightarrow> cl_Paused cl)"

text \<open>The init machine's plan secret has data before it is asked to start.\<close>

definition init_has_data :: "site \<Rightarrow> store \<Rightarrow> bool" where
  "init_has_data S w \<longleftrightarrow> (case plan_secret_of w (si_init S) of None \<Rightarrow> False | Some s \<Rightarrow> sec_Data s \<noteq> None)"

definition site_ok :: "codec \<Rightarrow> site \<Rightarrow> store \<Rightarrow> bool" where
  "site_ok cd S w \<longleftrightarrow> site_fixed S w \<and> site_restore S w \<and> site_cluster S w \<and>
     list_all (plan_secret_ok cd w) (si_machines S) \<and>
     (site_phase S w = ETCDSnapshotPhaseRestore \<longrightarrow> init_has_data S w)"

section \<open>The abstract machine\<close>

text \<open>For each machine by name: its plan, and the checksum its agent reports.\<close>

record progress =
  pg_phase :: ETCDSnapshotPhase
  pg_paused :: bool
  pg_machines :: "(string \<times> bytes \<times> bytes) list"

definition entry_of :: "store \<Rightarrow> machine \<Rightarrow> bytes \<times> bytes" where
  "entry_of w m = (case plan_secret_of w m of
     None \<Rightarrow> ([], []) | Some s \<Rightarrow> (secret_data s ''plan'', secret_data s ''applied-checksum''))"

definition view :: "site \<Rightarrow> store \<Rightarrow> progress" where
  "view S w = \<lparr>pg_phase = site_phase S w, pg_paused = site_paused S w,
     pg_machines = map (\<lambda>m. (mc_Name m, entry_of w m)) (si_machines S)\<rparr>"

definition write_plan :: "bytes \<Rightarrow> string \<Rightarrow> progress \<Rightarrow> progress" where
  "write_plan p nm v =
     v\<lparr>pg_machines := map (\<lambda>(n, q, a). (n, if n = nm then p else q, a)) (pg_machines v)\<rparr>"

definition has_applied :: "progress \<Rightarrow> bytes \<Rightarrow> string \<Rightarrow> bool" where
  "has_applied v p nm \<longleftrightarrow> list_all (\<lambda>(n, q, a). n = nm \<longrightarrow> a = plan_checksum p) (pg_machines v)"

definition names :: "progress \<Rightarrow> string list" where "names v = map fst (pg_machines v)"

text \<open>One reconciliation, as the abstract machine sees it.\<close>

definition advance :: "site \<Rightarrow> progress \<Rightarrow> progress" where
  "advance S v0 =
     (let v = v0\<lparr>pg_paused := True\<rparr>;
          im = mc_Name (si_init S);
          kill = plan_bytes kill_instructions;
          restore = plan_bytes (restore_instructions (si_backup S));
          start = plan_bytes start_instructions;
          join = plan_bytes (join_instructions (getInternalMachineIP (si_init S)));
          others = filter (\<lambda>n. n \<noteq> im) (names v)
      in if pg_phase v = [] \<or> pg_phase v = ETCDSnapshotPhaseStarted then
           (fold (write_plan kill) (names v) v)
             \<lparr>pg_phase := if list_all (has_applied v kill) (names v) then ETCDSnapshotPhaseShutdown
                          else ETCDSnapshotPhaseStarted\<rparr>
         else if pg_phase v = ETCDSnapshotPhaseShutdown then
           (write_plan restore im v)
             \<lparr>pg_phase := if has_applied v restore im then ETCDSnapshotPhaseRestore
                          else ETCDSnapshotPhaseShutdown\<rparr>
         else if pg_phase v = ETCDSnapshotPhaseRestore then
           (if \<not> has_applied v start im then write_plan start im v
            else (fold (write_plan join) others (write_plan start im v))
              \<lparr>pg_phase := if list_all (has_applied v join) others then ETCDSnapshotPhaseFinished
                           else ETCDSnapshotPhaseRestore\<rparr>)
         else if pg_phase v = ETCDSnapshotPhaseFinished then v\<lparr>pg_paused := False\<rparr>
         else v)"

text \<open>The wait it asks for: half a minute when a stage is not over, no other run otherwise.\<close>

definition wait_of :: "site \<Rightarrow> progress \<Rightarrow> ctrl_result" where
  "wait_of S v =
     (let p = (if pg_phase v = [] then ETCDSnapshotPhaseStarted else pg_phase v)
      in if p \<in> {ETCDSnapshotPhaseStarted, ETCDSnapshotPhaseShutdown, ETCDSnapshotPhaseRestore}
            \<and> pg_phase (advance S v) = p
         then thirty_seconds else no_requeue)"

section \<open>Plan secrets on the server\<close>

lemma plan_secret_okE:
  assumes "plan_secret_ok cd w m"
  obtains ref cfg k s where "mc_ConfigRef m = Some ref"
    "map_of (st_configs w) (key (mc_Namespace m) (or_Name ref)) = Some cfg"
    "k = key (mc_Namespace m) (plan_secret_name cfg)" "plan_key w m = Some k"
    "map_of (st_secrets w) k = Some s" "plan_secret_of w m = Some s"
    "key_of (sec_meta s) = k" "output_ok cd s"
  using assms unfolding plan_secret_ok_def plan_secret_of_def plan_key_def
  by (cases "mc_ConfigRef m") (auto split: option.splits)

context restore_api begin

lemma call_config:
  "map_of (st_configs w) k = Some cfg \<Longrightarrow> call (get_RKE2Config c k) w = (Return cfg, w)"
  by (simp add: call_def get_config)

lemma getPlanSecret_server:
  assumes "plan_secret_ok cd w m" and "plan_secret_of w m = Some s"
  shows "getPlanSecretForMachine c m w = (Return s, w)"
  using assms(1)
proof (rule plan_secret_okE)
  fix ref cfg k s'
  assume *: "mc_ConfigRef m = Some ref"
    "map_of (st_configs w) (key (mc_Namespace m) (or_Name ref)) = Some cfg"
    "k = key (mc_Namespace m) (plan_secret_name cfg)"
    "map_of (st_secrets w) k = Some s'" "plan_secret_of w m = Some s'"
  with assms(2) have "s' = s" by simp
  with * secrets.call_get [of w k s] show ?thesis
    by (simp add: getPlanSecretForMachine_def bind_err_Return [OF call_config] bind_err_Return ret_run)
qed

end

text \<open>Two states that differ in the plan secret of one machine, and in its plan only.\<close>

definition rewritten :: "machine \<Rightarrow> bytes \<Rightarrow> store \<Rightarrow> store \<Rightarrow> bool" where
  "rewritten m p w w' \<longleftrightarrow>
     w'\<lparr>st_secrets := [], st_version := 0\<rparr> = w\<lparr>st_secrets := [], st_version := 0\<rparr> \<and>
     (\<exists>k s s'. plan_key w m = Some k \<and> map_of (st_secrets w) k = Some s \<and>
        map_of (st_secrets w') = (map_of (st_secrets w))(k \<mapsto> s') \<and>
        key_of (sec_meta s') = key_of (sec_meta s) \<and> sec_Data s' \<noteq> None \<and>
        (\<forall>e. secret_data s' e = (if e = ''plan'' then p else secret_data s e)))"

lemma rewrittenI:
  assumes "w'\<lparr>st_secrets := [], st_version := 0\<rparr> = w\<lparr>st_secrets := [], st_version := 0\<rparr>"
    and "plan_key w m = Some k" "map_of (st_secrets w) k = Some s"
    and "map_of (st_secrets w') = (map_of (st_secrets w))(k \<mapsto> s')"
    and "key_of (sec_meta s') = key_of (sec_meta s)" "sec_Data s' \<noteq> None"
    and "\<And>e. secret_data s' e = (if e = ''plan'' then p else secret_data s e)"
  shows "rewritten m p w w'"
  using assms unfolding rewritten_def by blast

context restore_api begin

lemma updatePlanSecret_server:
  assumes ok: "plan_secret_ok cd w m" and s: "plan_secret_of w m = Some s"
    and base: "base = s \<and> sec_Data s \<noteq> None \<or> base = ensure_data s" and p: "p \<noteq> []"
  obtains w' s' where "updatePlanSecretWithPlan c (Some x) base p w = (Return s', w')"
    "rewritten m p w w'" "secret_data s' ''applied-checksum'' = secret_data s ''applied-checksum''"
    "decompressPlanOutput cd s' = decompressPlanOutput cd s"
proof -
  from ok s obtain k where k: "plan_key w m = Some k" "map_of (st_secrets w) k = Some s" "key_of (sec_meta s) = k"
    by (auto elim: plan_secret_okE)
  obtain d where d: "sec_Data base = Some d" "sec_Data s = Some d \<or> sec_Data s = None \<and> d = []"
    and base_data: "secret_data base e = secret_data s e" "sec_meta base = sec_meta s" for e
    using base by (cases "sec_Data s") (auto simp: ensure_data_def secret_data_def)
  show thesis
  proof (cases "secret_data base ''plan'' = p")
    case True
    with p base_data have "sec_Data s \<noteq> None" by (auto simp: secret_data_def split: option.splits)
    with base have "base = s" by (auto simp: ensure_data_def split: option.splits)
    have "rewritten m p w w"
      by (rule rewrittenI [OF _ k(1,2), of _ s])
        (use True k \<open>sec_Data s \<noteq> None\<close> \<open>base = s\<close> in \<open>auto simp: fun_upd_idem\<close>)
    with that [of s w] True show thesis
      unfolding \<open>base = s\<close> by (simp add: updatePlanSecretWithPlan_def ret_run)
  next
    case False
    let ?m = "base\<lparr>sec_Data := Some (map_assign ''plan'' p d)\<rparr>"
    obtain v w' where patch: "call (patch_Secret c base ?m) w = (Return (stamp_secret v (merge_secret base ?m s)), w')"
      "map_of (st_secrets w') = (map_of (st_secrets w))(k \<mapsto> stamp_secret v (merge_secret base ?m s))"
      "w'\<lparr>st_secrets := [], st_version := 0\<rparr> = w\<lparr>st_secrets := [], st_version := 0\<rparr>"
      using secrets.call_patch [of w k s ?m base] k base_data(2) by auto
    note data = merge_secret_assign [OF d]
    have "rewritten m p w w'"
    proof (rule rewrittenI [OF patch(3) k(1,2) patch(2)])
      show "sec_Data (stamp_secret v (merge_secret base ?m s)) \<noteq> None"
        using data(1) [of "''plan''" p "''plan''"] p
        by (auto simp: secret_data_def split: option.splits)
    qed (simp_all add: data)
    with that patch False d data show thesis
      by (simp add: updatePlanSecretWithPlan_def bind_err_Return ret_run decompressPlanOutput_def)
  qed
qed

end

text \<open>Such a step keeps the site and writes the plan in its view.\<close>

lemma rewritten_rest:
  assumes "rewritten m p w w'"
  shows "st_restores w' = st_restores w" "st_backups w' = st_backups w" "st_clusters w' = st_clusters w"
    "st_machines w' = st_machines w" "st_configs w' = st_configs w" "plan_key w' = plan_key w"
proof -
  have eq: "w'\<lparr>st_secrets := [], st_version := 0\<rparr> = w\<lparr>st_secrets := [], st_version := 0\<rparr>"
    using assms by (simp add: rewritten_def)
  from arg_cong [OF eq, of st_restores] show "st_restores w' = st_restores w" by simp
  from arg_cong [OF eq, of st_backups] show "st_backups w' = st_backups w" by simp
  from arg_cong [OF eq, of st_clusters] show "st_clusters w' = st_clusters w" by simp
  from arg_cong [OF eq, of st_machines] show "st_machines w' = st_machines w" by simp
  from arg_cong [OF eq, of st_configs] show configs: "st_configs w' = st_configs w" by simp
  show "plan_key w' = plan_key w" unfolding plan_key_def configs ..
qed

lemma rewritten_secret:
  assumes "rewritten m p w w'" and "m \<in> set ms" and "m' \<in> set ms"
    and "distinct (map (plan_key w) ms)" and "plan_secret_of w m' = Some s"
  obtains s' where "plan_secret_of w' m' = Some s'" "key_of (sec_meta s') = key_of (sec_meta s)"
    "sec_Data s \<noteq> None \<or> m' = m \<Longrightarrow> sec_Data s' \<noteq> None"
    "\<And>e. secret_data s' e = (if m' = m \<and> e = ''plan'' then p else secret_data s e)"
proof -
  from assms(1) obtain k s0 s1 where k: "plan_key w m = Some k" "map_of (st_secrets w) k = Some s0"
    "map_of (st_secrets w') = (map_of (st_secrets w))(k \<mapsto> s1)"
    "key_of (sec_meta s1) = key_of (sec_meta s0)" "sec_Data s1 \<noteq> None"
    "\<And>e. secret_data s1 e = (if e = ''plan'' then p else secret_data s0 e)"
    unfolding rewritten_def by blast
  note keys = rewritten_rest(6) [OF assms(1)]
  show thesis
  proof (cases "m' = m")
    case True
    with k assms(5) have "s = s0" by (simp add: plan_secret_of_def)
    with that [of s1] True k keys show thesis by (simp add: plan_secret_of_def)
  next
    case False
    with assms(2-4) k(1) have "plan_key w m' \<noteq> Some k"
      by (auto simp: distinct_map inj_on_def)
    with assms(5) k(3) keys have "plan_secret_of w' m' = Some s"
      by (auto simp: plan_secret_of_def split: Option.bind_splits)
    with that [of s] False show thesis by auto
  qed
qed

lemma rewritten_site:
  assumes r: "rewritten m p w w'" and m: "m \<in> set (si_machines S)" and ok: "site_ok cd S w"
  shows "site_ok cd S w'" and "view S w' = write_plan p (mc_Name m) (view S w)"
proof -
  from ok have dist: "distinct (map (plan_key w) (si_machines S))" "distinct (map mc_Name (si_machines S))"
    and plans: "m' \<in> set (si_machines S) \<Longrightarrow> plan_secret_ok cd w m'" for m'
    by (auto simp: site_ok_def site_fixed_def list_all_iff)
  note rest = rewritten_rest [OF r]
  have fixed: "site_fixed S w'" "site_restore S w'" "site_cluster S w'"
    using ok rest by (simp_all add: site_ok_def site_fixed_def site_restore_def site_cluster_def)
  have secret: "plan_secret_ok cd w' m'" if "m' \<in> set (si_machines S)" for m'
    using plans [OF that]
  proof (rule plan_secret_okE)
    fix k s
    assume s: "plan_key w m' = Some k" "plan_secret_of w m' = Some s" "key_of (sec_meta s) = k" "output_ok cd s"
    from rewritten_secret [OF r m that dist(1) s(2)] obtain s' where
      "plan_secret_of w' m' = Some s'" "key_of (sec_meta s') = key_of (sec_meta s)"
      "\<And>e. secret_data s' e = (if m' = m \<and> e = ''plan'' then p else secret_data s e)" by metis
    with s rest(6) show ?thesis
      by (simp add: plan_secret_ok_def output_ok_def decompressPlanOutput_def)
  qed
  have "init_has_data S w'" if "init_has_data S w"
  proof -
    from that obtain s where s: "plan_secret_of w (si_init S) = Some s" "sec_Data s \<noteq> None"
      by (auto simp: init_has_data_def split: option.splits)
    have "si_init S \<in> set (si_machines S)"
      using ok by (auto simp: site_ok_def site_fixed_def find_Some_iff in_set_conv_nth)
    from rewritten_secret [OF r m this dist(1) s(1)] s(2) show ?thesis
      by (metis (mono_tags, lifting) init_has_data_def option.case(2))
  qed
  with ok fixed secret show "site_ok cd S w'"
    by (simp add: site_ok_def list_all_iff site_phase_def rest)
  have "entry_of w' m' = (if mc_Name m' = mc_Name m then p else fst (entry_of w m'), snd (entry_of w m'))"
    if m': "m' \<in> set (si_machines S)" for m'
  proof -
    have same: "mc_Name m' = mc_Name m \<longleftrightarrow> m' = m"
      using dist(2) m m' by (auto simp: distinct_map inj_on_def)
    from plans [OF m'] obtain s where s: "plan_secret_of w m' = Some s" by (auto elim: plan_secret_okE)
    from rewritten_secret [OF r m m' dist(1) s] obtain s' where
      "plan_secret_of w' m' = Some s'" "\<And>e. secret_data s' e = (if m' = m \<and> e = ''plan'' then p else secret_data s e)"
      by metis
    with s show ?thesis by (simp add: entry_of_def same)
  qed
  then show "view S w' = write_plan p (mc_Name m) (view S w)"
    using rest by (simp add: view_def write_plan_def site_phase_def site_paused_def split_def)
qed

section \<open>The handlers on the server\<close>

lemma has_applied_write_plan [simp]: "has_applied (write_plan p nm v) = has_applied v"
  by (auto simp: has_applied_def write_plan_def list_all_iff split_def fun_eq_iff)

lemma write_plan_simps [simp]:
  "pg_phase (write_plan p nm v) = pg_phase v" "pg_paused (write_plan p nm v) = pg_paused v"
  "names (write_plan p nm v) = names v"
  by (simp_all add: write_plan_def names_def split_def comp_def)

lemma fold_write_plan_simps [simp]:
  "has_applied (fold (write_plan p) ns v) = has_applied v"
  "pg_phase (fold (write_plan p) ns v) = pg_phase v" "pg_paused (fold (write_plan p) ns v) = pg_paused v"
  "names (fold (write_plan p) ns v) = names v"
  by (induction ns arbitrary: v) simp_all

lemma names_view [simp]: "names (view S w) = map mc_Name (si_machines S)"
  by (simp add: names_def view_def comp_def)

lemma site_machine:
  assumes "site_ok cd S w" and "m \<in> set (si_machines S)"
  shows "plan_secret_ok cd w m"
    and "has_applied (view S w) p (mc_Name m) \<longleftrightarrow> snd (entry_of w m) = plan_checksum p"
proof -
  show "plan_secret_ok cd w m" using assms by (simp add: site_ok_def list_all_iff)
  from assms(1) have "distinct (map mc_Name (si_machines S))" by (simp add: site_ok_def site_fixed_def)
  with assms(2) have "m' = m" if "m' \<in> set (si_machines S)" "mc_Name m' = mc_Name m" for m'
    using that by (auto simp: distinct_map inj_on_def)
  with assms(2) show "has_applied (view S w) p (mc_Name m) \<longleftrightarrow> snd (entry_of w m) = plan_checksum p"
    by (auto simp: has_applied_def view_def list_all_iff split_def)
qed

lemma site_init: "site_ok cd S w \<Longrightarrow> si_init S \<in> set (si_machines S)"
  by (auto simp: site_ok_def site_fixed_def find_Some_iff in_set_conv_nth)

lemma decompress_applied:
  assumes "output_ok cd s" and "secret_data s ''applied-checksum'' = plan_checksum p"
  obtains m where "decompressPlanOutput cd s = Inr m"
  using assms that by (auto simp: output_ok_def split: sum.splits)

context restore_api begin

text \<open>
  Fetching the plan secret of a machine, writing a plan and looking whether it is applied,
  as the handlers do it for the init machine: the secret is not fetched again.
\<close>

lemma update_site:
  assumes ok: "site_ok cd S w" and m: "m \<in> set (si_machines S)" and p: "p \<noteq> []"
    and s: "plan_secret_of w m = Some s" and base: "base = s \<and> sec_Data s \<noteq> None \<or> base = ensure_data s"
  obtains w' s' where "updatePlanSecretWithPlan c (Some x) base p w = (Return s', w')"
    "site_ok cd S w'" "view S w' = write_plan p (mc_Name m) (view S w)"
    "rewritten m p w w'"
    "isPlanApplied p (secret_data s' ''applied-checksum'') \<longleftrightarrow> has_applied (view S w) p (mc_Name m)"
    "has_applied (view S w) p (mc_Name m) \<Longrightarrow> \<exists>out. decompressPlanOutput cd s' = Inr out"
proof -
  obtain w' s' where upd: "updatePlanSecretWithPlan c (Some x) base p w = (Return s', w')"
    "rewritten m p w w'" "secret_data s' ''applied-checksum'' = secret_data s ''applied-checksum''"
    "decompressPlanOutput cd s' = decompressPlanOutput cd s"
    using updatePlanSecret_server [OF site_machine(1) [OF ok m] s base p] by blast
  have applied: "has_applied (view S w) p (mc_Name m) \<longleftrightarrow> secret_data s ''applied-checksum'' = plan_checksum p"
    using s by (simp add: site_machine(2) [OF ok m] entry_of_def)
  have "output_ok cd s" using site_machine(1) [OF ok m] s by (auto elim: plan_secret_okE)
  with that upd rewritten_site [OF upd(2) m ok] applied show thesis
    by (metis decompress_applied isPlanApplied_iff)
qed

lemma drive_plan_site:
  assumes ok: "site_ok cd S w" and m: "m \<in> set (si_machines S)" and p: "p \<noteq> []"
  obtains w' where "drive_plan c cd (Some x) m p ready w =
      (Return (ready \<and> has_applied (view S w) p (mc_Name m)), w')"
    "site_ok cd S w'" "view S w' = write_plan p (mc_Name m) (view S w)" "st_restores w' = st_restores w"
proof -
  from site_machine(1) [OF ok m] obtain s where s: "plan_secret_of w m = Some s" by (auto elim: plan_secret_okE)
  obtain w' s' where upd: "updatePlanSecretWithPlan c (Some x) (ensure_data s) p w = (Return s', w')"
    "site_ok cd S w'" "view S w' = write_plan p (mc_Name m) (view S w)" "st_restores w' = st_restores w"
    by (rule update_site [where x = x, OF ok m p s disjI2 [OF refl]])
      (rule that; (assumption | rule rewritten_rest(1), assumption))
  from site_machine(1) [OF upd(2) m] obtain s2 where s2: "plan_secret_of w' m = Some s2" "output_ok cd s2"
    by (auto elim: plan_secret_okE)
  have applied: "secret_data s2 ''applied-checksum'' = plan_checksum p \<longleftrightarrow> has_applied (view S w) p (mc_Name m)"
    using site_machine(2) [OF upd(2) m, of p] upd(3) s2 by (simp add: entry_of_def)
  note run = getPlanSecret_server [OF site_machine(1) [OF ok m] s]
    getPlanSecret_server [OF site_machine(1) [OF upd(2) m] s2(1)]
  show thesis
  proof (cases "has_applied (view S w) p (mc_Name m)")
    case True
    with applied s2(2) obtain out where "decompressPlanOutput cd s2 = Inr out" by (auto elim: decompress_applied)
    with that upd(2-4) True applied show thesis
      by (simp add: drive_plan_def bind_err_Return run upd(1) isPlanApplied_iff ret_run)
  next
    case False
    with that upd(2-4) applied show thesis
      by (simp add: drive_plan_def bind_err_Return run upd(1) isPlanApplied_iff ret_run)
  qed
qed

text \<open>A loop that drives a plan on some of the machines.\<close>

lemma drive_loop_site:
  assumes "site_ok cd S w" and "set ms \<subseteq> set (si_machines S)" and "p \<noteq> []"
    and "\<And>m ready. m \<in> set ms \<Longrightarrow> f m ready =
      (if Q (mc_Name m) then ret ready else drive_plan c cd (Some (x m)) m p ready)"
  obtains w' where "for_range f ms ready w =
      (Return (ready \<and> list_all (has_applied (view S w) p) (filter (\<lambda>n. \<not> Q n) (map mc_Name ms))), w')"
    "site_ok cd S w'" "view S w' = fold (write_plan p) (filter (\<lambda>n. \<not> Q n) (map mc_Name ms)) (view S w)"
    "st_restores w' = st_restores w"
  using assms
proof (induction ms arbitrary: w ready thesis)
  case Nil
  then show ?case by (simp add: ret_run)
next
  case (Cons m ms)
  show ?case
  proof (cases "Q (mc_Name m)")
    case True
    with Cons.prems(5) [of m] have "f m ready = ret ready" by simp
    with True Cons.IH [OF Cons.prems(1) [of _] Cons.prems(2) _ Cons.prems(4,5), of ready] Cons.prems(3) show ?thesis
      by simp
  next
    case False
    obtain w1 where w1: "drive_plan c cd (Some (x m)) m p ready w =
        (Return (ready \<and> has_applied (view S w) p (mc_Name m)), w1)"
      "site_ok cd S w1" "view S w1 = write_plan p (mc_Name m) (view S w)" "st_restores w1 = st_restores w"
      using drive_plan_site [OF Cons.prems(2) _ Cons.prems(4), of m "x m" ready] Cons.prems(3) by auto
    from False Cons.prems(5) [of m] have fm: "f m ready w = (Return (ready \<and> has_applied (view S w) p (mc_Name m)), w1)"
      using w1(1) by simp
    show ?thesis
    proof (rule Cons.IH [OF _ w1(2) _ Cons.prems(4), of "ready \<and> has_applied (view S w) p (mc_Name m)"])
      fix w'
      assume "for_range f ms (ready \<and> has_applied (view S w) p (mc_Name m)) w1 =
          (Return ((ready \<and> has_applied (view S w) p (mc_Name m)) \<and>
            list_all (has_applied (view S w1) p) (filter (\<lambda>n. \<not> Q n) (map mc_Name ms))), w')"
        "site_ok cd S w'" "view S w' = fold (write_plan p) (filter (\<lambda>n. \<not> Q n) (map mc_Name ms)) (view S w1)"
        "st_restores w' = st_restores w1"
      with Cons.prems(1) [of w'] fm w1(3,4) False show ?thesis
        by (simp add: bind_err_Return conj_assoc)
    qed (use Cons.prems in auto)
  qed
qed

end

lemma plan_bytes_not_Nil [simp]: "plan_bytes is \<noteq> []"
  by (simp add: plan_bytes_def plan_json_def)

lemma rewritten_has_data:
  assumes "rewritten m p w w'" and "plan_secret_of w' m = Some s"
  shows "sec_Data s \<noteq> None"
  using assms rewritten_rest(6) [OF assms(1)] by (auto simp: rewritten_def plan_secret_of_def)

text \<open>What the three handlers need of a scope.\<close>

definition scope_of_site :: "site \<Rightarrow> scope \<Rightarrow> bool" where
  "scope_of_site S sc \<longleftrightarrow> sc_machines sc = si_machines S \<and> sc_initMachine sc = Some (si_init S)
     \<and> sc_etcdmachinebackup sc = si_backup S"

context restore_api begin

lemma stop_site:
  assumes ok: "site_ok cd S w" and sc: "scope_of_site S sc"
  obtains w' where "stopRKE2OnAllMachines c cd sc r w = (Return
      (if list_all (has_applied (view S w) (plan_bytes kill_instructions)) (names (view S w))
       then (set_phase ETCDSnapshotPhaseShutdown r, no_requeue) else (r, thirty_seconds)), w')"
    "site_ok cd S w'" "view S w' = fold (write_plan (plan_bytes kill_instructions)) (names (view S w)) (view S w)"
    "st_restores w' = st_restores w"
proof -
  obtain w' where "for_range (stop_machine c cd sc) (si_machines S) True w =
      (Return (list_all (has_applied (view S w) (plan_bytes kill_instructions)) (map mc_Name (si_machines S))), w')"
    "site_ok cd S w'" "view S w' = fold (write_plan (plan_bytes kill_instructions)) (map mc_Name (si_machines S)) (view S w)"
    "st_restores w' = st_restores w"
    using drive_loop_site [OF ok subset_refl plan_bytes_not_Nil, of "stop_machine c cd sc" "\<lambda>_. False"
        "\<lambda>_. si_init S" kill_instructions True] sc
    by (auto simp: stop_machine_drive scope_of_site_def)
  with that [of w'] sc show thesis
    by (simp add: stopRKE2OnAllMachines_def bind_err_Return scope_of_site_def ret_run)
qed

lemma restore_site:
  assumes ok: "site_ok cd S w" and sc: "scope_of_site S sc"
  obtains w' where "restoreSnaphotOnInitMachine c cd sc r w = (Return
      (if has_applied (view S w) (plan_bytes (restore_instructions (si_backup S))) (mc_Name (si_init S))
       then (set_phase ETCDSnapshotPhaseRestore r, no_requeue) else (r, thirty_seconds)), w')"
    "site_ok cd S w'" "init_has_data S w'"
    "view S w' = write_plan (plan_bytes (restore_instructions (si_backup S))) (mc_Name (si_init S)) (view S w)"
    "st_restores w' = st_restores w"
proof -
  note im = site_init [OF ok]
  from site_machine(1) [OF ok im] obtain s where s: "plan_secret_of w (si_init S) = Some s"
    by (auto elim: plan_secret_okE)
  obtain w' s' where upd: "updatePlanSecretWithPlan c (Some (si_init S)) (ensure_data s)
        (plan_bytes (restore_instructions (si_backup S))) w = (Return s', w')"
    "site_ok cd S w'" "view S w' = write_plan (plan_bytes (restore_instructions (si_backup S))) (mc_Name (si_init S)) (view S w)"
    "rewritten (si_init S) (plan_bytes (restore_instructions (si_backup S))) w w'"
    "isPlanApplied (plan_bytes (restore_instructions (si_backup S))) (secret_data s' ''applied-checksum'') \<longleftrightarrow>
       has_applied (view S w) (plan_bytes (restore_instructions (si_backup S))) (mc_Name (si_init S))"
    "has_applied (view S w) (plan_bytes (restore_instructions (si_backup S))) (mc_Name (si_init S)) \<Longrightarrow>
       \<exists>out. decompressPlanOutput cd s' = Inr out"
    by (rule update_site [where x = "si_init S" and p = "plan_bytes (restore_instructions (si_backup S))",
          OF ok im plan_bytes_not_Nil s disjI2 [OF refl]]) (rule that; assumption)
  from site_machine(1) [OF upd(2) im] rewritten_has_data [OF upd(4)] have data: "init_has_data S w'"
    by (auto simp: init_has_data_def elim!: plan_secret_okE)
  note run = getPlanSecret_server [OF site_machine(1) [OF ok im] s] upd(1)
  from sc ok have sc': "sc_initMachine sc = Some (si_init S)" "sc_etcdmachinebackup sc = si_backup S"
    "mbs_Location (mb_Spec (si_backup S)) \<noteq> []"
    by (simp_all add: scope_of_site_def site_ok_def site_fixed_def)
  show thesis
  proof (cases "has_applied (view S w) (plan_bytes (restore_instructions (si_backup S))) (mc_Name (si_init S))")
    case True
    with upd(6) obtain out where "decompressPlanOutput cd s' = Inr out" by blast
    with that [of w'] True upd(2,3,5) rewritten_rest(1) [OF upd(4)] data sc' show thesis
      by (simp add: restoreSnaphotOnInitMachine_def bind_err_Return run ret_run)
  next
    case False
    with that [of w'] upd(2,3,5) rewritten_rest(1) [OF upd(4)] data sc' show thesis
      by (simp add: restoreSnaphotOnInitMachine_def bind_err_Return run ret_run)
  qed
qed

lemma start_site:
  assumes ok: "site_ok cd S w" and sc: "scope_of_site S sc" and data: "init_has_data S w"
  obtains w' where "startRKE2OnAllMachines c cd sc r w = (Return
      (if has_applied (view S w) (plan_bytes start_instructions) (mc_Name (si_init S)) \<and>
          list_all (has_applied (view S w) (plan_bytes (join_instructions (getInternalMachineIP (si_init S)))))
            (filter (\<lambda>n. n \<noteq> mc_Name (si_init S)) (names (view S w)))
       then (set_phase ETCDSnapshotPhaseFinished r, no_requeue) else (r, thirty_seconds)), w')"
    "site_ok cd S w'"
    "view S w' = (let v = write_plan (plan_bytes start_instructions) (mc_Name (si_init S)) (view S w)
       in if has_applied (view S w) (plan_bytes start_instructions) (mc_Name (si_init S))
          then fold (write_plan (plan_bytes (join_instructions (getInternalMachineIP (si_init S)))))
            (filter (\<lambda>n. n \<noteq> mc_Name (si_init S)) (names (view S w))) v
          else v)"
    "st_restores w' = st_restores w"
proof -
  note im = site_init [OF ok]
  from site_machine(1) [OF ok im] obtain s where s: "plan_secret_of w (si_init S) = Some s"
    by (auto elim: plan_secret_okE)
  with data have base: "s = s \<and> sec_Data s \<noteq> None \<or> s = ensure_data s" by (simp add: init_has_data_def)
  obtain w1 s' where upd: "updatePlanSecretWithPlan c (Some (si_init S)) s
        (plan_bytes start_instructions) w = (Return s', w1)"
    "site_ok cd S w1" "view S w1 = write_plan (plan_bytes start_instructions) (mc_Name (si_init S)) (view S w)"
    "rewritten (si_init S) (plan_bytes start_instructions) w w1"
    "isPlanApplied (plan_bytes start_instructions) (secret_data s' ''applied-checksum'') \<longleftrightarrow>
       has_applied (view S w) (plan_bytes start_instructions) (mc_Name (si_init S))"
    "has_applied (view S w) (plan_bytes start_instructions) (mc_Name (si_init S)) \<Longrightarrow>
       \<exists>out. decompressPlanOutput cd s' = Inr out"
    by (rule update_site [where x = "si_init S" and p = "plan_bytes start_instructions",
          OF ok im plan_bytes_not_Nil s base]) (rule that; assumption)
  note run = getPlanSecret_server [OF site_machine(1) [OF ok im] s] upd(1)
  from sc ok have sc': "sc_initMachine sc = Some (si_init S)" "sc_machines sc = si_machines S"
    "getInternalMachineIP (si_init S) \<noteq> []"
    by (simp_all add: scope_of_site_def site_ok_def site_fixed_def)
  show thesis
  proof (cases "has_applied (view S w) (plan_bytes start_instructions) (mc_Name (si_init S))")
    case False
    with that [of w1] upd(2,3,5) rewritten_rest(1) [OF upd(4)] sc' show thesis
      by (simp add: startRKE2OnAllMachines_def bind_err_Return run ret_run)
  next
    case True
    with upd(6) obtain out where out: "decompressPlanOutput cd s' = Inr out" by blast
    let ?join = "plan_bytes (join_instructions (getInternalMachineIP (si_init S)))"
      and ?others = "filter (\<lambda>n. n \<noteq> mc_Name (si_init S)) (map mc_Name (si_machines S))"
    obtain w' where "for_range (start_machine c cd (si_init S) (getInternalMachineIP (si_init S))) (si_machines S) True w1 =
        (Return (list_all (has_applied (view S w1) ?join) ?others), w')"
      "site_ok cd S w'" "view S w' = fold (write_plan ?join) ?others (view S w1)" "st_restores w' = st_restores w1"
      using drive_loop_site [OF upd(2) subset_refl plan_bytes_not_Nil,
          of "start_machine c cd (si_init S) (getInternalMachineIP (si_init S))" "\<lambda>n. n = mc_Name (si_init S)"
          "\<lambda>m. m" "join_instructions (getInternalMachineIP (si_init S))" True]
      by (auto simp: start_machine_drive)
    with that [of w'] True upd(3,5) rewritten_rest(1) [OF upd(4)] sc' out show thesis
      by (simp add: startRKE2OnAllMachines_def bind_err_Return run ret_run split: if_splits)
  qed
qed

end

lemma progress_updates [simp]:
  "write_plan p nm (v\<lparr>pg_phase := x\<rparr>) = (write_plan p nm v)\<lparr>pg_phase := x\<rparr>"
  "has_applied (v\<lparr>pg_phase := x\<rparr>) = has_applied v" "names (v\<lparr>pg_phase := x\<rparr>) = names v"
  "has_applied (v\<lparr>pg_paused := b\<rparr>) = has_applied v" "names (v\<lparr>pg_paused := b\<rparr>) = names v"
  by (auto simp: write_plan_def has_applied_def names_def fun_eq_iff)

section \<open>A reconciliation on the server\<close>

lemma key_ofD: "key_of om = k \<Longrightarrow> om_Namespace om = ok_Namespace k" "key_of om = k \<Longrightarrow> om_Name om = ok_Name k"
  by auto

context restore_api begin

lemma newScope_site:
  assumes ok: "site_ok cd S w" and r: "map_of (st_restores w) (si_req S) = Some r"
  obtains sc where "newScope c (set_phase p r) w = (Return sc, w)" "scope_of_site S sc"
    "map_of (st_clusters w) (key (ok_Namespace (si_req S)) (si_cluster S)) = Some (sc_cluster sc)"
    "key_of (cl_meta (sc_cluster sc)) = key (ok_Namespace (si_req S)) (si_cluster S)"
proof -
  from ok r have r': "om_Namespace (sr_meta r) = ok_Namespace (si_req S)"
    "srs_ClusterName (sr_Spec r) = si_cluster S" "srs_EtcdMachineBackupName (sr_Spec r) = om_Name (mb_meta (si_backup S))"
    by (auto simp: site_ok_def site_restore_def dest: key_ofD)
  from ok obtain cl where cl: "map_of (st_clusters w) (key (ok_Namespace (si_req S)) (si_cluster S)) = Some cl"
    "om_Namespace (cl_meta cl) = ok_Namespace (si_req S)" "om_Name (cl_meta cl) = si_cluster S"
    by (auto simp: site_ok_def site_cluster_def split: option.splits)
  from ok have fixed: "si_cluster S \<noteq> []" "om_Name (mb_meta (si_backup S)) \<noteq> []"
    "map_of (st_backups w) (key (ok_Namespace (si_req S)) (om_Name (mb_meta (si_backup S)))) = Some (si_backup S)"
    "list_items mc_meta [InNamespace (ok_Namespace (si_req S)), MatchingLabels [(ClusterNameLabel, si_cluster S)]]
       (st_machines w) = si_machines S"
    "find_init_machine (si_machines S) (mbs_MachineName (mb_Spec (si_backup S))) = Some (si_init S)"
    by (simp_all add: site_ok_def site_fixed_def find_init_machine_def)
  have reads: "call (list_Machine c os) w = (Return (list_items mc_meta os (st_machines w)), w)"
    "map_of (st_backups w) k = Some b \<Longrightarrow> call (get_EtcdMachineBackup c k) w = (Return b, w)" for os k b
    by (simp_all add: call_def list_machines get_backup)
  from that [of "\<lparr>sc_cluster = cl, sc_machines = si_machines S, sc_initMachine = Some (si_init S),
      sc_etcdmachinebackup = si_backup S\<rparr>"] cl fixed r' show thesis
    by (simp add: newScope_def bind_err_Return clusters.call_get reads ret_run scope_of_site_def)
qed

text \<open>Pausing and unpausing the cluster.\<close>

lemma patch_pause_site:
  assumes ok: "site_ok cd S w"
    and cl: "map_of (st_clusters w) (key (ok_Namespace (si_req S)) (si_cluster S)) = Some cl"
    and keys: "key_of (cl_meta cl) = key (ok_Namespace (si_req S)) (si_cluster S)"
  obtains w' cl' where "call (patch_Cluster c cl (cl\<lparr>cl_Paused := b\<rparr>)) w = (Return cl', w')"
    "map_of (st_clusters w') (key (ok_Namespace (si_req S)) (si_cluster S)) = Some cl'"
    "key_of (cl_meta cl') = key (ok_Namespace (si_req S)) (si_cluster S)"
    "site_ok cd S w'" "view S w' = (view S w)\<lparr>pg_paused := b\<rparr>" "st_restores w' = st_restores w"
    "init_has_data S w' = init_has_data S w"
proof -
  let ?cl' = "\<lambda>v. stamp_cluster v (merge_cluster cl (cl\<lparr>cl_Paused := b\<rparr>) cl)"
  have keys': "key_of (cl_meta (cl\<lparr>cl_Paused := b\<rparr>)) = key (ok_Namespace (si_req S)) (si_cluster S)"
    using keys by simp
  obtain v w' where patch: "call (patch_Cluster c cl (cl\<lparr>cl_Paused := b\<rparr>)) w = (Return (?cl' v), w')"
    "map_of (st_clusters w') = (map_of (st_clusters w))(key (ok_Namespace (si_req S)) (si_cluster S) \<mapsto> ?cl' v)"
    "w'\<lparr>st_clusters := [], st_version := 0\<rparr> = w\<lparr>st_clusters := [], st_version := 0\<rparr>"
    using clusters.call_patch [OF cl keys', of cl] by auto
  have cl': "cl_Paused (?cl' v) = b" "key_of (cl_meta (?cl' v)) = key (ok_Namespace (si_req S)) (si_cluster S)"
    using keys by (simp_all add: merge_cluster_def merge_field_def)
  have rest: "st_restores w' = st_restores w" "st_backups w' = st_backups w" "st_machines w' = st_machines w"
    "st_configs w' = st_configs w" "st_secrets w' = st_secrets w"
    using arg_cong [OF patch(3), of st_restores] arg_cong [OF patch(3), of st_backups]
      arg_cong [OF patch(3), of st_machines] arg_cong [OF patch(3), of st_configs]
      arg_cong [OF patch(3), of st_secrets] by simp_all
  have same: "plan_key w' = plan_key w" "plan_secret_of w' = plan_secret_of w" "entry_of w' = entry_of w"
    by (simp_all add: plan_key_def plan_secret_of_def entry_of_def rest fun_eq_iff)
  have "plan_secret_ok cd w' = plan_secret_ok cd w"
    by (simp add: plan_secret_ok_def same fun_eq_iff)
  with ok cl' have "site_ok cd S w'"
    by (simp add: site_ok_def site_fixed_def site_restore_def site_cluster_def site_phase_def
        init_has_data_def same rest patch(2))
  moreover have "view S w' = (view S w)\<lparr>pg_paused := b\<rparr>"
    using cl' by (simp add: view_def site_phase_def site_paused_def same rest patch(2))
  ultimately show thesis
    using that [OF patch(1)] cl' patch(2) rest same by (simp add: init_has_data_def)
qed

text \<open>Sending the restore with its new phase: the first patch changes nothing, the second the status.\<close>

lemma conclude_site:
  assumes ok: "site_ok cd S w" and r: "map_of (st_restores w) (si_req S) = Some r"
    and data: "p = ETCDSnapshotPhaseRestore \<Longrightarrow> init_has_data S w"
  obtains w' where "conclude c r (set_phase p r) (Inr res) w = (Return (res, None), w')"
    "site_ok cd S w'" "view S w' = (view S w)\<lparr>pg_phase := p\<rparr>"
proof -
  from ok r have req: "key_of (sr_meta r) = si_req S" by (simp add: site_ok_def site_restore_def)
  have first: "attempt (patch_ETCDSnapshotRestore c r (set_phase p r)) w = (Return (Inr r), w)"
    by (rule restores.attempt_patch_noop [OF r]) (simp_all add: req merge_restore_def merge_field_def)
  let ?m = "r\<lparr>sr_Status := sr_Status (set_phase p r)\<rparr>"
  let ?r' = "\<lambda>v. stamp_restore v (merge_restore_status r ?m r)"
  have keys: "key_of (sr_meta ?m) = si_req S" using req by simp
  obtain v w' where second: "attempt (patch_ETCDSnapshotRestore_status c r ?m) w = (Return (Inr (?r' v)), w')"
    "map_of (st_restores w') = (map_of (st_restores w))(si_req S \<mapsto> ?r' v)"
    "w'\<lparr>st_restores := [], st_version := 0\<rparr> = w\<lparr>st_restores := [], st_version := 0\<rparr>"
    using statuses.attempt_patch [OF r keys, of r] by auto
  have r': "sr_Phase (?r' v) = p" "key_of (sr_meta (?r' v)) = si_req S" "sr_Spec (?r' v) = sr_Spec r"
    "om_DeletionTimestamp (sr_meta (?r' v)) = om_DeletionTimestamp (sr_meta r)"
    using req by (simp_all add: merge_restore_status_def merge_field_def stamp_restore_def stamp_meta_def)
  have rest: "st_clusters w' = st_clusters w" "st_backups w' = st_backups w" "st_machines w' = st_machines w"
    "st_configs w' = st_configs w" "st_secrets w' = st_secrets w"
    using arg_cong [OF second(3), of st_clusters] arg_cong [OF second(3), of st_backups]
      arg_cong [OF second(3), of st_machines] arg_cong [OF second(3), of st_configs]
      arg_cong [OF second(3), of st_secrets] by simp_all
  have same: "plan_key w' = plan_key w" "plan_secret_of w' = plan_secret_of w" "entry_of w' = entry_of w"
    by (simp_all add: plan_key_def plan_secret_of_def entry_of_def rest fun_eq_iff)
  have "plan_secret_ok cd w' = plan_secret_ok cd w"
    by (simp add: plan_secret_ok_def same fun_eq_iff)
  with ok r r' data have "site_ok cd S w'"
    by (simp add: site_ok_def site_fixed_def site_restore_def site_cluster_def site_phase_def
        init_has_data_def same rest second(2))
  moreover have "view S w' = (view S w)\<lparr>pg_phase := p\<rparr>"
    using r'(1) by (simp add: view_def site_phase_def site_paused_def same rest second(2))
  ultimately show thesis
    using that [of w'] first second(1) by (simp add: conclude_def Let_def bind_err_Return ret_run)
qed

lemma Reconcile_run:
  assumes r: "map_of (st_restores w) (si_req S) = Some r" and alive: "om_DeletionTimestamp (sr_meta r) = None"
    and run: "reconcile_scope c cd (set_phase (current_phase r) r) w = (Return (set_phase p r, res), w1)"
    and ok: "site_ok cd S w1" and r1: "map_of (st_restores w1) (si_req S) = Some r"
    and data: "p = ETCDSnapshotPhaseRestore \<Longrightarrow> init_has_data S w1"
  obtains w' where "Reconcile c cd (si_req S) w = (Return (res, None), w')"
    "site_ok cd S w'" "view S w' = (view S w1)\<lparr>pg_phase := p\<rparr>"
proof -
  have normal: "reconcileNormal c cd r w = (Return (set_phase p r, Inr res), w1)"
    using run by (simp add: reconcileNormal_def Let_def set_current_phase bind_err_Return catch_err_run ret_run)
  obtain w' where w': "conclude c r (set_phase p r) (Inr res) w1 = (Return (res, None), w')"
    "site_ok cd S w'" "view S w' = (view S w1)\<lparr>pg_phase := p\<rparr>"
    by (rule conclude_site [OF ok r1 data])
  with that [of w'] alive show thesis
    unfolding Reconcile_conclude
    by (simp add: bind_err_Return restores.attempt_get [OF r] normal)
qed

text \<open>
  One reconciliation refines one step of the abstract machine, whatever the phase: it
  succeeds, keeps the site as it is, and leaves what \<^const>\<open>advance\<close> says.
\<close>

lemma Reconcile_refines:
  assumes ok: "site_ok cd S w"
  obtains w' res where "Reconcile c cd (si_req S) w = (Return (res, None), w')"
    "site_ok cd S w'" "view S w' = advance S (view S w)" "res = wait_of S (view S w)"
proof -
  from ok obtain r where r: "map_of (st_restores w) (si_req S) = Some r" "om_DeletionTimestamp (sr_meta r) = None"
    by (auto simp: site_ok_def site_restore_def split: option.splits)
  let ?r = "set_phase (current_phase r) r"
  have phase: "pg_phase (view S w) = sr_Phase r" using r(1) by (simp add: view_def site_phase_def)
  obtain sc where sc: "newScope c ?r w = (Return sc, w)" "scope_of_site S sc"
    "map_of (st_clusters w) (key (ok_Namespace (si_req S)) (si_cluster S)) = Some (sc_cluster sc)"
    "key_of (cl_meta (sc_cluster sc)) = key (ok_Namespace (si_req S)) (si_cluster S)"
    by (rule newScope_site [OF ok r(1)])
  obtain w1 cl' where pause: "call (patch_Cluster c (sc_cluster sc) ((sc_cluster sc)\<lparr>cl_Paused := True\<rparr>)) w = (Return cl', w1)"
    "map_of (st_clusters w1) (key (ok_Namespace (si_req S)) (si_cluster S)) = Some cl'"
    "key_of (cl_meta cl') = key (ok_Namespace (si_req S)) (si_cluster S)"
    "site_ok cd S w1" "view S w1 = (view S w)\<lparr>pg_paused := True\<rparr>" "st_restores w1 = st_restores w"
    "init_has_data S w1 = init_has_data S w"
    by (rule patch_pause_site [OF ok sc(3,4)])
  from ok sc(2) have running: "list_all (\<lambda>m. mc_Phase m = MachinePhaseRunning) (sc_machines sc)"
    by (simp add: scope_of_site_def site_ok_def site_fixed_def)
  have sc': "scope_of_site S (sc\<lparr>sc_cluster := cl'\<rparr>)" using sc(2) by (simp add: scope_of_site_def)
  have body: "reconcile_scope c cd ?r w =
      (let r = ?r; sc = sc\<lparr>sc_cluster := cl'\<rparr> in
       if sr_Phase r = ETCDSnapshotPhaseStarted then stopRKE2OnAllMachines c cd sc r
       else if sr_Phase r = ETCDSnapshotPhaseShutdown then restoreSnaphotOnInitMachine c cd sc r
       else if sr_Phase r = ETCDSnapshotPhaseRestore then startRKE2OnAllMachines c cd sc r
       else if sr_Phase r = ETCDSnapshotPhaseFinished then
         bind_err (call (patch_Cluster c cl' (cl'\<lparr>cl_Paused := False\<rparr>)))
           (Wrapf ''failed to pause cluster: '') (\<lambda>_. ret (r, no_requeue))
       else ret (r, no_requeue)) w1"
    using running by (simp add: reconcile_scope_def bind_err_Return sc(1) pause(1) Let_def)
  have finish: thesis
    if fin: "reconcile_scope c cd ?r w = (Return (set_phase p r, res), w2)" "site_ok cd S w2"
      "st_restores w2 = st_restores w1" "p = ETCDSnapshotPhaseRestore \<Longrightarrow> init_has_data S w2"
      "(view S w2)\<lparr>pg_phase := p\<rparr> = advance S (view S w)" "res = wait_of S (view S w)" for p res w2
  proof -
    have "map_of (st_restores w2) (si_req S) = Some r" using fin(3) pause(6) r(1) by simp
    then obtain w' where "Reconcile c cd (si_req S) w = (Return (res, None), w')"
      "site_ok cd S w'" "view S w' = (view S w2)\<lparr>pg_phase := p\<rparr>"
      by (rule Reconcile_run [OF r fin(1,2) _ fin(4)])
    with \<open>\<And>w' res. Reconcile c cd (si_req S) w = (Return (res, None), w') \<Longrightarrow> site_ok cd S w' \<Longrightarrow>
        view S w' = advance S (view S w) \<Longrightarrow> res = wait_of S (view S w) \<Longrightarrow> thesis\<close> fin(5,6) show thesis by simp
  qed
  consider "current_phase r = ETCDSnapshotPhaseStarted" | "current_phase r = ETCDSnapshotPhaseShutdown"
    | "current_phase r = ETCDSnapshotPhaseRestore" | "current_phase r = ETCDSnapshotPhaseFinished"
    | "current_phase r \<notin> {ETCDSnapshotPhaseStarted, ETCDSnapshotPhaseShutdown, ETCDSnapshotPhaseRestore, ETCDSnapshotPhaseFinished}"
    by blast
  then show thesis
  proof cases
    case 1
    obtain w2 where w2: "stopRKE2OnAllMachines c cd (sc\<lparr>sc_cluster := cl'\<rparr>) ?r w1 = (Return
        (if list_all (has_applied (view S w1) (plan_bytes kill_instructions)) (names (view S w1))
         then (set_phase ETCDSnapshotPhaseShutdown ?r, no_requeue) else (?r, thirty_seconds)), w2)"
      "site_ok cd S w2" "view S w2 = fold (write_plan (plan_bytes kill_instructions)) (names (view S w1)) (view S w1)"
      "st_restores w2 = st_restores w1"
      by (rule stop_site [OF pause(4) sc'])
    let ?p = "if list_all (has_applied (view S w1) (plan_bytes kill_instructions)) (names (view S w1))
      then ETCDSnapshotPhaseShutdown else ETCDSnapshotPhaseStarted"
    have "reconcile_scope c cd ?r w =
        (Return (set_phase ?p r, if list_all (has_applied (view S w1) (plan_bytes kill_instructions)) (names (view S w1)) then no_requeue else thirty_seconds), w2)"
      using body w2(1) 1 by (auto simp: Let_def split: if_splits)
    then show thesis
      by (rule finish [OF _ w2(2,4)])
        (use w2(3) pause(5) phase 1 in \<open>auto simp: wait_of_def advance_def Let_def current_phase_def split: if_splits\<close>)
  next
    case 2
    let ?plan = "plan_bytes (restore_instructions (si_backup S))" and ?im = "mc_Name (si_init S)"
    obtain w2 where w2: "restoreSnaphotOnInitMachine c cd (sc\<lparr>sc_cluster := cl'\<rparr>) ?r w1 = (Return
        (if has_applied (view S w1) ?plan ?im
         then (set_phase ETCDSnapshotPhaseRestore ?r, no_requeue) else (?r, thirty_seconds)), w2)"
      "site_ok cd S w2" "init_has_data S w2" "view S w2 = write_plan ?plan ?im (view S w1)"
      "st_restores w2 = st_restores w1"
      by (rule restore_site [OF pause(4) sc'])
    let ?p = "if has_applied (view S w1) ?plan ?im then ETCDSnapshotPhaseRestore else ETCDSnapshotPhaseShutdown"
    have "reconcile_scope c cd ?r w =
        (Return (set_phase ?p r, if has_applied (view S w1) ?plan ?im then no_requeue else thirty_seconds), w2)"
      using body w2(1) 2 by (auto simp: Let_def split: if_splits)
    then show thesis
      by (rule finish [OF _ w2(2,5) w2(3)])
        (use w2(4) pause(5) phase 2 in \<open>auto simp: wait_of_def advance_def Let_def current_phase_def split: if_splits\<close>)
  next
    case 3
    let ?start = "plan_bytes start_instructions" and ?im = "mc_Name (si_init S)"
      and ?join = "plan_bytes (join_instructions (getInternalMachineIP (si_init S)))"
      and ?others = "filter (\<lambda>n. n \<noteq> mc_Name (si_init S)) (names (view S w1))"
    from 3 have now: "sr_Phase r = ETCDSnapshotPhaseRestore" by (auto simp: current_phase_def split: if_splits)
    with ok r(1) pause(7) have data: "init_has_data S w1" by (simp add: site_ok_def site_phase_def)
    obtain w2 where w2: "startRKE2OnAllMachines c cd (sc\<lparr>sc_cluster := cl'\<rparr>) ?r w1 = (Return
        (if has_applied (view S w1) ?start ?im \<and> list_all (has_applied (view S w1) ?join) ?others
         then (set_phase ETCDSnapshotPhaseFinished ?r, no_requeue) else (?r, thirty_seconds)), w2)"
      "site_ok cd S w2"
      "view S w2 = (let v = write_plan ?start ?im (view S w1)
         in if has_applied (view S w1) ?start ?im then fold (write_plan ?join) ?others v else v)"
      "st_restores w2 = st_restores w1"
      by (rule start_site [OF pause(4) sc' data])
    let ?p = "if has_applied (view S w1) ?start ?im \<and> list_all (has_applied (view S w1) ?join) ?others
      then ETCDSnapshotPhaseFinished else ETCDSnapshotPhaseRestore"
    have has: "init_has_data S w2" if "?p = ETCDSnapshotPhaseRestore"
      using w2(2,4) pause(6) r(1) now by (simp add: site_ok_def site_phase_def)
    have "reconcile_scope c cd ?r w =
        (Return (set_phase ?p r, if has_applied (view S w1) ?start ?im \<and> list_all (has_applied (view S w1) ?join) ?others then no_requeue else thirty_seconds), w2)"
      using body w2(1) 3 by (auto simp: Let_def split: if_splits)
    then show thesis
      by (rule finish [OF _ w2(2,4)])
        (erule has, use w2(3) pause(5) phase now in \<open>auto simp: wait_of_def advance_def Let_def split: if_splits\<close>)
  next
    case 4
    from 4 have now: "sr_Phase r = ETCDSnapshotPhaseFinished" by (auto simp: current_phase_def split: if_splits)
    obtain w2 cl2 where w2: "call (patch_Cluster c cl' (cl'\<lparr>cl_Paused := False\<rparr>)) w1 = (Return cl2, w2)"
      "site_ok cd S w2" "view S w2 = (view S w1)\<lparr>pg_paused := False\<rparr>" "st_restores w2 = st_restores w1"
      by (rule patch_pause_site [OF pause(4,2,3)])
    have "reconcile_scope c cd ?r w = (Return (set_phase ETCDSnapshotPhaseFinished r, no_requeue), w2)"
      using body 4 by (simp add: Let_def bind_err_Return w2(1) ret_run)
    then show thesis
      by (rule finish [OF _ w2(2,4)])
        (use w2(3) pause(5) phase now in \<open>auto simp: wait_of_def advance_def Let_def\<close>)
  next
    case 5
    then have now: "current_phase r = sr_Phase r" "sr_Phase r \<noteq> []" by (auto simp: current_phase_def split: if_splits)
    have "reconcile_scope c cd ?r w = (Return (set_phase (current_phase r) r, no_requeue), w1)"
      using body 5 by (simp add: Let_def ret_run)
    then show thesis
      by (rule finish [OF _ pause(4) refl])
        (use pause(5) phase now 5 in \<open>auto simp: wait_of_def advance_def Let_def\<close>)
  qed
qed

end

end
