(* ===== verification/Demo_Cluster.thy ===== *)
theory Demo_Cluster
  imports Restore_Controller Api_Store
begin

text \<open>
  A concrete cluster for the witnesses: two machines with their configurations and plan
  secrets, a backup of the first one and a restore of it that has not begun.
\<close>

definition demo_machine :: "string \<Rightarrow> machine" where
  "demo_machine nm = \<lparr>mc_meta = (meta_for nm ''ns'')\<lparr>om_Labels := [(ClusterNameLabel, ''cl'')]\<rparr>,
     mc_ClusterName = ''cl'', mc_ConfigRef = Some \<lparr>or_Kind = ''RKE2Config'', or_Name = nm\<rparr>,
     mc_NodeRef = Some \<lparr>or_Kind = ''Node'', or_Name = nm\<rparr>,
     mc_Addresses = [\<lparr>ma_Type = MachineInternalIP, ma_Address = ''10.0.0.1''\<rparr>], mc_Phase = MachinePhaseRunning\<rparr>"

definition demo_backup :: EtcdMachineBackup where
  "demo_backup = \<lparr>mb_meta = meta_for ''b'' ''ns'',
     mb_Spec = \<lparr>mbs_ClusterName = ''cl'', mbs_MachineName = ''m1'', mbs_Location = ''/snapshot'', mbs_Manual = False\<rparr>,
     mb_Status = \<lparr>mbst_Conditions = []\<rparr>\<rparr>"

definition demo_secret :: "string \<Rightarrow> secret" where
  "demo_secret nm = \<lparr>sec_meta = meta_for nm ''ns'', sec_Type = [], sec_Data = None\<rparr>"

definition demo_config :: "string \<Rightarrow> rke2_config" where
  "demo_config nm = \<lparr>rc_meta = meta_for nm ''ns'', rc_Files = [], rc_PostRKE2Commands = []\<rparr>"

definition demo_cluster :: cluster where
  "demo_cluster = \<lparr>cl_meta = meta_for ''cl'' ''ns'', cl_Paused = False,
     cl_ControlPlaneRef = Some \<lparr>or_Kind = ''RKE2ControlPlane'', or_Name = ''cp''\<rparr>,
     cl_ControlPlaneReady = True\<rparr>"

definition demo_restore :: "ETCDSnapshotPhase \<Rightarrow> ETCDSnapshotRestore" where
  "demo_restore p = \<lparr>sr_meta = meta_for ''r'' ''ns'',
     sr_Spec = \<lparr>srs_ClusterName = ''cl'', srs_EtcdMachineBackupName = ''b''\<rparr>,
     sr_Status = \<lparr>srst_Phase = p, srst_Conditions = []\<rparr>\<rparr>"

definition demo_store :: store where
  "demo_store = \<lparr>st_version = 1,
     st_restores = [(key ''ns'' ''r'', demo_restore [])],
     st_backups = [(key ''ns'' ''b'', demo_backup)],
     st_clusters = [(key ''ns'' ''cl'', demo_cluster)],
     st_machines = map (\<lambda>nm. (key ''ns'' nm, demo_machine nm)) [''m1'', ''m2''],
     st_configs = map (\<lambda>nm. (key ''ns'' nm, demo_config nm)) [''m1'', ''m2''],
     st_secrets = map (\<lambda>nm. (key ''ns'' nm, demo_secret nm)) [''m1-rke2config-plan'', ''m2-rke2config-plan''],
     st_unstructured = [], st_service_accounts = [], st_roles = [], st_role_bindings = []\<rparr>"

definition demo_codec :: codec where
  "demo_codec = \<lparr>gunzip = Inr, json_Unmarshal_output = (\<lambda>out. Inr [])\<rparr>"

lemmas demo_defs = demo_machine_def demo_backup_def demo_secret_def demo_config_def demo_cluster_def demo_restore_def demo_store_def
  demo_codec_def meta_for_def

end
