(* ===== verification/Restore_Convergence.thy ===== *)
theory Restore_Convergence
  imports Restore_Progress Demo_Cluster
begin

text \<open>
  The agents, and the end of a restore: how often the controller has to run, with the
  agents in between, until the restore is finished and the cluster no longer paused.
\<close>

section \<open>The agents\<close>

text \<open>
  The system agent of a machine, which is not part of this repository, applies the plan of
  its secret and reports the plan's checksum and the outputs of its instructions. One pass
  of all agents, each leaving the output \<open>out\<close>.
\<close>

definition agent_report :: "bytes \<Rightarrow> nat \<Rightarrow> secret \<Rightarrow> secret" where
  "agent_report out v s =
     (case sec_Data s of
        Some d \<Rightarrow>
          if secret_data s ''plan'' = [] then s
          else stamp_secret v (s\<lparr>sec_Data := Some (map_assign ''applied-output'' out
            (map_assign ''applied-checksum'' (plan_checksum (secret_data s ''plan'')) d))\<rparr>)
      | None \<Rightarrow> s)"

definition run_agents :: "bytes \<Rightarrow> store \<Rightarrow> store" where
  "run_agents out w = w\<lparr>st_secrets := map (\<lambda>(k, s). (k, agent_report out (Suc (st_version w)) s)) (st_secrets w),
     st_version := Suc (st_version w)\<rparr>"

text \<open>What the controller relies on: the output can be decompressed and decoded.\<close>

definition readable_output :: "codec \<Rightarrow> bytes \<Rightarrow> bool" where
  "readable_output cd out \<longleftrightarrow> (case gunzip cd out of
     Inr x \<Rightarrow> (case json_Unmarshal_output cd x of Inr m \<Rightarrow> True | Inl e \<Rightarrow> False)
   | Inl e \<Rightarrow> False)"

definition report :: "progress \<Rightarrow> progress" where
  "report v = v\<lparr>pg_machines := map (\<lambda>(n, p, a). (n, p, if p = [] then a else plan_checksum p)) (pg_machines v)\<rparr>"

lemma agent_report_data:
  "secret_data (agent_report out v s) e =
     (if secret_data s ''plan'' = [] then secret_data s e
      else if e = ''applied-output'' then out
      else if e = ''applied-checksum'' then plan_checksum (secret_data s ''plan'')
      else secret_data s e)"
  by (auto simp: agent_report_def secret_data_def map_index_assign split: option.split)

lemma agent_report_simps [simp]:
  "key_of (sec_meta (agent_report out v s)) = key_of (sec_meta s)"
  "sec_Data (agent_report out v s) = None \<longleftrightarrow> sec_Data s = None"
  by (auto simp: agent_report_def stamp_secret_def stamp_meta_def split: option.split)

lemma run_agents_rest:
  "st_restores (run_agents out w) = st_restores w" "st_backups (run_agents out w) = st_backups w"
  "st_clusters (run_agents out w) = st_clusters w" "st_machines (run_agents out w) = st_machines w"
  "st_configs (run_agents out w) = st_configs w" "plan_key (run_agents out w) = plan_key w"
  by (simp_all add: run_agents_def plan_key_def fun_eq_iff)

lemma run_agents_secret:
  "plan_secret_of (run_agents out w) m =
     map_option (agent_report out (Suc (st_version w))) (plan_secret_of w m)"
  unfolding plan_secret_of_def run_agents_rest
  by (cases "plan_key w m") (simp_all add: run_agents_def map_of_map)

lemma output_ok_report:
  assumes "output_ok cd s" and "readable_output cd out"
  shows "output_ok cd (agent_report out v s)"
  using assms
  by (auto simp: output_ok_def decompressPlanOutput_def readable_output_def agent_report_data split: sum.splits)

text \<open>
  What the controller relies on the agents for: whatever the server holds, after their pass
  every machine that has a plan reports it as applied, and nothing else has changed.
\<close>

definition agents_report :: "codec \<Rightarrow> site \<Rightarrow> (store \<Rightarrow> store) \<Rightarrow> bool" where
  "agents_report cd S agents \<longleftrightarrow> (\<forall>w. site_ok cd S w \<longrightarrow>
     site_ok cd S (agents w) \<and> view S (agents w) = report (view S w))"

text \<open>A pass of the agents keeps the site and is \<^const>\<open>report\<close> in its view.\<close>

lemma run_agents_site:
  assumes ok: "site_ok cd S w" and out: "readable_output cd out"
  shows "site_ok cd S (run_agents out w)" and "view S (run_agents out w) = report (view S w)"
proof -
  have secrets: "plan_secret_ok cd (run_agents out w) m" if "plan_secret_ok cd w m" for m
    using that
    by (auto simp: plan_secret_ok_def run_agents_rest run_agents_secret output_ok_report [OF _ out] split: option.splits)
  have "init_has_data S (run_agents out w) = init_has_data S w"
    by (simp add: init_has_data_def run_agents_secret del: not_None_eq split: option.split)
  with ok secrets show "site_ok cd S (run_agents out w)"
    by (simp add: site_ok_def site_fixed_def site_restore_def site_cluster_def site_phase_def run_agents_rest
        list_all_iff)
  have "entry_of (run_agents out w) m = (let (p, a) = entry_of w m in (p, if p = [] then a else plan_checksum p))" for m
    by (auto simp: entry_of_def run_agents_secret agent_report_data split: option.splits)
  then show "view S (run_agents out w) = report (view S w)"
    by (simp add: view_def report_def site_phase_def site_paused_def run_agents_rest split_def Let_def comp_def)
qed

lemma agents_report_run_agents: "readable_output cd out \<Longrightarrow> agents_report cd S (run_agents out)"
  by (simp add: agents_report_def run_agents_site)

section \<open>The way to the end\<close>

text \<open>A round: the agents report, the controller reconciles.\<close>

definition round_of :: "store client \<Rightarrow> codec \<Rightarrow> (store \<Rightarrow> store) \<Rightarrow> object_key \<Rightarrow> store \<Rightarrow> store" where
  "round_of c cd agents req w = snd (Reconcile c cd req (agents w))"

text \<open>The plan of a machine, and how far a restore is from its end.\<close>

definition holds_plan :: "progress \<Rightarrow> bytes \<Rightarrow> string \<Rightarrow> bool" where
  "holds_plan v p nm \<longleftrightarrow> list_all (\<lambda>(n, q, a). n = nm \<longrightarrow> q = p) (pg_machines v)"

definition distance :: "site \<Rightarrow> progress \<Rightarrow> nat" where
  "distance S v =
     (let im = mc_Name (si_init S);
          others = filter (\<lambda>n. n \<noteq> im) (names v)
      in if pg_phase v = ETCDSnapshotPhaseFinished then (if pg_paused v then 1 else 0)
         else if pg_phase v = ETCDSnapshotPhaseRestore then
           (if holds_plan v (plan_bytes start_instructions) im then
              if list_all (holds_plan v (plan_bytes (join_instructions (getInternalMachineIP (si_init S))))) others
              then 2 else 3
            else 4)
         else if pg_phase v = ETCDSnapshotPhaseShutdown then
           (if holds_plan v (plan_bytes (restore_instructions (si_backup S))) im then 5 else 6)
         else if list_all (holds_plan v (plan_bytes kill_instructions)) (names v) then 7 else 8)"

lemma report_simps [simp]:
  "pg_phase (report v) = pg_phase v" "pg_paused (report v) = pg_paused v" "names (report v) = names v"
  "holds_plan (report v) = holds_plan v"
  by (auto simp: report_def names_def holds_plan_def list_all_iff split_def fun_eq_iff comp_def)

lemma has_applied_report:
  "p \<noteq> [] \<Longrightarrow> holds_plan v p nm \<Longrightarrow> has_applied (report v) p nm"
  by (auto simp: has_applied_def report_def holds_plan_def list_all_iff)

lemma holds_plan_write:
  "holds_plan (write_plan p nm v) q n \<longleftrightarrow> (if n = nm \<and> nm \<in> set (names v) then p = q else holds_plan v q n)"
  by (auto simp: holds_plan_def write_plan_def names_def list_all_iff split_def image_iff)

lemma holds_plan_fold:
  "n \<in> set ns \<Longrightarrow> holds_plan (fold (write_plan p) ns v) p n"
proof (induction ns rule: rev_induct)
  case (snoc m ns)
  then show ?case by (auto simp: holds_plan_def write_plan_def list_all_iff split_def)
qed simp

lemma holds_plan_fold_other:
  "n \<notin> set ns \<Longrightarrow> holds_plan (fold (write_plan p) ns v) q n = holds_plan v q n"
  by (induction ns arbitrary: v) (auto simp: holds_plan_write)

lemma holds_plan_updates [simp]:
  "holds_plan (v\<lparr>pg_phase := x\<rparr>) = holds_plan v" "holds_plan (v\<lparr>pg_paused := b\<rparr>) = holds_plan v"
  by (simp_all add: holds_plan_def fun_eq_iff)

definition working_phases :: "ETCDSnapshotPhase set" where
  "working_phases = {[], ETCDSnapshotPhaseStarted, ETCDSnapshotPhaseShutdown, ETCDSnapshotPhaseRestore,
     ETCDSnapshotPhaseFinished}"

text \<open>Every round brings the restore closer to its end, where it stays.\<close>

lemma advance_closer:
  assumes phase: "pg_phase v \<in> working_phases"
  shows "distance S (advance S (report v)) \<le> distance S v - 1"
    and "pg_phase (advance S (report v)) \<in> working_phases"
    and "names (advance S (report v)) = names v"
proof -
  let ?v = "(report v)\<lparr>pg_paused := True\<rparr>"
  have w [simp]: "holds_plan (write_plan p nm u) p nm" for p nm u
    by (auto simp: holds_plan_def write_plan_def list_all_iff split_def)
  have far: "distance S u \<le> 8" for u by (simp add: distance_def Let_def)
  show "names (advance S (report v)) = names v" by (simp add: advance_def Let_def)
  show "pg_phase (advance S (report v)) \<in> working_phases"
    using phase by (auto simp: advance_def Let_def working_phases_def)
  consider "pg_phase v = [] \<or> pg_phase v = ETCDSnapshotPhaseStarted" | "pg_phase v = ETCDSnapshotPhaseShutdown"
    | "pg_phase v = ETCDSnapshotPhaseRestore" | "pg_phase v = ETCDSnapshotPhaseFinished"
    using phase by (auto simp: working_phases_def)
  then show "distance S (advance S (report v)) \<le> distance S v - 1"
  proof cases
    case 1
    let ?kill = "plan_bytes kill_instructions"
    have "list_all (has_applied (report v) ?kill) (names v)" if "list_all (holds_plan v ?kill) (names v)"
      using that by (auto simp: list_all_iff intro: has_applied_report)
    moreover have "list_all (holds_plan (fold (write_plan ?kill) (names v) ?v) ?kill) (names v)"
      by (auto simp: list_all_iff intro: holds_plan_fold)
    ultimately show ?thesis using 1 by (auto simp: advance_def distance_def Let_def)
  next
    case 2
    then show ?thesis
      using has_applied_report [OF plan_bytes_not_Nil, of v "restore_instructions (si_backup S)" "mc_Name (si_init S)"]
      by (auto simp: advance_def distance_def Let_def)
  next
    case 3
    let ?im = "mc_Name (si_init S)" and ?start = "plan_bytes start_instructions"
      and ?join = "plan_bytes (join_instructions (getInternalMachineIP (si_init S)))"
    let ?others = "filter (\<lambda>n. n \<noteq> ?im) (names v)"
    have "list_all (has_applied (report v) ?join) ?others" if "list_all (holds_plan v ?join) ?others"
      using that by (auto simp: list_all_iff intro: has_applied_report)
    moreover have "list_all (holds_plan (fold (write_plan ?join) ?others u) ?join) ?others" for u
      by (auto simp: list_all_iff intro!: holds_plan_fold)
    moreover have "holds_plan (fold (write_plan ?join) ?others u) ?start ?im = holds_plan u ?start ?im" for u
      by (rule holds_plan_fold_other) simp
    ultimately show ?thesis
      using 3 has_applied_report [OF plan_bytes_not_Nil, of v start_instructions ?im]
      by (auto simp: advance_def distance_def Let_def)
  next
    case 4
    then show ?thesis by (simp add: advance_def distance_def Let_def)
  qed
qed

text \<open>When a restore is finished, the machines are left with the plans that start them.\<close>

definition left_started :: "site \<Rightarrow> progress \<Rightarrow> bool" where
  "left_started S v \<longleftrightarrow> (pg_phase v = ETCDSnapshotPhaseFinished \<longrightarrow>
     holds_plan v (plan_bytes start_instructions) (mc_Name (si_init S)) \<and>
     list_all (holds_plan v (plan_bytes (join_instructions (getInternalMachineIP (si_init S)))))
       (filter (\<lambda>n. n \<noteq> mc_Name (si_init S)) (names v)))"

lemma holds_plan_written [simp]: "holds_plan (write_plan p nm v) p nm"
  by (auto simp: holds_plan_def write_plan_def list_all_iff split_def)

lemma left_started_advance:
  assumes "left_started S v"
  shows "left_started S (advance S (report v))"
proof -
  let ?im = "mc_Name (si_init S)" and ?join = "plan_bytes (join_instructions (getInternalMachineIP (si_init S)))"
  let ?others = "filter (\<lambda>n. n \<noteq> ?im) (names v)"
  have "list_all (holds_plan (fold (write_plan ?join) ?others u) ?join) ?others" for u
    by (auto simp: list_all_iff intro!: holds_plan_fold)
  moreover have "holds_plan (fold (write_plan ?join) ?others u) p ?im = holds_plan u p ?im" for u p
    by (rule holds_plan_fold_other) simp
  ultimately show ?thesis
    using assms by (simp add: left_started_def advance_def Let_def)
qed

definition step_of :: "site \<Rightarrow> progress \<Rightarrow> progress" where
  "step_of S v = advance S (report v)"

lemma steps_closer:
  assumes "pg_phase v \<in> working_phases"
  shows "distance S ((step_of S ^^ n) v) \<le> distance S v - n"
    and "pg_phase ((step_of S ^^ n) v) \<in> working_phases"
proof (induction n)
  case (Suc n)
  note advance_closer [OF Suc(2), of S]
  with Suc(1) show "distance S ((step_of S ^^ Suc n) v) \<le> distance S v - Suc n"
    "pg_phase ((step_of S ^^ Suc n) v) \<in> working_phases"
    by (simp_all add: step_of_def [of S "(step_of S ^^ n) v"])
qed (use assms in simp_all)

lemma steps_left_started: "left_started S v \<Longrightarrow> left_started S ((step_of S ^^ n) v)"
  by (induction n) (simp_all add: step_of_def left_started_advance)

lemma steps_names [simp]: "names ((step_of S ^^ n) v) = names v"
  by (induction n) (simp_all add: step_of_def advance_def Let_def)

lemma distance_le: "distance S v \<le> 8"
  by (simp add: distance_def Let_def)

lemma distance_0: "pg_phase v \<in> working_phases \<Longrightarrow> distance S v = 0 \<Longrightarrow>
    pg_phase v = ETCDSnapshotPhaseFinished \<and> \<not> pg_paused v"
  by (auto simp: distance_def Let_def working_phases_def split: if_splits)

context restore_api begin

lemma rounds_refine:
  assumes agents: "agents_report cd S agents" and ok: "site_ok cd S w"
  shows "site_ok cd S ((round_of c cd agents (si_req S) ^^ n) w)"
    and "view S ((round_of c cd agents (si_req S) ^^ n) w) = (step_of S ^^ n) (view S w)"
proof (induction n)
  case (Suc n)
  let ?w = "(round_of c cd agents (si_req S) ^^ n) w"
  have "site_ok cd S (agents ?w)" "view S (agents ?w) = report (view S ?w)"
    using agents Suc(1) by (simp_all add: agents_report_def)
  moreover obtain w' res where "Reconcile c cd (si_req S) (agents ?w) = (Return (res, None), w')"
    "site_ok cd S w'" "view S w' = advance S (view S (agents ?w))"
    by (rule Reconcile_refines [OF calculation(1)])
  ultimately show "site_ok cd S ((round_of c cd agents (si_req S) ^^ Suc n) w)"
    "view S ((round_of c cd agents (si_req S) ^^ Suc n) w) = (step_of S ^^ Suc n) (view S w)"
    using Suc(2) by (simp_all add: round_of_def [of c cd agents "si_req S" ?w]
      step_of_def [of S "(step_of S ^^ n) (view S w)"])
qed (use ok in simp_all)

end

section \<open>The example\<close>

definition demo_site :: site where
  "demo_site = \<lparr>si_req = key ''ns'' ''r'', si_cluster = ''cl'', si_backup = demo_backup,
     si_machines = map demo_machine [''m1'', ''m2''], si_init = demo_machine ''m1''\<rparr>"

lemma demo_ok: "site_ok demo_codec demo_site demo_store"
  by (simp add: site_ok_def site_fixed_def site_restore_def site_cluster_def site_phase_def init_has_data_def
      plan_secret_ok_def plan_secret_of_def plan_key_def output_ok_def secret_data_def list_items_def
      getInternalMachineIP_def plan_secret_name_def demo_defs demo_site_def)

lemma demo_agents: "agents_report demo_codec S (run_agents out)"
  by (rule agents_report_run_agents) (simp add: readable_output_def demo_codec_def)

lemma demo_phase: "site_phase demo_site demo_store = []"
  by (simp add: site_phase_def demo_defs demo_site_def)

lemma left_started_site:
  assumes "left_started S (view S u)" and "site_ok cd S u" and "site_phase S u = ETCDSnapshotPhaseFinished"
  shows "holds_plan (view S u) (plan_bytes start_instructions) (mc_Name (si_init S)) \<and>
    list_all (\<lambda>m. m = si_init S \<or> holds_plan (view S u)
      (plan_bytes (join_instructions (getInternalMachineIP (si_init S)))) (mc_Name m)) (si_machines S)"
proof -
  have phase: "pg_phase (view S u) = site_phase S u" by (simp add: view_def)
  have name: "mc_Name m \<noteq> mc_Name (si_init S)" if "m \<in> set (si_machines S)" "m \<noteq> si_init S" for m
    using assms(2) site_init [OF assms(2)] that by (auto simp: site_ok_def site_fixed_def distinct_map inj_on_def)
  have left: "holds_plan (view S u) (plan_bytes start_instructions) (mc_Name (si_init S))"
    "list_all (holds_plan (view S u) (plan_bytes (join_instructions (getInternalMachineIP (si_init S)))))
      (filter (\<lambda>n. n \<noteq> mc_Name (si_init S)) (map mc_Name (si_machines S)))"
    using assms(1,3) by (simp_all only: left_started_def phase names_view simp_thms)
  with name show ?thesis by (simp add: list_all_iff) blast
qed

section \<open>A restore that ends\<close>

text \<open>C3: Every reconciliation of a restore whose cluster is set up, against every server with
  the documented laws, is one step of the abstract machine: it returns without an error, asks
  to be run again in half a minute just when its stage is not over, and what it leaves of the phase, the pause, the plans and the reports is what \<^const>\<open>advance\<close>
  says; the setup is kept.\<close>

theorem reconcile_refines_advance:
  assumes "restore_api c" and "site_ok cd S w"
  shows "case Reconcile c cd (si_req S) w of
      (Return (res, err), w') \<Rightarrow> err = None \<and> res = wait_of S (view S w) \<and> site_ok cd S w' \<and> view S w' = advance S (view S w)
    | _ \<Rightarrow> False"
proof -
  obtain w' res where "Reconcile c cd (si_req S) w = (Return (res, None), w')"
    "site_ok cd S w'" "view S w' = advance S (view S w)" "res = wait_of S (view S w)"
    by (rule restore_api.Reconcile_refines [OF assms])
  then show ?thesis by simp
qed

theorem reconcile_refines_advance_witness:
  "case Reconcile server demo_codec (si_req demo_site) demo_store of
      (Return (res, err), w') \<Rightarrow> err = None \<and> res = wait_of demo_site (view demo_site demo_store) \<and>
        site_ok demo_codec demo_site w' \<and>
        view demo_site w' = advance demo_site (view demo_site demo_store)
    | _ \<Rightarrow> False"
  using reconcile_refines_advance [OF restore_server.restore_api_axioms demo_ok] .

lemma restore_ends:
  assumes "restore_api c" and "agents_report cd S agents" and "site_ok cd S w"
    and "site_phase S w \<in> working_phases" and "8 \<le> n"
  defines "w' \<equiv> (round_of c cd agents (si_req S) ^^ n) w"
  shows "site_ok cd S w'" "site_phase S w' = ETCDSnapshotPhaseFinished" "\<not> site_paused S w'"
    and "site_phase S w \<noteq> ETCDSnapshotPhaseFinished \<Longrightarrow>
      holds_plan (view S w') (plan_bytes start_instructions) (mc_Name (si_init S)) \<and>
      list_all (\<lambda>m. m = si_init S \<or> holds_plan (view S w')
        (plan_bytes (join_instructions (getInternalMachineIP (si_init S)))) (mc_Name m)) (si_machines S)"
proof -
  let ?v = "view S w"
  have phase: "pg_phase (view S u) = site_phase S u" "pg_paused (view S u) = site_paused S u" for u
    by (simp_all add: view_def)
  have view: "view S w' = (step_of S ^^ n) ?v" and ok: "site_ok cd S w'"
    unfolding w'_def by (rule restore_api.rounds_refine [OF assms(1-3)])+
  have "distance S (view S w') = 0" "pg_phase (view S w') \<in> working_phases"
    using steps_closer [where v = ?v and S = S and n = n] distance_le [of S ?v] assms(4,5) by (simp_all add: view phase)
  then show fin: "site_phase S w' = ETCDSnapshotPhaseFinished" "\<not> site_paused S w'"
    using distance_0 [of "view S w'" S] by (simp_all add: phase)
  have "left_started S (view S w')" if "site_phase S w \<noteq> ETCDSnapshotPhaseFinished"
    unfolding view by (rule steps_left_started) (simp add: left_started_def phase that)
  from left_started_site [OF this ok fin(1)] show
    "holds_plan (view S w') (plan_bytes start_instructions) (mc_Name (si_init S)) \<and>
      list_all (\<lambda>m. m = si_init S \<or> holds_plan (view S w')
        (plan_bytes (join_instructions (getInternalMachineIP (si_init S)))) (mc_Name m)) (si_machines S)"
    if "site_phase S w \<noteq> ETCDSnapshotPhaseFinished" using that by blast
  show "site_ok cd S w'" by (rule ok)
qed

text \<open>C1: Every restore ends. Take a restore of a cluster that is set up, in any of the phases
  the controller works on, and let the agents report and the controller reconcile in turn:
  after at most eight rounds the restore is finished and the cluster not paused, and so it
  stays. If the restore was not finished before, the init machine is left with the plan that
  starts it and every other machine with the plan that joins it to the init machine.\<close>

theorem restore_converges:
  assumes "restore_api c" and "agents_report cd S agents" and "site_ok cd S w"
    and "site_phase S w \<in> working_phases" and "8 \<le> n"
  shows "let w' = (round_of c cd agents (si_req S) ^^ n) w in
    site_phase S w' = ETCDSnapshotPhaseFinished \<and> \<not> site_paused S w' \<and>
    (site_phase S w = ETCDSnapshotPhaseFinished \<or>
     holds_plan (view S w') (plan_bytes start_instructions) (mc_Name (si_init S)) \<and>
     list_all (\<lambda>m. m = si_init S \<or> holds_plan (view S w')
       (plan_bytes (join_instructions (getInternalMachineIP (si_init S)))) (mc_Name m)) (si_machines S))"
  using restore_ends [OF assms] unfolding Let_def by blast

theorem restore_converges_witness:
  "let w' = (round_of server demo_codec (run_agents ''out'') (si_req demo_site) ^^ 8) demo_store in
    site_phase demo_site w' = ETCDSnapshotPhaseFinished \<and> \<not> site_paused demo_site w' \<and>
    (site_phase demo_site demo_store = ETCDSnapshotPhaseFinished \<or>
     holds_plan (view demo_site w') (plan_bytes start_instructions) (mc_Name (si_init demo_site)) \<and>
     list_all (\<lambda>m. m = si_init demo_site \<or> holds_plan (view demo_site w')
       (plan_bytes (join_instructions (getInternalMachineIP (si_init demo_site)))) (mc_Name m)) (si_machines demo_site))"
proof -
  have "site_phase demo_site demo_store \<in> working_phases" by (simp add: demo_phase working_phases_def)
  from restore_converges [OF restore_server.restore_api_axioms demo_agents demo_ok this order_refl] show ?thesis .
qed

end
