(* ===== verification/Restore_System.thy ===== *)
theory Restore_System
  imports Restore_Convergence
begin

text \<open>
  The restore as a system of the controller and the agents of the machines, interleaved in
  any order: its step relation, and the order of the stages as an invariant of every state
  it can reach.
\<close>

section \<open>The system\<close>

text \<open>One agent reports the plan its machine holds.\<close>

definition report_one :: "string \<Rightarrow> progress \<Rightarrow> progress" where
  "report_one nm v = v\<lparr>pg_machines :=
     map (\<lambda>(n, p, a). (n, p, if n = nm \<and> p \<noteq> [] then plan_checksum p else a)) (pg_machines v)\<rparr>"

text \<open>
  The controller reconciles, or the agent of one machine reports. A change that leaves the
  site and its view as they are, by whoever it is, is a report for no machine.
\<close>

inductive system_step :: "store client \<Rightarrow> codec \<Rightarrow> site \<Rightarrow> store \<Rightarrow> store \<Rightarrow> bool" for c cd S where
  reconciles: "system_step c cd S w (snd (Reconcile c cd (si_req S) w))"
| reports: "site_ok cd S w' \<Longrightarrow> view S w' = report_one nm (view S w) \<Longrightarrow> system_step c cd S w w'"

section \<open>Statements about the machines\<close>

definition at_init :: "site \<Rightarrow> (bytes \<Rightarrow> bytes \<Rightarrow> bool) \<Rightarrow> progress \<Rightarrow> bool" where
  "at_init S P v \<longleftrightarrow> list_all (\<lambda>(n, q, a). n = mc_Name (si_init S) \<longrightarrow> P q a) (pg_machines v)"

definition at_others :: "site \<Rightarrow> (bytes \<Rightarrow> bytes \<Rightarrow> bool) \<Rightarrow> progress \<Rightarrow> bool" where
  "at_others S P v \<longleftrightarrow> list_all (\<lambda>(n, q, a). n \<noteq> mc_Name (si_init S) \<longrightarrow> P q a) (pg_machines v)"

lemma fold_write_plan_machines:
  "pg_machines (fold (write_plan p) ns v) =
     map (\<lambda>(n, q, a). (n, if n \<in> set ns then p else q, a)) (pg_machines v)"
  by (induction ns arbitrary: v) (auto simp: write_plan_def split_def)

lemma in_names: "(n, q, a) \<in> set (pg_machines v) \<Longrightarrow> n \<in> set (names v)"
  by (force simp: names_def)

lemma at_write [simp]:
  "at_init S P (write_plan p (mc_Name (si_init S)) v) = at_init S (\<lambda>q. P p) v"
  "at_others S P (write_plan p (mc_Name (si_init S)) v) = at_others S P v"
  "at_init S P (fold (write_plan p) (filter (\<lambda>n. n \<noteq> mc_Name (si_init S)) ns) u) = at_init S P u"
  "names u = names v \<Longrightarrow> at_init S P (fold (write_plan p) (names v) u) = at_init S (\<lambda>q. P p) u"
  "names u = names v \<Longrightarrow> at_others S P (fold (write_plan p) (names v) u) = at_others S (\<lambda>q. P p) u"
  "names u = names v \<Longrightarrow>
    at_others S P (fold (write_plan p) (filter (\<lambda>n. n \<noteq> mc_Name (si_init S)) (names v)) u) = at_others S (\<lambda>q. P p) u"
  using in_names [of _ _ _ u]
  by (force simp: at_init_def at_others_def write_plan_def fold_write_plan_machines list_all_iff)+

lemma at_updates [simp]:
  "at_init S P (v\<lparr>pg_phase := x\<rparr>) = at_init S P v" "at_init S P (v\<lparr>pg_paused := b\<rparr>) = at_init S P v"
  "at_others S P (v\<lparr>pg_phase := x\<rparr>) = at_others S P v" "at_others S P (v\<lparr>pg_paused := b\<rparr>) = at_others S P v"
  by (simp_all add: at_init_def at_others_def)

lemma applied_at [simp]:
  "has_applied v p (mc_Name (si_init S)) = at_init S (\<lambda>q a. a = plan_checksum p) v"
  "list_all (has_applied v p) (filter (\<lambda>n. n \<noteq> mc_Name (si_init S)) (names v)) =
     at_others S (\<lambda>q a. a = plan_checksum p) v"
  unfolding has_applied_def at_init_def at_others_def names_def list_all_iff
  by (fastforce split: prod.splits)+

lemma applied_names:
  "list_all (has_applied v p) (names v) \<longleftrightarrow>
     at_init S (\<lambda>q a. a = plan_checksum p) v \<and> at_others S (\<lambda>q a. a = plan_checksum p) v"
  unfolding has_applied_def at_init_def at_others_def names_def list_all_iff
  by (fastforce split: prod.splits)

lemma at_mono:
  "at_init S P v \<Longrightarrow> (\<And>q a. P q a \<Longrightarrow> Q q a) \<Longrightarrow> at_init S Q v"
  "at_others S P v \<Longrightarrow> (\<And>q a. P q a \<Longrightarrow> Q q a) \<Longrightarrow> at_others S Q v"
  by (auto simp: at_init_def at_others_def list_all_iff)

lemma at_conj:
  "at_init S (\<lambda>q a. P q a \<and> Q q a) v \<longleftrightarrow> at_init S P v \<and> at_init S Q v"
  "at_others S (\<lambda>q a. P q a \<and> Q q a) v \<longleftrightarrow> at_others S P v \<and> at_others S Q v"
  by (auto simp: at_init_def at_others_def list_all_iff)

lemma at_report_one:
  "at_init S P v \<Longrightarrow> (\<And>q a. P q a \<Longrightarrow> P q (plan_checksum q)) \<Longrightarrow> at_init S P (report_one nm v)"
  "at_others S P v \<Longrightarrow> (\<And>q a. P q a \<Longrightarrow> P q (plan_checksum q)) \<Longrightarrow> at_others S P (report_one nm v)"
  by (fastforce simp: at_init_def at_others_def report_one_def list_all_iff)+

lemma report_one_simps [simp]:
  "pg_phase (report_one nm v) = pg_phase v" "pg_paused (report_one nm v) = pg_paused v"
  by (simp_all add: report_one_def)

section \<open>The order of the stages\<close>

text \<open>
  What the plans and the reports of the machines can be in each phase: each machine holds
  the plan of its stage, and what its agent reports is that plan or the one before. No
  machine is told to join before the init machine has reported that it started.
\<close>

definition ordered :: "site \<Rightarrow> progress \<Rightarrow> bool" where
  "ordered S v \<longleftrightarrow>
     (let kill = plan_bytes kill_instructions;
          restore = plan_bytes (restore_instructions (si_backup S));
          start = plan_bytes start_instructions;
          join = plan_bytes (join_instructions (getInternalMachineIP (si_init S)));
          killed = at_others S (\<lambda>q a. q = kill \<and> a = plan_checksum kill) v
      in if pg_phase v = [] \<or> pg_phase v = ETCDSnapshotPhaseStarted then True
         else if pg_phase v = ETCDSnapshotPhaseShutdown then
           pg_paused v \<and> killed \<and>
           at_init S (\<lambda>q a. q = kill \<and> a = plan_checksum kill
              \<or> q = restore \<and> (a = plan_checksum kill \<or> a = plan_checksum restore)) v
         else if pg_phase v = ETCDSnapshotPhaseRestore then
           pg_paused v \<and>
           at_init S (\<lambda>q a. q = restore \<and> a = plan_checksum restore
              \<or> q = start \<and> (a = plan_checksum restore \<or> a = plan_checksum start)) v \<and>
           (killed \<or>
            at_init S (\<lambda>q a. q = start \<and> a = plan_checksum start) v \<and>
            at_others S (\<lambda>q a. q = join \<and> (a = plan_checksum kill \<or> a = plan_checksum join)) v)
         else pg_phase v = ETCDSnapshotPhaseFinished \<and>
           at_init S (\<lambda>q a. q = start \<and> a = plan_checksum start) v \<and>
           at_others S (\<lambda>q a. q = join \<and> a = plan_checksum join) v)"

lemma ordered_report_one: "ordered S v \<Longrightarrow> ordered S (report_one nm v)"
  unfolding ordered_def Let_def
  by (auto intro!: at_report_one split: if_splits)

lemma ordered_advance:
  assumes "ordered S v"
  shows "ordered S (advance S v)"
proof -
  note [simp] = advance_def Let_def
  consider "pg_phase v = [] \<or> pg_phase v = ETCDSnapshotPhaseStarted" | "pg_phase v = ETCDSnapshotPhaseShutdown"
    | "pg_phase v = ETCDSnapshotPhaseRestore" | "pg_phase v = ETCDSnapshotPhaseFinished"
    using assms by (auto simp: ordered_def Let_def split: if_splits)
  then show ?thesis
  proof cases
    case 1
    then show ?thesis
      using applied_names [of v "plan_bytes kill_instructions" S]
      by (auto simp: ordered_def elim: at_mono)
  next
    case 2
    with assms show ?thesis
      by (auto simp: ordered_def elim: at_mono)
  next
    case 3
    let ?start = "plan_bytes start_instructions" and ?kill = "plan_bytes kill_instructions"
      and ?join = "plan_bytes (join_instructions (getInternalMachineIP (si_init S)))"
    have "at_init S (\<lambda>q a. a = plan_checksum ?start) v"
      if "at_init S (\<lambda>q a. q = ?start \<and> a = plan_checksum ?start) v"
      by (rule at_mono(1) [OF that]) simp
    moreover have "at_others S (\<lambda>q a. a = plan_checksum ?kill \<or> a = plan_checksum ?join) v"
      if "at_others S (\<lambda>q a. q = ?kill \<and> a = plan_checksum ?kill) v \<or>
        at_others S (\<lambda>q a. q = ?join \<and> (a = plan_checksum ?kill \<or> a = plan_checksum ?join)) v"
      using that by (auto elim: at_mono(2))
    ultimately show ?thesis
      using 3 assms by (auto simp: ordered_def elim: at_mono)
  next
    case 4
    with assms show ?thesis by (simp add: ordered_def)
  qed
qed

text \<open>C4: However the controller and the agents take turns, a restore goes through its stages
  in order. From a restore that has not begun, every state the system can reach is still set
  up, and its machines hold the plans of the phase it is in: the snapshot is restored only on
  machines that all reported the kill, with the cluster paused; the others join only after
  the init machine reported that it started; and a restore is finished only when every
  machine reported its last plan.\<close>

theorem restore_ordered:
  assumes "restore_api c" and "site_ok cd S w" and "site_phase S w \<in> {[], ETCDSnapshotPhaseStarted}"
    and "(system_step c cd S)\<^sup>*\<^sup>* w w'"
  shows "site_ok cd S w' \<and> ordered S (view S w')"
  using assms(4)
proof (induction rule: rtranclp_induct)
  case base
  from assms(2,3) show ?case by (auto simp: ordered_def view_def)
next
  case (step u u')
  from step.hyps(2) show ?case
  proof cases
    case reconciles
    obtain v res where "Reconcile c cd (si_req S) u = (Return (res, None), v)"
      "site_ok cd S v" "view S v = advance S (view S u)"
      using restore_api.Reconcile_refines [OF assms(1)] step.IH by blast
    with reconciles step.IH show ?thesis by (simp add: ordered_advance)
  next
    case (reports nm)
    with step.IH show ?thesis by (simp add: ordered_report_one)
  qed
qed

theorem restore_ordered_witness:
  "site_ok demo_codec demo_site (snd (Reconcile server demo_codec (si_req demo_site) demo_store)) \<and>
   ordered demo_site (view demo_site (snd (Reconcile server demo_codec (si_req demo_site) demo_store)))"
  by (rule restore_ordered [OF restore_server.restore_api_axioms demo_ok])
    (auto simp: demo_phase intro: system_step.reconciles)

end
