(* ===== verification/Restore_Faults.thy ===== *)
theory Restore_Faults
  imports Restore_System
begin

text \<open>
  Where a restore gets stuck: what the controller does when the backup names a machine that
  is not there, when the init machine's plan secret has no data, and in the phases it
  declares and does not handle.
\<close>

section \<open>The example in other phases\<close>

definition demo_in :: "ETCDSnapshotPhase \<Rightarrow> store" where
  "demo_in p = demo_store\<lparr>st_restores := [(key ''ns'' ''r'', demo_restore p)]\<rparr>"

definition demo_scope :: "string \<Rightarrow> scope" where
  "demo_scope nm = \<lparr>sc_cluster = demo_cluster, sc_machines = map demo_machine [''m1'', ''m2''],
     sc_initMachine = find_init_machine (map demo_machine [''m1'', ''m2'']) nm,
     sc_etcdmachinebackup = demo_backup\<lparr>mb_Spec := (mb_Spec demo_backup)\<lparr>mbs_MachineName := nm\<rparr>\<rparr>\<rparr>"

text \<open>The machine of the backup is gone.\<close>

definition demo_lost :: store where
  "demo_lost = demo_store\<lparr>st_backups := [(key ''ns'' ''b'', sc_etcdmachinebackup (demo_scope ''gone''))]\<rparr>"

lemma demo_in_ok: "p \<noteq> ETCDSnapshotPhaseRestore \<Longrightarrow> site_ok demo_codec demo_site (demo_in p)"
  by (simp add: site_ok_def site_fixed_def site_restore_def site_cluster_def site_phase_def init_has_data_def
      plan_secret_ok_def plan_secret_of_def plan_key_def output_ok_def secret_data_def list_items_def
      getInternalMachineIP_def plan_secret_name_def demo_in_def demo_defs demo_site_def)

section \<open>Panics\<close>

text \<open>C19: A restore of a backup whose machine is not among the listed ones panics once its
  machines are stopped: the search for the init machine starts from a pointer to an empty
  machine, so the test for a missing init machine never fires, and the empty machine has no
  bootstrap configuration.\<close>

theorem unmatched_init_machine_panics:
  assumes "newScope c r w = (Return sc, w1)"
    and "list_all (\<lambda>m. mc_Name m \<noteq> mbs_MachineName (mb_Spec (sc_etcdmachinebackup sc))
      \<and> mc_Phase m = MachinePhaseRunning) (sc_machines sc)"
    and "patch_Cluster c (sc_cluster sc) ((sc_cluster sc)\<lparr>cl_Paused := True\<rparr>) w1 = (Inr cl, w2)"
    and "sr_Phase r = ETCDSnapshotPhaseShutdown" and "mbs_Location (mb_Spec (sc_etcdmachinebackup sc)) \<noteq> []"
  shows "reconcile_scope c cd r w = (Panicked (NilDereference ''machine.Spec.Bootstrap.ConfigRef''), w2)"
proof -
  have "sc_initMachine sc = find_init_machine (sc_machines sc) (mbs_MachineName (mb_Spec (sc_etcdmachinebackup sc)))"
    using assms(1) by (auto simp: newScope_def ret_run fail_run elim!: bind_err_ReturnE split: if_splits)
  moreover have "find (\<lambda>m. mc_Name m = mbs_MachineName (mb_Spec (sc_etcdmachinebackup sc))) (sc_machines sc) = None"
    using assms(2) by (auto simp: find_None_iff list_all_iff)
  ultimately have init: "sc_initMachine sc = Some empty_machine" by (simp add: find_init_machine_def)
  have "list_all (\<lambda>m. mc_Phase m = MachinePhaseRunning) (sc_machines sc)"
    using assms(2) by (simp add: list_all_iff)
  then show ?thesis
    using assms(4,5) init
    by (simp add: reconcile_scope_def bind_err_Return assms(1) call_Inr [of "patch_Cluster c (sc_cluster sc) ((sc_cluster sc)\<lparr>cl_Paused := True\<rparr>)", OF assms(3)]
        restoreSnaphotOnInitMachine_def getPlanSecretForMachine_def empty_machine_def bind_err_Panicked panicking_run)
qed

theorem unmatched_init_machine_panics_witness:
  "reconcile_scope server demo_codec (demo_restore ETCDSnapshotPhaseShutdown) demo_lost =
     (Panicked (NilDereference ''machine.Spec.Bootstrap.ConfigRef''),
      snd (patch_Cluster server demo_cluster (demo_cluster\<lparr>cl_Paused := True\<rparr>) demo_lost))"
proof (rule unmatched_init_machine_panics)
  show "newScope server (demo_restore ETCDSnapshotPhaseShutdown) demo_lost = (Return (demo_scope ''gone''), demo_lost)"
    by (simp add: newScope_def bind_err_def call_def server_def get_item_def list_items_def ret_run
        demo_lost_def demo_scope_def demo_defs)
qed (simp_all add: demo_scope_def demo_lost_def demo_defs server_def patch_item_def merge_cluster_def merge_field_def
    stamp_cluster_def Let_def)

text \<open>C20: Starting the init machine panics when its plan secret has no data: the code that
  stops and restores a machine makes the map when it is nil, the code that starts the init
  machine writes to it as it is.\<close>

theorem start_without_data_panics:
  assumes "getPlanSecretForMachine c im w = (Return s, w1)" and "sec_Data s = None"
    and "sc_initMachine sc = Some im" and "getInternalMachineIP im \<noteq> []"
  shows "startRKE2OnAllMachines c cd sc r w = (Panicked NilMapWrite, w1)"
  using assms
  by (simp add: startRKE2OnAllMachines_def bind_err_Return updatePlanSecretWithPlan_def secret_data_def
      plan_bytes_not_Nil [symmetric] bind_err_Panicked panicking_run)

theorem start_without_data_panics_witness:
  "startRKE2OnAllMachines server demo_codec (demo_scope ''m1'') (demo_restore ETCDSnapshotPhaseRestore) demo_store =
     (Panicked NilMapWrite, demo_store)"
  by (rule start_without_data_panics [where im = "demo_machine ''m1''" and s = "demo_secret ''m1-rke2config-plan''"])
    (simp_all add: getPlanSecretForMachine_def bind_err_def call_def server_def get_item_def ret_run plan_secret_name_def
      demo_scope_def demo_defs find_init_machine_def getInternalMachineIP_def)

section \<open>Phases nobody handles\<close>

definition unhandled_phases :: "ETCDSnapshotPhase list" where
  "unhandled_phases = [ETCDSnapshotPhasePostRestorePodCleanup, ETCDSnapshotPhaseInitialRestartCluster,
     ETCDSnapshotPhasePostRestoreNodeCleanup, ETCDSnapshotPhaseRestartCluster, ETCDSnapshotPhaseFailed]"

lemma unhandled_not_working: "set unhandled_phases \<inter> working_phases = {}"
  by (auto simp: unhandled_phases_def working_phases_def)

text \<open>C21: A restore in a phase the controller has no case for leaves the cluster paused for
  good: every round succeeds without asking for another, the cluster is paused after it, and
  neither the phase nor any plan ever changes. The declared phases of the clean-up, of the
  restart and of failure are such phases.\<close>

theorem unhandled_phase_stuck:
  assumes "restore_api c" and "site_ok cd S w" and "site_phase S w \<in> set unhandled_phases"
  shows "case Reconcile c cd (si_req S) w of
      (Return (res, err), w') \<Rightarrow> err = None \<and> res = no_requeue \<and> site_ok cd S w' \<and>
        view S w' = (view S w)\<lparr>pg_paused := True\<rparr>
    | _ \<Rightarrow> False"
proof -
  obtain w' res where "Reconcile c cd (si_req S) w = (Return (res, None), w')"
    "site_ok cd S w'" "view S w' = advance S (view S w)" "res = wait_of S (view S w)"
    by (rule restore_api.Reconcile_refines [OF assms(1,2)])
  moreover have "pg_phase (view S w) \<notin> working_phases" "pg_phase (view S w) \<noteq> []"
    using assms(3) unhandled_not_working by (auto simp: view_def working_phases_def)
  ultimately show ?thesis
    by (simp add: advance_def wait_of_def working_phases_def Let_def)
qed

theorem unhandled_phase_stuck_witness:
  "case Reconcile server demo_codec (si_req demo_site) (demo_in ETCDSnapshotPhaseFailed) of
      (Return (res, err), w') \<Rightarrow> err = None \<and> res = no_requeue \<and> site_ok demo_codec demo_site w' \<and>
        view demo_site w' = (view demo_site (demo_in ETCDSnapshotPhaseFailed))\<lparr>pg_paused := True\<rparr>
    | _ \<Rightarrow> False"
  by (rule unhandled_phase_stuck [OF restore_server.restore_api_axioms demo_in_ok])
    (simp_all add: unhandled_phases_def site_phase_def demo_in_def demo_defs demo_site_def)

end
