(* ===== verification/Write_Conflicts.thy ===== *)
theory Write_Conflicts
  imports Restore_Safety Demo_Cluster
begin

text \<open>
  Writing a plan while others write to the same secret, the agent of the machine above all:
  the optimistic lock of the patch makes the write happen on the version that was read, or
  not at all.
\<close>

lemma ensure_data_Some:
  obtains d where "sec_Data (ensure_data s) = Some d" "sec_Data s = Some d \<or> sec_Data s = None \<and> d = []"
  by (cases "sec_Data s") (auto simp: ensure_data_def)

context restore_api begin

lemma plan_write:
  assumes stored: "map_of (st_secrets w) (key_of (sec_meta s)) = Some s" and new: "secret_data s ''plan'' \<noteq> data"
  obtains s' w' where "updatePlanSecretWithPlan c (Some m) (ensure_data s) data w = (Return s', w')"
    "map_of (st_secrets w') = (map_of (st_secrets w))(key_of (sec_meta s) \<mapsto> s')"
    "w'\<lparr>st_secrets := [], st_version := 0\<rparr> = w\<lparr>st_secrets := [], st_version := 0\<rparr>"
    "\<And>k. secret_data s' k = (if k = ''plan'' then data else secret_data s k)"
proof -
  obtain d where d: "sec_Data (ensure_data s) = Some d" "sec_Data s = Some d \<or> sec_Data s = None \<and> d = []"
    by (rule ensure_data_Some)
  let ?m = "(ensure_data s)\<lparr>sec_Data := Some (map_assign ''plan'' data d)\<rparr>"
  have "map_of (st_secrets w) (key_of (sec_meta s)) = Some s" "key_of (sec_meta ?m) = key_of (sec_meta s)"
    "om_ResourceVersion (sec_meta (ensure_data s)) = om_ResourceVersion (sec_meta s)" using stored by simp_all
  then obtain v w' where "call (patch_Secret c (ensure_data s) ?m) w = (Return (stamp_secret v (merge_secret (ensure_data s) ?m s)), w')"
    "map_of (st_secrets w') = (map_of (st_secrets w))(key_of (sec_meta s) \<mapsto> stamp_secret v (merge_secret (ensure_data s) ?m s))"
    "w'\<lparr>st_secrets := [], st_version := 0\<rparr> = w\<lparr>st_secrets := [], st_version := 0\<rparr>"
    by (rule secrets.call_patch)
  with that d(1) new merge_secret_assign(1) [OF d] show thesis
    by (simp add: updatePlanSecretWithPlan_def bind_err_Return ret_run)
qed

lemma plan_write_stale:
  assumes stored: "map_of (st_secrets w) (key_of (sec_meta s)) = Some cur"
    and stale: "om_ResourceVersion (sec_meta s) \<noteq> om_ResourceVersion (sec_meta cur)" and new: "secret_data s ''plan'' \<noteq> data"
  obtains e where "updatePlanSecretWithPlan c (Some m) (ensure_data s) data w = (Error e, w)"
proof -
  obtain d where d: "sec_Data (ensure_data s) = Some d" by (rule ensure_data_Some)
  let ?m = "(ensure_data s)\<lparr>sec_Data := Some (map_assign ''plan'' data d)\<rparr>"
  obtain e where "patch_Secret c (ensure_data s) ?m w = (Inl e, w)"
    using secrets.patch_stale [of w ?m cur "ensure_data s"] stored stale by auto
  with that d new show thesis
    by (simp add: updatePlanSecretWithPlan_def bind_err_def call_def ret_run)
qed

end

text \<open>C10: A plan is written without losing what others wrote. The controller holds a secret it
  read some time ago, while the server's may have changed. When the plan is there already,
  nothing is sent; when the secret is still the one that was read, the new one differs in its
  plan entry only and nothing else on the server changes; when somebody has written to it in
  between, the call fails and the server's secret stays as they left it.\<close>

theorem plan_write_loses_nothing:
  assumes "restore_api c" and "map_of (st_secrets w) (key_of (sec_meta s)) = Some cur"
    and "om_ResourceVersion (sec_meta s) = om_ResourceVersion (sec_meta cur) \<longrightarrow> cur = s"
  shows "case updatePlanSecretWithPlan c (Some m) (ensure_data s) data w of
      (Return s', w') \<Rightarrow>
        if secret_data s ''plan'' = data then s' = ensure_data s \<and> w' = w
        else cur = s \<and> map_of (st_secrets w') = (map_of (st_secrets w))(key_of (sec_meta s) \<mapsto> s') \<and>
          (\<forall>k. secret_data s' k = (if k = ''plan'' then data else secret_data s k)) \<and>
          w'\<lparr>st_secrets := [], st_version := 0\<rparr> = w\<lparr>st_secrets := [], st_version := 0\<rparr>
    | (Error e, w') \<Rightarrow> w' = w \<and> cur \<noteq> s
    | (Panicked p, w') \<Rightarrow> False"
proof (cases "secret_data s ''plan'' = data")
  case True
  then show ?thesis by (simp add: updatePlanSecretWithPlan_def ret_run)
next
  case new: False
  show ?thesis
  proof (cases "cur = s")
    case True
    show ?thesis
      by (rule restore_api.plan_write [OF assms(1) assms(2) [unfolded True] new, where m = m]) (simp add: new True)
  next
    case False
    then have "om_ResourceVersion (sec_meta s) \<noteq> om_ResourceVersion (sec_meta cur)" using assms(3) by blast
    then obtain e where "updatePlanSecretWithPlan c (Some m) (ensure_data s) data w = (Error e, w)"
      by (rule restore_api.plan_write_stale [OF assms(1,2) _ new])
    with False show ?thesis by simp
  qed
qed

text \<open>The secret of the first machine, after its agent has reported.\<close>

definition demo_reported :: secret where
  "demo_reported = (demo_secret ''m1-rke2config-plan'')\<lparr>sec_meta := (meta_for ''m1-rke2config-plan'' ''ns'')\<lparr>om_ResourceVersion := 2\<rparr>,
     sec_Data := Some [(''applied-checksum'', ''c'')]\<rparr>"

definition demo_read :: secret where "demo_read = demo_secret ''m1-rke2config-plan''"

definition demo_moved :: store where
  "demo_moved = demo_store\<lparr>st_secrets := [(key ''ns'' ''m1-rke2config-plan'', demo_reported)]\<rparr>"

theorem plan_write_loses_nothing_witness:
  "case updatePlanSecretWithPlan server (Some (demo_machine ''m1'')) (ensure_data demo_read) ''p''
       demo_moved of
      (Return s', w') \<Rightarrow>
        if secret_data demo_read ''plan'' = ''p''
        then s' = ensure_data demo_read \<and>
          w' = demo_moved
        else demo_reported = demo_read \<and>
          map_of (st_secrets w') = (map_of (st_secrets demo_moved))
            (key_of (sec_meta demo_read) \<mapsto> s') \<and>
          (\<forall>k. secret_data s' k = (if k = ''plan'' then ''p'' else secret_data demo_read k)) \<and>
          w'\<lparr>st_secrets := [], st_version := 0\<rparr> =
            demo_moved\<lparr>st_secrets := [], st_version := 0\<rparr>
    | (Error e, w') \<Rightarrow> w' = demo_moved \<and>
        demo_reported \<noteq> demo_read
    | (Panicked p, w') \<Rightarrow> False"
  by (rule plan_write_loses_nothing [OF restore_server.restore_api_axioms])
    (simp_all add: demo_moved_def demo_reported_def demo_read_def demo_secret_def)

end
