(* ===== verification/Snapshot_Sync.thy ===== *)
theory Snapshot_Sync
  imports Kube_Client
begin

text \<open>
  \<open>internal/controller/etcdsnaphotsync_controller.go\<close>: the reconciler that watches the
  \<open>ETCDSnapshotFile\<close> objects of a workload cluster and creates an \<open>EtcdMachineBackup\<close> in
  the management cluster for each snapshot that is ready. The cluster cache tracker of the
  Cluster API, which opens the connection to the workload cluster, is a parameter.
\<close>

section \<open>Dynamic values\<close>

text \<open>What \<open>%T\<close> prints for a value of an unstructured object; integers that fit are \<open>int64\<close>.\<close>

definition digits_value :: "string \<Rightarrow> int" where
  "digits_value ds = foldl (\<lambda>n d. 10 * n + (of_char d - 48)) 0 ds"

definition is_digit :: "char \<Rightarrow> bool" where
  "is_digit c \<longleftrightarrow> (of_char c :: nat) \<in> {48..57}"

definition fits_int64 :: "string \<Rightarrow> bool" where
  "fits_int64 n = (case n of
     [] \<Rightarrow> False
   | c # cs \<Rightarrow>
       if c = CHR ''-'' then cs \<noteq> [] \<and> list_all is_digit cs \<and> digits_value cs \<le> 2 ^ 63
       else list_all is_digit n \<and> digits_value n < 2 ^ 63)"

fun go_type :: "json option \<Rightarrow> string" where
  "go_type None = ''<nil>''"
| "go_type (Some JNull) = ''<nil>''"
| "go_type (Some (JBool b)) = ''bool''"
| "go_type (Some (JNumber n)) = (if fits_int64 n then ''int64'' else ''float64'')"
| "go_type (Some (JString s)) = ''string''"
| "go_type (Some (JArray vs)) = ''[]interface {}''"
| "go_type (Some (JObject m)) = ''map[string]interface {}''"

text \<open>The checked type assertions \<open>v.(T)\<close>.\<close>

fun assert_map :: "json option \<Rightarrow> json go_map option" where
  "assert_map (Some (JObject m)) = Some m"
| "assert_map _ = None"

fun assert_string :: "json option \<Rightarrow> string option" where
  "assert_string (Some (JString s)) = Some s"
| "assert_string _ = None"

fun assert_bool :: "json option \<Rightarrow> bool option" where
  "assert_bool (Some (JBool b)) = Some b"
| "assert_bool _ = None"

section \<open>Snapshot files\<close>

record snapshot_fields =
  sf_location :: string
  sf_nodeName :: string
  sf_snapshotName :: string
  sf_readyToUse :: bool

definition extractFieldsFromETCDSnapshotFile :: "unstructured \<Rightarrow> go_error + snapshot_fields" where
  "extractFieldsFromETCDSnapshotFile f =
     (let v = map_of (un_Object f) in
      case assert_map (v ''metadata'') of
        None \<Rightarrow> Inl (Errorf (''failed to get metadata from etcd snapshot file, expected a map[string]interface{}, got ''
                  @ go_type (v ''metadata'')))
      | Some metadata \<Rightarrow>
     (case assert_string (map_of metadata ''name'') of
        None \<Rightarrow> Inl (Errorf (''failed to get snapshotName from etcd snapshot file spec, expected a string, got ''
                  @ go_type (map_of metadata ''name'')))
      | Some snapshotName \<Rightarrow>
     (case assert_map (v ''spec'') of
        None \<Rightarrow> Inl (Errorf (''failed to get spec from etcd snapshot file expected a map[string]interface{}, got ''
                  @ go_type (v ''spec'')))
      | Some spec \<Rightarrow>
     (case assert_string (map_of spec ''location'') of
        None \<Rightarrow> Inl (Errorf (''failed to get location from etcd snapshot file spec, expected a string, got ''
                  @ go_type (map_of spec ''location'')))
      | Some location \<Rightarrow>
     (case assert_string (map_of spec ''nodeName'') of
        None \<Rightarrow> Inl (Errorf (''failed to get nodeName from etcd snapshot file spec, expected a string, got ''
                  @ go_type (map_of spec ''nodeName'')))
      | Some nodeName \<Rightarrow>
     (case assert_map (v ''status'') of
        None \<Rightarrow> Inl (Errorf (''failed to get status from etcd snapshot file expected a map[string]interface{}, got ''
                  @ go_type (v ''status'')))
      | Some status \<Rightarrow>
     (case assert_bool (map_of status ''readyToUse'') of
        None \<Rightarrow> Inl (Errorf (''failed to get readyToUse from etcd snapshot file status, expected a bool, got ''
                  @ go_type (map_of status ''readyToUse'')))
      | Some readyToUse \<Rightarrow>
          Inr \<lparr>sf_location = location, sf_nodeName = nodeName, sf_snapshotName = snapshotName,
               sf_readyToUse = readyToUse\<rparr>)))))))"

section \<open>Machines\<close>

text \<open>The loop over the machines: the first of the cluster on the node; a machine without a
  node reference panics when it is looked at.\<close>

fun machine_on_node :: "string \<Rightarrow> string \<Rightarrow> machine list \<Rightarrow> ('w, string) go" where
  "machine_on_node cluster_name nodeName [] = ret []"
| "machine_on_node cluster_name nodeName (m # ms) =
     (if mc_ClusterName m = cluster_name then
        bind_go (deref ''machine.Status.NodeRef'' (mc_NodeRef m)) (\<lambda>ref.
          if or_Name ref = nodeName then ret (mc_Name m)
          else machine_on_node cluster_name nodeName ms)
      else machine_on_node cluster_name nodeName ms)"

definition findMachineForBackup :: "'w client \<Rightarrow> cluster \<Rightarrow> string \<Rightarrow> ('w, string) go" where
  "findMachineForBackup c cluster nodeName =
     bind_err (call (list_Machine c [InNamespace (om_Namespace (cl_meta cluster))]))
       (Wrapf ''failed to list machines: '')
       (machine_on_node (om_Name (cl_meta cluster)) nodeName)"

section \<open>The watch\<close>

definition snapshot_gvk :: group_version_kind where
  "snapshot_gvk = \<lparr>gvk_Group = ''k3s.cattle.io'', gvk_Version = ''v1'', gvk_Kind = ''ETCDSnapshotFile''\<rparr>"

abbreviation cluster_key :: "cluster \<Rightarrow> object_key" where
  "cluster_key cl \<equiv> key (om_Namespace (cl_meta cl)) (om_Name (cl_meta cl))"

text \<open>The function that maps an event of the workload cluster to requests.\<close>

definition etcdSnapshotFile :: "cluster \<Rightarrow> group_version_kind \<Rightarrow> object_key list outcome" where
  "etcdSnapshotFile cluster gvk =
     (if gvk \<noteq> snapshot_gvk then
        Panicked (ExplicitPanic (''Expected a '' @ gvk_String snapshot_gvk @ '' but got a '' @ gvk_String gvk))
      else Return [cluster_key cluster])"

record watch_input =
  wi_Name :: string
  wi_Cluster :: object_key
  wi_Kind :: group_version_kind
  wi_EventHandler :: "group_version_kind \<Rightarrow> object_key list outcome"

text \<open>The tracker: starting a watch, opening a client, listing with that client.\<close>

record ('w, 'rc) tracker =
  tracker_Watch :: "watch_input \<Rightarrow> ('w, unit) go"
  tracker_GetClient :: "object_key \<Rightarrow> ('w, 'rc) go"
  remote_List :: "'rc \<Rightarrow> group_version_kind \<Rightarrow> ('w, unstructured list) go"

section \<open>Reconcile\<close>

definition backup_for :: "cluster \<Rightarrow> snapshot_fields \<Rightarrow> string \<Rightarrow> EtcdMachineBackup" where
  "backup_for cluster sf machineName =
     \<lparr>mb_meta = meta_for (sf_snapshotName sf) (om_Namespace (cl_meta cluster)),
      mb_Spec = \<lparr>mbs_ClusterName = om_Name (cl_meta cluster), mbs_MachineName = machineName,
                 mbs_Location = sf_location sf, mbs_Manual = False\<rparr>,
      mb_Status = \<lparr>mbst_Conditions = []\<rparr>\<rparr>"

text \<open>One iteration of the loop over the snapshot files.\<close>

definition sync_file :: "'w client \<Rightarrow> cluster \<Rightarrow> unstructured \<Rightarrow> unit \<Rightarrow> ('w, unit) go" where
  "sync_file c cluster f u =
     bind_err (of_result (extractFieldsFromETCDSnapshotFile f))
       (Wrapf ''failed to extract fields from etcd snapshot file: '') (\<lambda>sf.
     if \<not> sf_readyToUse sf then ret ()
     else
       bind_err (findMachineForBackup c cluster (sf_nodeName sf))
         (Wrapf ''failed to find machine for backup: '') (\<lambda>machineName.
       if machineName = [] then ret ()
       else
         bind_go (attempt (create c (OEtcdMachineBackup (backup_for cluster sf machineName)))) (\<lambda>created.
         case created of
           Inl e \<Rightarrow> if IsAlreadyExists e then ret ()
                    else fail (Wrapf ''failed to create EtcdMachineBackup: '' (ApiError e))
         | Inr _ \<Rightarrow> ret ())))"

definition three_minutes :: ctrl_result where "three_minutes = requeue_after (3 * minute)"

text \<open>The part of \<open>Reconcile\<close> whose errors come with an empty result.\<close>

definition sync_cluster ::
  "'w client \<Rightarrow> ('w, 'rc) tracker \<Rightarrow> cluster \<Rightarrow> ('w, ctrl_result) go" where
  "sync_cluster c tr cluster =
     (if cl_Paused cluster then ret no_requeue
      else
        bind_go (deref ''cluster.Spec.ControlPlaneRef'' (cl_ControlPlaneRef cluster)) (\<lambda>ref.
        if or_Kind ref \<noteq> ''RKE2ControlPlane'' then ret three_minutes
        else if \<not> cl_ControlPlaneReady cluster then ret three_minutes
        else
          bind_err (tracker_Watch tr
              \<lparr>wi_Name = ''cluster-watchConfigMapWithRestore'', wi_Cluster = cluster_key cluster,
               wi_Kind = snapshot_gvk, wi_EventHandler = etcdSnapshotFile cluster\<rparr>)
            (Wrapf ''failed to start watch for nodes: '') (\<lambda>_.
          bind_go (tracker_GetClient tr (cluster_key cluster)) (\<lambda>remoteClient.
          bind_err (remote_List tr remoteClient snapshot_gvk)
            (Wrapf ''failed to list etcd snapshot files: '') (\<lambda>files.
          bind_go (for_range (sync_file c cluster) files ()) (\<lambda>_. ret no_requeue))))))"

definition Reconcile_sync ::
  "'w client \<Rightarrow> ('w, 'rc) tracker \<Rightarrow> object_key \<Rightarrow> ('w, ctrl_result \<times> go_error option) go" where
  "Reconcile_sync c tr req =
     bind_go (attempt (get_Cluster c req)) (\<lambda>got. case got of
       Inl e \<Rightarrow> ret (requeue_now, if IsNotFound e then None else Some (ApiError e))
     | Inr cluster \<Rightarrow>
         bind_go (catch_err (sync_cluster c tr cluster)) (\<lambda>r. case r of
           Inl e \<Rightarrow> ret (no_requeue, Some e)
         | Inr res \<Rightarrow> ret (res, None)))"

section \<open>What the helpers compute\<close>

lemma assert_map_Some [simp]: "assert_map v = Some m \<longleftrightarrow> v = Some (JObject m)"
  by (cases v rule: assert_map.cases) auto

lemma assert_string_Some [simp]: "assert_string v = Some s \<longleftrightarrow> v = Some (JString s)"
  by (cases v rule: assert_string.cases) auto

lemma assert_bool_Some [simp]: "assert_bool v = Some b \<longleftrightarrow> v = Some (JBool b)"
  by (cases v rule: assert_bool.cases) auto

text \<open>C29: The fields of a snapshot file are extracted exactly when its metadata, spec and
  status are objects and the name, location and node name in them are strings and the
  ready flag a boolean; then they are those values.\<close>

theorem extractFields_iff:
  "extractFieldsFromETCDSnapshotFile f = Inr sf \<longleftrightarrow>
     (\<exists>metadata spec status.
        map_of (un_Object f) ''metadata'' = Some (JObject metadata)
        \<and> map_of metadata ''name'' = Some (JString (sf_snapshotName sf))
        \<and> map_of (un_Object f) ''spec'' = Some (JObject spec)
        \<and> map_of spec ''location'' = Some (JString (sf_location sf))
        \<and> map_of spec ''nodeName'' = Some (JString (sf_nodeName sf))
        \<and> map_of (un_Object f) ''status'' = Some (JObject status)
        \<and> map_of status ''readyToUse'' = Some (JBool (sf_readyToUse sf)))"
  by (cases sf) (auto simp: extractFieldsFromETCDSnapshotFile_def Let_def split: option.splits)

text \<open>C30: The machine of a snapshot is the first machine of the cluster, in the order the
  server lists them, whose node has the snapshot's node name; no name is returned when there
  is none. The search panics when a machine of the cluster that has no node yet comes before
  the one looked for: the code reads the node reference of every machine it passes.\<close>

theorem machine_on_node_find:
  "machine_on_node cn nodeName ms w =
     (case find (\<lambda>m. mc_ClusterName m = cn \<and> (case mc_NodeRef m of None \<Rightarrow> True | Some ref \<Rightarrow> or_Name ref = nodeName)) ms of
        None \<Rightarrow> Return []
      | Some m \<Rightarrow> (if mc_NodeRef m = None then Panicked (NilDereference ''machine.Status.NodeRef'')
                   else Return (mc_Name m)), w)"
  by (induction ms) (auto simp: go_run split: option.split)

section \<open>What a reconciliation calls\<close>

text \<open>
  The tracker acts on the state under the recording client and records nothing.
\<close>

definition unrecorded :: "('w, 'a) go \<Rightarrow> (event list \<times> 'w, 'a) go" where
  "unrecorded m = (\<lambda>(es, w). case m w of (out, w') \<Rightarrow> (out, (es, w')))"

definition recorded_tracker :: "('w, 'rc) tracker \<Rightarrow> (event list \<times> 'w, 'rc) tracker" where
  "recorded_tracker tr = \<lparr>tracker_Watch = (\<lambda>wi. unrecorded (tracker_Watch tr wi)),
     tracker_GetClient = (\<lambda>k. unrecorded (tracker_GetClient tr k)),
     remote_List = (\<lambda>rc g. unrecorded (remote_List tr rc g))\<rparr>"

lemma recorded_tracker_simps [simp]:
  "tracker_Watch (recorded_tracker tr) wi = unrecorded (tracker_Watch tr wi)"
  "tracker_GetClient (recorded_tracker tr) k = unrecorded (tracker_GetClient tr k)"
  "remote_List (recorded_tracker tr) rc g = unrecorded (remote_List tr rc g)"
  by (simp_all add: recorded_tracker_def)

lemma emits_unrecorded: "emits (unrecorded m) (\<lambda>new out. new = [])"
  by (auto simp: emits_def unrecorded_def split: prod.splits)

definition sync_calls :: "'w client \<Rightarrow> ('w, 'rc) tracker \<Rightarrow> object_key \<Rightarrow> 'w \<Rightarrow> event list" where
  "sync_calls c tr req w = fst (snd (Reconcile_sync (recording c) (recorded_tracker tr) req ([], w)))"

text \<open>
  A backup the calls before it justify: the cluster asked for was read, and is a ready,
  unpaused RKE2 cluster; the backup is in its namespace and names it and a machine that was
  listed there, belongs to it and has a node.
\<close>

definition justified_backup :: "object_key \<Rightarrow> event list \<Rightarrow> EtcdMachineBackup \<Rightarrow> bool" where
  "justified_backup req es b \<longleftrightarrow> (\<exists>cluster ref ms m.
     EvGetCluster req (Inr cluster) \<in> set es \<and> \<not> cl_Paused cluster
     \<and> cl_ControlPlaneRef cluster = Some ref \<and> or_Kind ref = ''RKE2ControlPlane'' \<and> cl_ControlPlaneReady cluster
     \<and> EvListMachine [InNamespace (om_Namespace (cl_meta cluster))] (Inr ms) \<in> set es
     \<and> m \<in> set ms \<and> mc_ClusterName m = om_Name (cl_meta cluster) \<and> mc_NodeRef m \<noteq> None
     \<and> mc_Name m \<noteq> [] \<and> mbs_MachineName (mb_Spec b) = mc_Name m
     \<and> mbs_ClusterName (mb_Spec b) = om_Name (cl_meta cluster)
     \<and> om_Namespace (mb_meta b) = om_Namespace (cl_meta cluster))"

fun backup_write :: "object_key \<Rightarrow> event list \<Rightarrow> event \<Rightarrow> bool" where
  "backup_write req es (EvCreate x res) \<longleftrightarrow> (\<exists>b. x = OEtcdMachineBackup b \<and> justified_backup req es b)"
| "backup_write req es e \<longleftrightarrow> \<not> is_write e"

lemma backup_write_read: "\<not> is_write e \<Longrightarrow> backup_write req es e"
  by (cases e) simp_all

lemma machine_on_node_ReturnD:
  assumes "machine_on_node cn nodeName ms w = (Return nm, w')" and "nm \<noteq> []"
  shows "\<exists>m \<in> set ms. mc_ClusterName m = cn \<and> mc_NodeRef m \<noteq> None \<and> mc_Name m = nm"
  using assms
proof (induction ms)
  case (Cons m ms)
  then show ?case
    by (cases "mc_NodeRef m") (auto simp: go_run panicking_def ret_def split: if_splits)
qed (simp add: ret_run)

lemma emits_findMachineForBackup:
  "emits (findMachineForBackup (recording c) cluster nodeName) (\<lambda>new out. \<exists>r.
     new = [EvListMachine [InNamespace (om_Namespace (cl_meta cluster))] r] \<and>
     (\<forall>nm. out = Return nm \<longrightarrow> nm \<noteq> [] \<longrightarrow> (\<exists>ms. r = Inr ms \<and> (\<exists>m \<in> set ms.
        mc_ClusterName m = om_Name (cl_meta cluster) \<and> mc_NodeRef m \<noteq> None \<and> mc_Name m = nm))))"
  unfolding findMachineForBackup_def recording_simps
  apply (rule emits_bind_err [OF emits_read])
  subgoal for ms new1
    unfolding emits_def
    using machine_on_node_ReturnD [of "om_Name (cl_meta cluster)" nodeName ms]
    by (auto simp: machine_on_node_find)
  by auto

text \<open>An iteration lists the machines, and then creates at most the one backup.\<close>

lemma emits_sync_file:
  assumes cluster: "EvGetCluster req (Inr cluster) \<in> set pre" "\<not> cl_Paused cluster"
      "cl_ControlPlaneRef cluster = Some ref" "or_Kind ref = ''RKE2ControlPlane''" "cl_ControlPlaneReady cluster"
  shows "emits (sync_file (recording c) cluster f u) (\<lambda>new out. each_call (backup_write req) pre new)"
  unfolding sync_file_def recording_simps
  apply (rule emits_bind_err [OF emits_of_result [where Q = "\<lambda>new out. new = []"]])
  subgoal by simp
  subgoal by simp
  subgoal for sf new1
    apply (rule emits_if)
    subgoal by (rule emits_ret) simp
    apply (rule emits_bind_err [OF emits_findMachineForBackup])
    subgoal for nm new2
      apply (rule emits_if)
      subgoal by (rule emits_ret) auto
      apply (rule emits_bind_err [OF emits_attempt [where Q = "\<lambda>new out. \<exists>r. out = Return r \<and>
            new = [EvCreate (OEtcdMachineBackup (backup_for cluster sf nm)) r]"]])
      subgoal by simp
      subgoal premises prems for r new3
      proof -
        from prems obtain ms m where m: "EvListMachine [InNamespace (om_Namespace (cl_meta cluster))] (Inr ms) \<in> set new2"
          "m \<in> set ms" "mc_ClusterName m = om_Name (cl_meta cluster)" "mc_NodeRef m \<noteq> None" "mc_Name m = nm" "nm \<noteq> []"
          by auto
        have "justified_backup req (pre @ new1 @ new2) (backup_for cluster sf nm)"
          unfolding justified_backup_def backup_for_def
          by (intro exI [of _ cluster] exI [of _ ref] exI [of _ ms] exI [of _ m]) (use cluster m in simp)
        with prems have "each_call (backup_write req) pre (new1 @ new2 @ new3)" by auto
        then show ?thesis by (auto split: sum.split intro: emits_ret emits_fail)
      qed
      by simp_all
    by auto
  by simp_all

lemma emits_sync_cluster:
  assumes "EvGetCluster req (Inr cluster) \<in> set pre"
  shows "emits (sync_cluster (recording c) (recorded_tracker tr) cluster) (\<lambda>new out. each_call (backup_write req) pre new)"
  unfolding sync_cluster_def recorded_tracker_simps
  apply (rule emits_if)
  subgoal by (rule emits_ret) simp
  apply (rule emits_bind_err [OF emits_deref [where Q = "\<lambda>new out. new = [] \<and>
      (\<forall>ref. out = Return ref \<longrightarrow> cl_ControlPlaneRef cluster = Some ref)"]])
  subgoal by simp
  subgoal by simp
  subgoal for ref new1
    apply (rule emits_if)
    subgoal by (rule emits_ret) simp
    apply (rule emits_if)
    subgoal by (rule emits_ret) simp
    apply (rule emits_bind_err [OF emits_unrecorded])
    subgoal for u new2
      apply (rule emits_bind_err [OF emits_unrecorded])
      subgoal for rc new3
        apply (rule emits_bind_err [OF emits_unrecorded])
        subgoal for files new4
          apply (rule emits_bind_err [OF emits_for_range [where
                I = "\<lambda>ys new a. each_call (backup_write req) pre new" and
                Q = "\<lambda>new out. each_call (backup_write req) pre new"]])
          subgoal by simp
          subgoal for ys x zs a new
            by (rule emits_weaken [OF emits_sync_file [where pre = "pre @ new" and req = req and ref = ref]])
              (use assms in \<open>auto split: outcome.split\<close>)
          subgoal by simp
          subgoal by (auto intro!: emits_ret)
          by simp_all
        by simp_all
      by simp_all
    by simp_all
  by simp_all

lemma emits_Reconcile_sync:
  "emits (Reconcile_sync (recording c) (recorded_tracker tr) req) (\<lambda>new out. each_call (backup_write req) [] new)"
  unfolding Reconcile_sync_def recording_simps
  apply (rule emits_bind_err [OF emits_attempt [where Q = "\<lambda>new out. \<exists>x. out = Return x \<and> new = [EvGetCluster req x]"]])
  subgoal by simp
  subgoal for got new1
  proof (cases got)
    case (Inr cluster)
    assume "\<exists>x. Return got = Return x \<and> new1 = [EvGetCluster req x]"
    with Inr have new1: "new1 = [EvGetCluster req (Inr cluster)]" by simp
    have "emits (catch_err (sync_cluster (recording c) (recorded_tracker tr) cluster))
        (\<lambda>new out. each_call (backup_write req) new1 new)"
      by (rule emits_catch_err [OF emits_sync_cluster]) (simp_all add: new1)
    then have "emits (bind_go (catch_err (sync_cluster (recording c) (recorded_tracker tr) cluster))
        (\<lambda>r. case r of Inl e \<Rightarrow> ret (no_requeue, Some e) | Inr res \<Rightarrow> ret (res, None)))
        (\<lambda>new out. each_call (backup_write req) new1 new)"
      by (rule emits_bind_err) (auto split: sum.split intro!: emits_ret)
    with Inr new1 show ?thesis by (auto elim!: emits_weaken)
  qed (auto intro!: emits_ret)
  by simp_all

text \<open>C18: Whatever the two API servers answer, the only thing the sync controller writes is
  new machine backups, and every backup it creates is justified by what it read before: the
  cluster is there, not paused, an RKE2 cluster and ready; the backup is in the cluster's
  namespace, names the cluster, and names a machine that was listed in that namespace,
  belongs to the cluster and has a node.\<close>

theorem sync_backups_justified: "each_call (backup_write req) [] (sync_calls c tr req w)"
proof -
  obtain new w' out where
    "Reconcile_sync (recording c) (recorded_tracker tr) req ([], w) = (out, ([] @ new, w'))"
    "each_call (backup_write req) [] new"
    using emits_Reconcile_sync [of c tr req] unfolding emits_def by blast
  then show ?thesis by (simp add: sync_calls_def)
qed

text \<open>C28: A cluster that is paused, runs another control plane or is not ready is left alone:
  no watch is started, no workload cluster is contacted and nothing is created; a paused
  cluster is not looked at again until it changes, the others after three minutes. A cluster
  with no control plane reference panics.\<close>

theorem sync_cluster_gates:
  assumes "cl_Paused cluster \<or> (case cl_ControlPlaneRef cluster of None \<Rightarrow> True
     | Some ref \<Rightarrow> or_Kind ref \<noteq> ''RKE2ControlPlane'' \<or> \<not> cl_ControlPlaneReady cluster)"
  shows "sync_cluster c tr cluster w =
     (if cl_Paused cluster then Return no_requeue
      else if cl_ControlPlaneRef cluster = None
        then Panicked (NilDereference ''cluster.Spec.ControlPlaneRef'')
      else Return three_minutes, w)"
  using assms by (auto simp: sync_cluster_def go_run split: option.splits)

theorem sync_cluster_gates_witness:
  "\<forall>c tr (w :: nat). sync_cluster c tr \<lparr>cl_meta = meta_for ''c'' ''ns'', cl_Paused = False,
       cl_ControlPlaneRef = Some \<lparr>or_Kind = ''KubeadmControlPlane'', or_Name = ''cp''\<rparr>,
       cl_ControlPlaneReady = True\<rparr> w = (Return three_minutes, w)"
proof (intro allI)
  fix c :: "nat client" and tr :: "(nat, 'rc) tracker" and w
  show "sync_cluster c tr \<lparr>cl_meta = meta_for ''c'' ''ns'', cl_Paused = False,
       cl_ControlPlaneRef = Some \<lparr>or_Kind = ''KubeadmControlPlane'', or_Name = ''cp''\<rparr>,
       cl_ControlPlaneReady = True\<rparr> w = (Return three_minutes, w)"
    by (subst sync_cluster_gates) simp_all
qed

end
