(* ===== verification/Snapshot_Store.thy ===== *)
theory Snapshot_Store
  imports Snapshot_Sync Demo_Cluster
begin

text \<open>
  The sync controller on a server that stores what it is given: which machine backups a run
  leaves, and that another run adds none.
\<close>

section \<open>The laws\<close>

text \<open>
  Creating a backup under a new name stores it and changes nothing else; under a name that
  is taken it fails as such and changes nothing. Listing machines returns what is stored.
\<close>

locale backup_api =
  fixes c :: "store client"
  assumes create_new: "map_of (st_backups w) (key_of (mb_meta b)) = None \<Longrightarrow>
      \<exists>b' w'. create c (OEtcdMachineBackup b) w = (Inr (), w') \<and> mb_Spec b' = mb_Spec b \<and>
        key_of (mb_meta b') = key_of (mb_meta b) \<and>
        map_of (st_backups w') = (map_of (st_backups w))(key_of (mb_meta b) \<mapsto> b') \<and>
        w'\<lparr>st_backups := [], st_version := 0\<rparr> = w\<lparr>st_backups := [], st_version := 0\<rparr>"
    and create_taken: "map_of (st_backups w) (key_of (mb_meta b)) = Some old \<Longrightarrow>
      \<exists>e. create c (OEtcdMachineBackup b) w = (Inl e, w) \<and> IsAlreadyExists e"
    and list_machines: "list_Machine c os w = (Inr (list_items mc_meta os (st_machines w)), w)"

interpretation backup_server: backup_api server
proof unfold_locales
  fix w :: store and b :: EtcdMachineBackup
  assume "map_of (st_backups w) (key_of (mb_meta b)) = None"
  then show "\<exists>b' w'. create server (OEtcdMachineBackup b) w = (Inr (), w') \<and> mb_Spec b' = mb_Spec b \<and>
      key_of (mb_meta b') = key_of (mb_meta b) \<and>
      map_of (st_backups w') = (map_of (st_backups w))(key_of (mb_meta b) \<mapsto> b') \<and>
      w'\<lparr>st_backups := [], st_version := 0\<rparr> = w\<lparr>st_backups := [], st_version := 0\<rparr>"
    by (intro exI [of _ "b\<lparr>mb_meta := stamp_meta (Suc (st_version w)) (mb_meta b)\<rparr>"])
      (simp add: server_def create_item_def map_add_def fun_eq_iff stamp_meta_def split: option.split)
qed (auto simp: server_def create_item_def)

section \<open>The reference\<close>

text \<open>The machine on a node, and the backup a snapshot file asks for.\<close>

definition node_machine :: "cluster \<Rightarrow> machine list \<Rightarrow> string \<Rightarrow> string" where
  "node_machine cl ms nodeName =
     (case find (\<lambda>m. mc_ClusterName m = om_Name (cl_meta cl) \<and> map_option or_Name (mc_NodeRef m) = Some nodeName) ms of
        None \<Rightarrow> [] | Some m \<Rightarrow> mc_Name m)"

definition wanted :: "cluster \<Rightarrow> machine list \<Rightarrow> unstructured \<Rightarrow> EtcdMachineBackup list" where
  "wanted cl ms f = (case extractFieldsFromETCDSnapshotFile f of
     Inl e \<Rightarrow> []
   | Inr sf \<Rightarrow> if sf_readyToUse sf \<and> node_machine cl ms (sf_nodeName sf) \<noteq> []
               then [backup_for cl sf (node_machine cl ms (sf_nodeName sf))] else [])"

text \<open>The backups a server holds, as what the operator sets of them, and adding one where its
  name is free.\<close>

definition set_fields :: "EtcdMachineBackup \<Rightarrow> object_key \<times> EtcdMachineBackupSpec" where
  "set_fields b = (key_of (mb_meta b), mb_Spec b)"

definition backup_specs :: "store \<Rightarrow> object_key \<Rightarrow> (object_key \<times> EtcdMachineBackupSpec) option" where
  "backup_specs w = map_option set_fields \<circ> map_of (st_backups w)"

definition add_backup :: "EtcdMachineBackup \<Rightarrow> (object_key \<Rightarrow> (object_key \<times> EtcdMachineBackupSpec) option) \<Rightarrow>
    object_key \<Rightarrow> (object_key \<times> EtcdMachineBackupSpec) option" where
  "add_backup b m = (if m (key_of (mb_meta b)) = None then m(key_of (mb_meta b) \<mapsto> set_fields b) else m)"

definition others_of :: "store \<Rightarrow> store" where
  "others_of w = w\<lparr>st_backups := [], st_version := 0\<rparr>"

text \<open>What the run needs: the files are well typed and the machines of the cluster have nodes.\<close>

definition sync_ready :: "cluster \<Rightarrow> machine list \<Rightarrow> unstructured list \<Rightarrow> bool" where
  "sync_ready cl ms files \<longleftrightarrow>
     list_all (\<lambda>f. case extractFieldsFromETCDSnapshotFile f of Inl e \<Rightarrow> False | Inr sf \<Rightarrow> True) files \<and>
     list_all (\<lambda>m. mc_ClusterName m = om_Name (cl_meta cl) \<longrightarrow> mc_NodeRef m \<noteq> None) ms"

definition cluster_machines :: "cluster \<Rightarrow> store \<Rightarrow> machine list" where
  "cluster_machines cl w = list_items mc_meta [InNamespace (om_Namespace (cl_meta cl))] (st_machines w)"

lemma cluster_machines_others: "others_of w' = others_of w \<Longrightarrow> cluster_machines cl w' = cluster_machines cl w"
  by (drule arg_cong [where f = st_machines]) (simp add: cluster_machines_def others_of_def)

lemma machine_on_node_ready:
  "list_all (\<lambda>m. mc_ClusterName m = om_Name (cl_meta cl) \<longrightarrow> mc_NodeRef m \<noteq> None) ms \<Longrightarrow>
     machine_on_node (om_Name (cl_meta cl)) nodeName ms w = (Return (node_machine cl ms nodeName), w)"
  by (induction ms) (auto simp: node_machine_def ret_run)

context backup_api begin

lemma sync_file_run:
  assumes "sync_ready cl (cluster_machines cl w) [f]"
  obtains w' where "sync_file c cl f u w = (Return (), w')" "others_of w' = others_of w"
    "backup_specs w' = fold add_backup (wanted cl (cluster_machines cl w) f) (backup_specs w)"
    "set (map (\<lambda>b. key_of (mb_meta b)) (wanted cl (cluster_machines cl w) f)) \<subseteq> dom (backup_specs w) \<longrightarrow> w' = w"
proof -
  let ?ms = "cluster_machines cl w"
  from assms obtain sf where sf: "extractFieldsFromETCDSnapshotFile f = Inr sf"
    by (auto simp: sync_ready_def split: sum.splits)
  let ?m = "node_machine cl ?ms (sf_nodeName sf)" and ?b = "backup_for cl sf (node_machine cl ?ms (sf_nodeName sf))"
  have found: "findMachineForBackup c cl (sf_nodeName sf) w = (Return ?m, w)"
    using assms
    by (simp add: findMachineForBackup_def bind_err_Return call_def list_machines machine_on_node_ready
        sync_ready_def cluster_machines_def)
  show thesis
  proof (cases "sf_readyToUse sf \<and> ?m \<noteq> []")
    case False
    with that [of w] sf show thesis
      by (auto simp: sync_file_def bind_err_Return found ret_run wanted_def)
  next
    case True
    then have w: "wanted cl ?ms f = [?b]" by (simp add: wanted_def sf)
    show thesis
    proof (cases "map_of (st_backups w) (key_of (mb_meta ?b))")
      case None
      from create_new [OF None] obtain b' w' where new: "create c (OEtcdMachineBackup ?b) w = (Inr (), w')"
        "set_fields b' = set_fields ?b" "map_of (st_backups w') = (map_of (st_backups w))(key_of (mb_meta ?b) \<mapsto> b')"
        "others_of w' = others_of w" unfolding others_of_def set_fields_def by auto
      have "backup_specs w' = add_backup ?b (backup_specs w)"
        using new(2,3) None by (auto simp: backup_specs_def add_backup_def fun_eq_iff)
      with that [of w'] True new(1,4) None show thesis
        by (simp add: sync_file_def sf bind_err_Return found attempt_def w backup_specs_def ret_run dom_def)
    next
      case (Some old)
      with create_taken [OF Some] that [of w] True show thesis
        by (auto simp: sync_file_def sf bind_err_Return found attempt_def w backup_specs_def add_backup_def ret_run)
    qed
  qed
qed

lemma sync_files_run:
  assumes "sync_ready cl (cluster_machines cl w) files"
  obtains w' where "for_range (sync_file c cl) files u w = (Return (), w')" "others_of w' = others_of w"
    "backup_specs w' = fold add_backup (concat (map (wanted cl (cluster_machines cl w)) files)) (backup_specs w)"
    "set (map (\<lambda>b. key_of (mb_meta b)) (concat (map (wanted cl (cluster_machines cl w)) files)))
       \<subseteq> dom (backup_specs w) \<longrightarrow> w' = w"
  using assms
proof (induction files arbitrary: w u thesis)
  case Nil
  then show ?case by (simp add: ret_run)
next
  case (Cons f files)
  have ready: "sync_ready cl (cluster_machines cl w) [f]" "sync_ready cl (cluster_machines cl w) files"
    using Cons.prems(2) by (simp_all add: sync_ready_def)
  obtain w1 where w1: "sync_file c cl f u w = (Return (), w1)" "others_of w1 = others_of w"
    "backup_specs w1 = fold add_backup (wanted cl (cluster_machines cl w) f) (backup_specs w)"
    "set (map (\<lambda>b. key_of (mb_meta b)) (wanted cl (cluster_machines cl w) f)) \<subseteq> dom (backup_specs w) \<longrightarrow> w1 = w"
    by (rule sync_file_run [where u = u, OF ready(1)])
  note same = cluster_machines_others [OF w1(2)]
  show ?case
  proof (rule Cons.IH [where w = w1 and u = "()"])
    show "sync_ready cl (cluster_machines cl w1) files" using ready(2) same by simp
  next
    fix w'
    assume run: "for_range (sync_file c cl) files () w1 = (Return (), w')" "others_of w' = others_of w1"
      "backup_specs w' = fold add_backup (concat (map (wanted cl (cluster_machines cl w1)) files)) (backup_specs w1)"
    assume still: "set (map (\<lambda>b. key_of (mb_meta b)) (concat (map (wanted cl (cluster_machines cl w1)) files)))
        \<subseteq> dom (backup_specs w1) \<longrightarrow> w' = w1"
    show ?case
    proof (rule Cons.prems(1) [of w'])
      show "for_range (sync_file c cl) (f # files) u w = (Return (), w')"
        using w1(1) run(1) by (simp add: bind_err_Return)
      show "others_of w' = others_of w" using run(2) w1(2) by simp
      show "backup_specs w' = fold add_backup (concat (map (wanted cl (cluster_machines cl w)) (f # files))) (backup_specs w)"
        using run(3) w1(3) same by simp
      show "set (map (\<lambda>b. key_of (mb_meta b)) (concat (map (wanted cl (cluster_machines cl w)) (f # files))))
          \<subseteq> dom (backup_specs w) \<longrightarrow> w' = w"
        using still w1(4) same by auto
    qed
  qed
qed

end

text \<open>A tracker that serves the snapshot files of a workload cluster.\<close>

definition serves :: "(store, 'rc) tracker \<Rightarrow> cluster \<Rightarrow> unstructured list \<Rightarrow> bool" where
  "serves tr cl files \<longleftrightarrow> (\<forall>w. (\<forall>input. tracker_Watch tr input w = (Return (), w)) \<and>
     (\<exists>rc. tracker_GetClient tr (cluster_key cl) w = (Return rc, w) \<and>
        remote_List tr rc snapshot_gvk w = (Return files, w)))"

definition syncable :: "cluster \<Rightarrow> bool" where
  "syncable cl \<longleftrightarrow> \<not> cl_Paused cl \<and> cl_ControlPlaneReady cl \<and>
     map_option or_Kind (cl_ControlPlaneRef cl) = Some ''RKE2ControlPlane''"

context backup_api begin

lemma sync_cluster_run:
  assumes "serves tr cl files" and "syncable cl" and "sync_ready cl (cluster_machines cl w) files"
  obtains w' where "sync_cluster c tr cl w = (Return no_requeue, w')" "others_of w' = others_of w"
    "backup_specs w' = fold add_backup (concat (map (wanted cl (cluster_machines cl w)) files)) (backup_specs w)"
    "set (map (\<lambda>b. key_of (mb_meta b)) (concat (map (wanted cl (cluster_machines cl w)) files)))
       \<subseteq> dom (backup_specs w) \<longrightarrow> w' = w"
proof -
  from assms(1) obtain rc where tr: "tracker_Watch tr input w = (Return (), w)"
    "tracker_GetClient tr (cluster_key cl) w = (Return rc, w)" "remote_List tr rc snapshot_gvk w = (Return files, w)" for input
    unfolding serves_def by metis
  obtain w' where w': "for_range (sync_file c cl) files () w = (Return (), w')" "others_of w' = others_of w"
    "backup_specs w' = fold add_backup (concat (map (wanted cl (cluster_machines cl w)) files)) (backup_specs w)"
    "set (map (\<lambda>b. key_of (mb_meta b)) (concat (map (wanted cl (cluster_machines cl w)) files)))
       \<subseteq> dom (backup_specs w) \<longrightarrow> w' = w"
    by (rule sync_files_run [where u = "()", OF assms(3)])
  with that [of w'] assms(2) tr show thesis
    by (auto simp: sync_cluster_def syncable_def bind_err_Return ret_run)
qed

end

section \<open>What a run leaves\<close>

text \<open>C16: A run of the sync controller on a ready cluster adds, in the order of the snapshot
  files, the backup each ready file with a machine asks for where its name is free, and
  changes nothing else.\<close>

theorem sync_adds_wanted:
  assumes "backup_api c" and "serves tr cl files" and "syncable cl" and "sync_ready cl (cluster_machines cl w) files"
  shows "case sync_cluster c tr cl w of
      (Return res, w') \<Rightarrow> res = no_requeue \<and> others_of w' = others_of w \<and>
        backup_specs w' = fold add_backup (concat (map (wanted cl (cluster_machines cl w)) files)) (backup_specs w)
    | _ \<Rightarrow> False"
  by (rule backup_api.sync_cluster_run [OF assms]) simp

text \<open>A workload cluster with one snapshot of the first machine.\<close>

definition demo_files :: "unstructured list" where
  "demo_files = [\<lparr>un_gvk = snapshot_gvk, un_Object = [(''metadata'', JObject [(''name'', JString ''snap'')]),
     (''spec'', JObject [(''location'', JString ''/snapshot''), (''nodeName'', JString ''m1'')]),
     (''status'', JObject [(''readyToUse'', JBool True)])]\<rparr>]"

definition demo_tracker :: "(store, unit) tracker" where
  "demo_tracker = \<lparr>tracker_Watch = (\<lambda>input. ret ()), tracker_GetClient = (\<lambda>k. ret ()),
     remote_List = (\<lambda>rc g. ret demo_files)\<rparr>"

lemma demo_sync:
  "serves demo_tracker demo_cluster demo_files" "syncable demo_cluster"
  "sync_ready demo_cluster (cluster_machines demo_cluster demo_store) demo_files"
proof -
  show "serves demo_tracker demo_cluster demo_files" by (simp add: serves_def demo_tracker_def ret_run)
  show "syncable demo_cluster" by (simp add: syncable_def demo_defs)
  show "sync_ready demo_cluster (cluster_machines demo_cluster demo_store) demo_files"
    by (simp add: sync_ready_def cluster_machines_def list_items_def extractFieldsFromETCDSnapshotFile_def demo_files_def demo_defs)
qed

theorem sync_adds_wanted_witness:
  "case sync_cluster server demo_tracker demo_cluster demo_store of
      (Return res, w') \<Rightarrow> res = no_requeue \<and> others_of w' = others_of demo_store \<and>
        backup_specs w' = fold add_backup
          (concat (map (wanted demo_cluster (cluster_machines demo_cluster demo_store)) demo_files)) (backup_specs demo_store)
    | _ \<Rightarrow> False"
  by (rule sync_adds_wanted [OF backup_server.backup_api_axioms demo_sync])

text \<open>After such a run every backup asked for is there, so another run adds none.\<close>

lemma dom_add_backups: "dom (fold add_backup bs m) = dom m \<union> (\<lambda>b. key_of (mb_meta b)) ` set bs"
  by (induction bs arbitrary: m) (auto simp: add_backup_def split: if_splits)

text \<open>C17: A second run over the same snapshot files changes nothing, not even a resource
  version, however often the controller is run.\<close>

theorem sync_idempotent:
  assumes "backup_api c" and "serves tr cl files" and "syncable cl" and "sync_ready cl (cluster_machines cl w) files"
  shows "case sync_cluster c tr cl w of
      (Return res, w') \<Rightarrow> sync_cluster c tr cl w' = (Return res, w')
    | _ \<Rightarrow> False"
proof -
  let ?bs = "concat (map (wanted cl (cluster_machines cl w)) files)"
  obtain w' where w': "sync_cluster c tr cl w = (Return no_requeue, w')" "others_of w' = others_of w"
    "backup_specs w' = fold add_backup ?bs (backup_specs w)"
    by (rule backup_api.sync_cluster_run [OF assms])
  note same = cluster_machines_others [OF w'(2)]
  have "set (map (\<lambda>b. key_of (mb_meta b)) ?bs) \<subseteq> dom (backup_specs w')"
    unfolding w'(3) dom_add_backups by auto
  with backup_api.sync_cluster_run [OF assms(1-3), of w'] assms(4) have "sync_cluster c tr cl w' = (Return no_requeue, w')"
    unfolding same by metis
  with w'(1) show ?thesis by simp
qed

theorem sync_idempotent_witness:
  "case sync_cluster server demo_tracker demo_cluster demo_store of
      (Return res, w') \<Rightarrow> sync_cluster server demo_tracker demo_cluster w' = (Return res, w')
    | _ \<Rightarrow> False"
  by (rule sync_idempotent [OF backup_server.backup_api_axioms demo_sync])

end
