(* ===== verification/Snapshot_Restored.thy ===== *)
theory Snapshot_Restored
  imports Restore_Convergence Snapshot_Store
begin

text \<open>
  From a snapshot to a restored cluster: the sync reconciler turns the snapshot file into a
  backup, a user asks for a restore of it, and the restore reconciler and the agents bring
  the cluster back, the machine the snapshot was taken on first.
\<close>

section \<open>The cluster\<close>

definition labelled_machines :: "cluster \<Rightarrow> store \<Rightarrow> machine list" where
  "labelled_machines cl w = list_items mc_meta
     [InNamespace (om_Namespace (cl_meta cl)), MatchingLabels [(ClusterNameLabel, om_Name (cl_meta cl))]] (st_machines w)"

text \<open>
  A cluster that is set up: it is stored, its machines carry its label, run, have an
  address, names and plan secrets of their own.
\<close>

definition restorable :: "codec \<Rightarrow> cluster \<Rightarrow> store \<Rightarrow> bool" where
  "restorable cd cl w \<longleftrightarrow> om_Name (cl_meta cl) \<noteq> [] \<and>
     map_of (st_clusters w) (key_of (cl_meta cl)) = Some cl \<and>
     list_all (\<lambda>m. mc_ClusterName m = om_Name (cl_meta cl) \<longrightarrow> m \<in> set (labelled_machines cl w)) (cluster_machines cl w) \<and>
     list_all (\<lambda>m. mc_Phase m = MachinePhaseRunning \<and> getInternalMachineIP m \<noteq> [] \<and> plan_secret_ok cd w m)
       (labelled_machines cl w) \<and>
     distinct (map (plan_key w) (labelled_machines cl w)) \<and> distinct (map mc_Name (labelled_machines cl w))"

text \<open>What the user creates: a restore of a cluster from a backup.\<close>

definition ask_restore :: "string \<Rightarrow> cluster \<Rightarrow> string \<Rightarrow> store \<Rightarrow> store" where
  "ask_restore rn cl bn w = w\<lparr>st_restores := AList.update (key (om_Namespace (cl_meta cl)) rn)
     \<lparr>sr_meta = meta_for rn (om_Namespace (cl_meta cl)),
      sr_Spec = \<lparr>srs_ClusterName = om_Name (cl_meta cl), srs_EtcdMachineBackupName = bn\<rparr>,
      sr_Status = \<lparr>srst_Phase = [], srst_Conditions = []\<rparr>\<rparr> (st_restores w)\<rparr>"

lemma others_same:
  assumes "others_of w' = others_of w"
  shows "st_restores w' = st_restores w" "st_clusters w' = st_clusters w" "st_machines w' = st_machines w"
    "st_configs w' = st_configs w" "st_secrets w' = st_secrets w"
  using assms [THEN arg_cong [where f = st_restores]] assms [THEN arg_cong [where f = st_clusters]]
    assms [THEN arg_cong [where f = st_machines]] assms [THEN arg_cong [where f = st_configs]]
    assms [THEN arg_cong [where f = st_secrets]]
  by (simp_all add: others_of_def)

lemma plan_secret_same:
  assumes "st_configs w' = st_configs w" and "st_secrets w' = st_secrets w"
  shows "plan_key w' = plan_key w" "plan_secret_ok cd w' = plan_secret_ok cd w"
  using assms by (simp_all add: plan_key_def plan_secret_ok_def plan_secret_of_def fun_eq_iff)

text \<open>A backup a file asks for is there after the run, whoever else asks.\<close>

lemma add_backups_there: "m k = Some x \<Longrightarrow> fold add_backup bs m k = Some x"
proof (induction bs arbitrary: m)
  case (Cons a bs)
  then have "add_backup a m k = Some x" by (auto simp: add_backup_def)
  with Cons.IH show ?case by simp
qed simp

lemma add_backups_new:
  "m (key_of (mb_meta b)) = None \<Longrightarrow> b \<in> set bs \<Longrightarrow>
     \<forall>b' \<in> set bs. key_of (mb_meta b') = key_of (mb_meta b) \<longrightarrow> b' = b \<Longrightarrow>
     fold add_backup bs m (key_of (mb_meta b)) = Some (set_fields b)"
proof (induction bs arbitrary: m)
  case (Cons a bs)
  show ?case
  proof (cases "a = b")
    case True
    with Cons.prems(1) have "add_backup a m (key_of (mb_meta b)) = Some (set_fields b)" by (simp add: add_backup_def)
    then show ?thesis by (simp add: add_backups_there)
  next
    case False
    then have "key_of (mb_meta a) \<noteq> key_of (mb_meta b)" using Cons.prems(3) by auto
    then have "add_backup a m (key_of (mb_meta b)) = None" using Cons.prems(1) by (auto simp: add_backup_def)
    with Cons.IH Cons.prems(2,3) False show ?thesis by simp
  qed
qed simp

lemma node_machine_found:
  assumes "node_machine cl ms nodeName \<noteq> []"
  obtains m where "m \<in> set ms" "mc_Name m = node_machine cl ms nodeName" "mc_ClusterName m = om_Name (cl_meta cl)"
    "map_option or_Name (mc_NodeRef m) = Some nodeName"
proof -
  have found: "x \<in> set xs \<and> P x" if "find P xs = Some x" for P x and xs :: "machine list"
    using that by (induction xs) (auto split: if_splits)
  with assms that show thesis by (auto simp: node_machine_def split: option.splits dest!: found)
qed

lemma find_by_name:
  "distinct (map mc_Name ms) \<Longrightarrow> m \<in> set ms \<Longrightarrow> find (\<lambda>x. mc_Name x = mc_Name m) ms = Some m"
  by (induction ms) force+

lemma holds_plan_entry:
  "holds_plan (view S w) p (mc_Name m) \<Longrightarrow> m \<in> set (si_machines S) \<Longrightarrow> fst (entry_of w m) = p"
  by (force simp: holds_plan_def view_def list_all_iff)

lemma plan_of_entry:
  "plan_secret_ok cd w m \<Longrightarrow> \<exists>s. plan_secret_of w m = Some s \<and> secret_data s ''plan'' = fst (entry_of w m)"
  by (auto elim!: plan_secret_okE simp: entry_of_def)

section \<open>The restore that is asked for\<close>

definition asked_site :: "string \<Rightarrow> cluster \<Rightarrow> store \<Rightarrow> EtcdMachineBackup \<Rightarrow> machine \<Rightarrow> site" where
  "asked_site rn cl w b im = \<lparr>si_req = key (om_Namespace (cl_meta cl)) rn, si_cluster = om_Name (cl_meta cl), si_backup = b,
     si_machines = labelled_machines cl w, si_init = im\<rparr>"

lemma asked_site_ok:
  assumes "restorable cd cl w" and "others_of w1 = others_of w" and "im \<in> set (labelled_machines cl w)"
    and "map_of (st_backups w1) (key (om_Namespace (cl_meta cl)) bn) = Some b" and "om_Name (mb_meta b) = bn"
    and "bn \<noteq> []" "mbs_Location (mb_Spec b) \<noteq> []" "mbs_MachineName (mb_Spec b) = mc_Name im"
  shows "site_ok cd (asked_site rn cl w b im) (ask_restore rn cl bn w1)" "site_phase (asked_site rn cl w b im) (ask_restore rn cl bn w1) = []"
proof -
  note same = others_same [OF assms(2)] plan_secret_same [OF others_same(4,5) [OF assms(2)]]
  let ?w = "ask_restore rn cl bn w1" and ?S = "asked_site rn cl w b im"
  have w: "st_clusters ?w = st_clusters w" "st_machines ?w = st_machines w" "st_backups ?w = st_backups w1"
    "plan_key ?w = plan_key w" "plan_secret_ok cd ?w = plan_secret_ok cd w"
    using same by (simp_all add: ask_restore_def plan_key_def plan_secret_ok_def plan_secret_of_def fun_eq_iff)
  show phase: "site_phase ?S ?w = []"
    by (simp add: site_phase_def asked_site_def ask_restore_def update_conv')
  have "site_restore ?S ?w" using assms(5) by (simp add: site_restore_def asked_site_def ask_restore_def update_conv')
  moreover have "site_fixed ?S ?w"
    using assms(1,3-8) find_by_name [of "labelled_machines cl w" im]
    by (auto simp: site_fixed_def asked_site_def w restorable_def labelled_machines_def list_all_iff)
  moreover have "site_cluster ?S ?w" "list_all (plan_secret_ok cd ?w) (si_machines ?S)"
    using assms(1) by (auto simp: site_cluster_def asked_site_def w restorable_def list_all_iff)
  ultimately show "site_ok cd ?S ?w" by (simp add: site_ok_def phase)
qed

text \<open>C2: A snapshot can be restored. On a server with the documented laws, let the sync
  reconciler run for a cluster that is set up, and let a snapshot file be ready, name a node
  of the cluster's machines, and no other file ask for a backup of its name. When a user then
  asks for a restore of that backup and agents and controller take turns, after eight
  rounds the restore is finished, the cluster is not paused, the machine that runs the node
  the snapshot was taken on holds the plan that starts it and every other machine of the
  cluster the plan that joins it to that machine.\<close>

theorem snapshot_restored:
  assumes "restore_api c" and "backup_api c" and "\<And>S. agents_report cd S agents"
    and "serves tr cl files" and "syncable cl" and "sync_ready cl (cluster_machines cl w) files" and "restorable cd cl w"
    and f: "f \<in> set files" "extractFieldsFromETCDSnapshotFile f = Inr sf" "sf_readyToUse sf"
      "node_machine cl (cluster_machines cl w) (sf_nodeName sf) \<noteq> []"
      "sf_snapshotName sf \<noteq> []" "sf_location sf \<noteq> []"
    and free: "map_of (st_backups w) (key (om_Namespace (cl_meta cl)) (sf_snapshotName sf)) = None"
      "list_all (\<lambda>b. om_Name (mb_meta b) = sf_snapshotName sf \<longrightarrow>
         b = backup_for cl sf (node_machine cl (cluster_machines cl w) (sf_nodeName sf)))
       (concat (map (wanted cl (cluster_machines cl w)) files))"
  shows "case sync_cluster c tr cl w of
      (Return res, w1) \<Rightarrow>
        (let req = key (om_Namespace (cl_meta cl)) rn;
             w' = (round_of c cd agents req ^^ 8) (ask_restore rn cl (sf_snapshotName sf) w1)
         in map_option sr_Phase (map_of (st_restores w') req) = Some ETCDSnapshotPhaseFinished \<and>
            map_option cl_Paused (map_of (st_clusters w') (key_of (cl_meta cl))) = Some False \<and>
            (\<exists>im \<in> set (labelled_machines cl w). map_option or_Name (mc_NodeRef im) = Some (sf_nodeName sf) \<and>
               list_all (\<lambda>m. map_option (\<lambda>s. secret_data s ''plan'') (plan_secret_of w' m) =
                   Some (plan_bytes (if m = im then start_instructions else join_instructions (getInternalMachineIP im))))
                 (labelled_machines cl w)))
    | _ \<Rightarrow> False"
proof -
  let ?nm = "node_machine cl (cluster_machines cl w) (sf_nodeName sf)" and ?ns = "om_Namespace (cl_meta cl)"
  let ?b = "backup_for cl sf ?nm" and ?bs = "concat (map (wanted cl (cluster_machines cl w)) files)"
  obtain im where im: "im \<in> set (labelled_machines cl w)" "mc_Name im = ?nm"
    "map_option or_Name (mc_NodeRef im) = Some (sf_nodeName sf)"
  proof (rule node_machine_found [OF f(4)])
    fix m assume m: "m \<in> set (cluster_machines cl w)" "mc_Name m = ?nm" "mc_ClusterName m = om_Name (cl_meta cl)"
      "map_option or_Name (mc_NodeRef m) = Some (sf_nodeName sf)"
    then have "m \<in> set (labelled_machines cl w)" using assms(7) by (simp add: restorable_def list_all_iff)
    with that m(2,4) show thesis by blast
  qed
  obtain w1 where w1: "sync_cluster c tr cl w = (Return no_requeue, w1)" "others_of w1 = others_of w"
    "backup_specs w1 = fold add_backup ?bs (backup_specs w)"
    by (rule backup_api.sync_cluster_run [OF assms(2,4,5,6)])
  have key: "key_of (mb_meta ?b) = key ?ns (sf_snapshotName sf)" by (simp add: backup_for_def)
  have "backup_specs w1 (key_of (mb_meta ?b)) = Some (set_fields ?b)"
    unfolding w1(3)
  proof (rule add_backups_new)
    show "backup_specs w (key_of (mb_meta ?b)) = None" using free(1) by (simp add: backup_specs_def key)
    have "wanted cl (cluster_machines cl w) f = [?b]" using f(2-4) by (simp add: wanted_def)
    with f(1) show "?b \<in> set ?bs" by force
    show "\<forall>b' \<in> set ?bs. key_of (mb_meta b') = key_of (mb_meta ?b) \<longrightarrow> b' = ?b"
      using free(2) by (auto simp: list_all_iff key)
  qed
  then obtain b where b: "map_of (st_backups w1) (key ?ns (sf_snapshotName sf)) = Some b"
    "om_Name (mb_meta b) = sf_snapshotName sf" "mb_Spec b = mb_Spec ?b"
    by (auto simp: backup_specs_def key set_fields_def)
  have spec: "mbs_Location (mb_Spec b) \<noteq> []" "mbs_MachineName (mb_Spec b) = mc_Name im"
    using f(6) im(2) by (simp_all add: b(3) backup_for_def)
  let ?S = "asked_site rn cl w b im" and ?w = "ask_restore rn cl (sf_snapshotName sf) w1"
  let ?w' = "(round_of c cd agents (key ?ns rn) ^^ 8) ?w"
  have S: "si_req ?S = key ?ns rn" "si_machines ?S = labelled_machines cl w" "si_init ?S = im"
    "si_cluster ?S = om_Name (cl_meta cl)" by (simp_all add: asked_site_def)
  note site = asked_site_ok [OF assms(7) w1(2) im(1) b(1,2) f(5) spec, of rn]
  have phase: "site_phase ?S ?w \<in> working_phases" "site_phase ?S ?w \<noteq> ETCDSnapshotPhaseFinished"
    by (simp_all add: site(2) working_phases_def)
  note ends = restore_ends [OF assms(1) assms(3) site(1) phase(1) le_refl, unfolded S]
  have "map_option sr_Phase (map_of (st_restores ?w') (key ?ns rn)) = Some ETCDSnapshotPhaseFinished"
    using ends(1,2) by (auto simp: site_phase_def site_ok_def site_restore_def S split: option.splits)
  moreover have "map_option cl_Paused (map_of (st_clusters ?w') (key_of (cl_meta cl))) = Some False"
    using ends(1,3) by (auto simp: site_paused_def site_ok_def site_cluster_def S split: option.splits)
  moreover have "list_all (\<lambda>m. map_option (\<lambda>s. secret_data s ''plan'') (plan_secret_of ?w' m) =
      Some (plan_bytes (if m = im then start_instructions else join_instructions (getInternalMachineIP im))))
    (labelled_machines cl w)"
    unfolding list_all_iff
  proof
    fix m assume m: "m \<in> set (labelled_machines cl w)"
    then have "plan_secret_ok cd ?w' m" using ends(1) by (auto simp: site_ok_def S list_all_iff)
    from plan_of_entry [OF this] obtain s where s: "plan_secret_of ?w' m = Some s"
      "secret_data s ''plan'' = fst (entry_of ?w' m)" by blast
    have "holds_plan (view ?S ?w') (plan_bytes (if m = im then start_instructions
        else join_instructions (getInternalMachineIP im))) (mc_Name m)"
      using ends(4) [OF phase(2)] m by (auto simp: list_all_iff)
    from holds_plan_entry [OF this] m s show "map_option (\<lambda>s. secret_data s ''plan'') (plan_secret_of ?w' m) =
        Some (plan_bytes (if m = im then start_instructions else join_instructions (getInternalMachineIP im)))"
      by (simp add: S)
  qed
  ultimately show ?thesis
    unfolding w1(1) by (simp only: prod.case outcome.case Let_def) (use im(1,3) in blast)
qed

definition demo_snapshot :: snapshot_fields where
  "demo_snapshot = \<lparr>sf_location = ''/snapshot'', sf_nodeName = ''m1'', sf_snapshotName = ''snap'', sf_readyToUse = True\<rparr>"

lemma demo_restorable: "restorable demo_codec demo_cluster demo_store"
  by (simp add: restorable_def labelled_machines_def cluster_machines_def list_items_def plan_secret_ok_def plan_secret_of_def
      plan_key_def output_ok_def secret_data_def getInternalMachineIP_def plan_secret_name_def demo_defs)

lemma demo_snapshot_file:
  "extractFieldsFromETCDSnapshotFile (hd demo_files) = Inr demo_snapshot"
  "node_machine demo_cluster (cluster_machines demo_cluster demo_store) (sf_nodeName demo_snapshot) = ''m1''"
  by (simp_all add: extractFieldsFromETCDSnapshotFile_def demo_files_def demo_snapshot_def node_machine_def cluster_machines_def
      list_items_def demo_defs)

theorem snapshot_restored_witness:
  "case sync_cluster server demo_tracker demo_cluster demo_store of
      (Return res, w1) \<Rightarrow>
        (let req = key (om_Namespace (cl_meta demo_cluster)) ''again'';
             w' = (round_of server demo_codec (run_agents ''out'') req ^^ 8)
               (ask_restore ''again'' demo_cluster (sf_snapshotName demo_snapshot) w1)
         in map_option sr_Phase (map_of (st_restores w') req) = Some ETCDSnapshotPhaseFinished \<and>
            map_option cl_Paused (map_of (st_clusters w') (key_of (cl_meta demo_cluster))) = Some False \<and>
            (\<exists>im \<in> set (labelled_machines demo_cluster demo_store).
               map_option or_Name (mc_NodeRef im) = Some (sf_nodeName demo_snapshot) \<and>
               list_all (\<lambda>m. map_option (\<lambda>s. secret_data s ''plan'') (plan_secret_of w' m) =
                   Some (plan_bytes (if m = im then start_instructions else join_instructions (getInternalMachineIP im))))
                 (labelled_machines demo_cluster demo_store)))
    | _ \<Rightarrow> False"
proof (rule snapshot_restored [OF restore_server.restore_api_axioms backup_server.backup_api_axioms demo_agents demo_sync
      demo_restorable _ demo_snapshot_file(1)])
  show "list_all (\<lambda>b. om_Name (mb_meta b) = sf_snapshotName demo_snapshot \<longrightarrow>
       b = backup_for demo_cluster demo_snapshot
         (node_machine demo_cluster (cluster_machines demo_cluster demo_store) (sf_nodeName demo_snapshot)))
     (concat (map (wanted demo_cluster (cluster_machines demo_cluster demo_store)) demo_files))"
    using demo_snapshot_file by (simp add: wanted_def demo_files_def)
  show "node_machine demo_cluster (cluster_machines demo_cluster demo_store) (sf_nodeName demo_snapshot) \<noteq> []"
    by (simp add: demo_snapshot_file(2))
qed (simp_all add: demo_snapshot_def demo_files_def demo_store_def demo_cluster_def)

end
