(* ===== verification/Install_Script.thy ===== *)
theory Install_Script
  imports Go_Prelude
begin

text \<open>
  \<open>internal/webhook/installsh.go\<close>: the shell script that installs the system agent on a
  machine, line by line. The webhook puts the line that sets \<open>CATTLE_SERVER\<close> before it.
\<close>

definition install_prologue :: "string list" where
  "install_prologue = [
    [],
    ''#!/bin/sh'',
    [],
    ''set -x'',
    ''CURL_LOG='' @ [quot] @ ''-v'' @ [quot],
    []]"

definition download_agent_binary :: "string list" where
  "download_agent_binary = [
    ''# Function to download the system agent binary with retries'',
    ''download_agent_binary() {'',
    ''    RETRY_COUNT=10'',
    ''    DOWNLOAD_SUCCESS=false'',
    [],
    ''    while [ $RETRY_COUNT -gt 0 ] && [ '' @ [quot] @ ''$DOWNLOAD_SUCCESS'' @ [quot] @ '' = false ]; do'',
    ''        echo '' @ [quot] @ ''Download attempt $((4 - $RETRY_COUNT)): Rancher System Agent binary'' @ [quot],
    ''        curl --connect-timeout 60 --max-time 300 --write-out '' @ [quot] @ ''%{http_code}'' @ [bslash] @ ''n'' @ [quot] @ '' ${CURL_CAFLAG} -v -fL '' @ [quot] @ ''${CATTLE_SERVER}/assets/rancher-system-agent-amd64'' @ [quot] @ '' -o '' @ [quot] @ ''${CATTLE_AGENT_BIN_PREFIX}/bin/rancher-system-agent'' @ [quot],
    [],
    ''        if [ $? -eq 0 ] && [ -s '' @ [quot] @ ''${CATTLE_AGENT_BIN_PREFIX}/bin/rancher-system-agent'' @ [quot] @ '' ]; then'',
    ''            DOWNLOAD_SUCCESS=true'',
    ''            echo '' @ [quot] @ ''Rancher System Agent binary downloaded successfully.'' @ [quot],
    ''        else'',
    ''            echo '' @ [quot] @ ''Failed to download Rancher System Agent binary. Retrying...'' @ [quot],
    ''            RETRY_COUNT=$((RETRY_COUNT - 1))'',
    ''            sleep 10'',
    ''        fi'',
    ''    done'',
    [],
    ''    if [ '' @ [quot] @ ''$DOWNLOAD_SUCCESS'' @ [quot] @ '' = false ]; then'',
    ''        echo '' @ [quot] @ ''Failed to download Rancher System Agent binary after multiple attempts. Exiting.'' @ [quot],
    ''        exit 1'',
    ''    fi'',
    ''}'']"

definition download_certificates :: "string list" where
  "download_certificates = [
    [],
    ''download_certificates() {'',
    ''    RETRY_COUNT=10'',
    ''    DOWNLOAD_SUCCESS=false'',
    ''    CERT_FILE='' @ [quot] @ ''$1'' @ [quot],
    [],
    ''    while [ $RETRY_COUNT -gt 0 ] && [ '' @ [quot] @ ''$DOWNLOAD_SUCCESS'' @ [quot] @ '' = false ]; do'',
    ''        echo '' @ [quot] @ ''Download attempt $((4 - $RETRY_COUNT)): Certificates'' @ [quot],
    ''        curl --connect-timeout 60 --max-time 60 --write-out '' @ [quot] @ ''%{http_code}'' @ [bslash] @ ''n'' @ [quot] @ '' --insecure ${CURL_LOG} -fL '' @ [quot] @ ''${CATTLE_SERVER}/cacerts'' @ [quot] @ '' -o '' @ [quot] @ ''${CERT_FILE}'' @ [quot],
    [],
    ''        if [ $? -eq 0 ] && [ -s '' @ [quot] @ ''${CERT_FILE}'' @ [quot] @ '' ]; then'',
    ''            DOWNLOAD_SUCCESS=true'',
    ''            echo '' @ [quot] @ ''Certificates downloaded successfully.'' @ [quot],
    ''        else'',
    ''            echo '' @ [quot] @ ''Failed to download certificates. Retrying...'' @ [quot],
    ''            RETRY_COUNT=$((RETRY_COUNT - 1))'',
    ''            sleep 10'',
    ''        fi'',
    ''    done'',
    [],
    ''    if [ '' @ [quot] @ ''$DOWNLOAD_SUCCESS'' @ [quot] @ '' = false ]; then'',
    ''        echo '' @ [quot] @ ''Failed to download certificates after multiple attempts. Exiting.'' @ [quot],
    ''        exit 1'',
    ''    fi'',
    ''}'']"

definition install_main :: "string list" where
  "install_main = [
    [],
    ''echo '' @ [quot] @ ''Downloading certificates'' @ [quot],
    ''CACERT=$(mktemp)'',
    ''download_certificates '' @ [quot] @ ''${CACERT}'' @ [quot],
    [],
    ''# Set up CURL_CAFLAG'',
    ''CURL_CAFLAG='' @ [quot] @ ''--cacert ${CACERT}'' @ [quot],
    [],
    ''# Call the function to download the system agent binary'',
    ''download_agent_binary'',
    [],
    ''chmod +x '' @ [quot] @ ''${CATTLE_AGENT_BIN_PREFIX}/bin/rancher-system-agent'' @ [quot],
    [],
    ''echo '' @ [quot] @ ''systemd: Creating service file'' @ [quot],
    ''cat <<-EOF >'' @ [quot] @ ''/etc/systemd/system/rancher-system-agent.service'' @ [quot],
    ''[Unit]'',
    ''Description=Rancher System Agent'',
    ''Documentation=https://www.rancher.com'',
    ''Wants=network-online.target'',
    ''After=network-online.target'',
    ''[Install]'',
    ''WantedBy=multi-user.target'',
    ''[Service]'',
    ''EnvironmentFile=-/etc/default/rancher-system-agent'',
    ''EnvironmentFile=-/etc/sysconfig/rancher-system-agent'',
    ''EnvironmentFile=-/etc/systemd/system/rancher-system-agent.env'',
    ''Type=simple'',
    ''Restart=always'',
    ''RestartSec=5s'',
    ''Environment=CATTLE_LOGLEVEL=debug'',
    ''Environment=CATTLE_AGENT_CONFIG=/etc/rancher/agent/config.yaml'',
    ''ExecStart=${CATTLE_AGENT_BIN_PREFIX}/bin/rancher-system-agent sentinel'',
    ''EOF'',
    [],
    ''FILE_SA_ENV='' @ [quot] @ ''/etc/systemd/system/rancher-system-agent.env'' @ [quot],
    ''echo '' @ [quot] @ ''Creating environment file ${FILE_SA_ENV}'' @ [quot],
    ''install -m 0600 /dev/null '' @ [quot] @ ''${FILE_SA_ENV}'' @ [quot],
    ''for i in '' @ [quot] @ ''HTTP_PROXY'' @ [quot] @ '' '' @ [quot] @ ''HTTPS_PROXY'' @ [quot] @ '' '' @ [quot] @ ''NO_PROXY'' @ [quot] @ ''; do'',
    ''    eval v='' @ [bslash] @ [quot] @ [bslash] @ ''$$i'' @ [bslash] @ [quot],
    ''    if [ -z '' @ [quot] @ ''${v}'' @ [quot] @ '' ]; then'',
    ''    env | grep -E -i '' @ [quot] @ ''^${i}'' @ [quot] @ '' | tee -a ${FILE_SA_ENV} >/dev/null'',
    ''    else'',
    ''    echo '' @ [quot] @ ''$i=$v'' @ [quot] @ '' | tee -a ${FILE_SA_ENV} >/dev/null'',
    ''    fi'',
    ''done'',
    [],
    ''systemctl daemon-reload >/dev/null'',
    ''echo '' @ [quot] @ ''Enabling rancher-system-agent.service'' @ [quot],
    ''systemctl enable rancher-system-agent'',
    ''echo '' @ [quot] @ ''Starting/restarting rancher-system-agent.service'' @ [quot],
    ''systemctl restart rancher-system-agent'',
    ''rm -f ${CATTLE_AGENT_VAR_DIR}/interlock/restart-pending'',
    []]"

definition installsh :: string where
  "installsh = strings_Join
     (install_prologue @ download_agent_binary @ download_certificates @ install_main) [newline]"

end
