(* ===== verification/RKE2_Webhook.thy ===== *)
theory RKE2_Webhook
  imports Kube_Client Go_Json Install_Script
begin

text \<open>
  \<open>internal/webhook/rke2config_webhook.go\<close>: the mutating webhook of \<open>RKE2Config\<close>. For
  each configuration it creates the plan secret of the machine with the identity that may
  read it, and makes the configuration install the system agent. A function that changes
  the configuration returns it changed.
\<close>

section \<open>Constants and library functions\<close>

definition rke2ConfigNameLabel :: string where
  "rke2ConfigNameLabel = ''cluster-api.cattle.io/rke2config-name''"

definition planSecretNameLabel :: string where
  "planSecretNameLabel = ''cluster-api.cattle.io/plan-secret-name''"

definition serviceAccountSecretLabel :: string where
  "serviceAccountSecretLabel = ''cluster-api.cattle.io/service-account.name''"

definition secretTypeMachinePlan :: string where
  "secretTypeMachinePlan = ''cluster-api.cattle.io/machine-plan''"

definition defaultFileOwner :: string where "defaultFileOwner = ''root:root''"

text \<open>\<open>clientcmdapi.Config\<close>, with the fields the webhook sets.\<close>

record kube_cluster =
  kcl_Server :: string
  kcl_CertificateAuthorityData :: bytes

record kube_auth =
  ka_Token :: string

record kube_context =
  kctx_Cluster :: string
  kctx_AuthInfo :: string

record kube_config =
  kc_Clusters :: "kube_cluster go_map"
  kc_AuthInfos :: "kube_auth go_map"
  kc_Contexts :: "kube_context go_map"
  kc_CurrentContext :: string

text \<open>
  From client-go: writing a kubeconfig, and \<open>retry.OnError\<close> with its default backoff and
  every error retriable, applied to a function that leaves a token.
\<close>

record 'w webhook_lib =
  clientcmd_Write :: "kube_config \<Rightarrow> go_error + bytes"
  retry_OnError :: "('w, bytes) go \<Rightarrow> ('w, bytes) go"

definition NewBadRequest :: "string \<Rightarrow> go_error" where
  "NewBadRequest msg = ApiError (StatusError ReasonBadRequest msg)"

section \<open>Plan secret resources\<close>

definition plan_service_account :: "string \<Rightarrow> rke2_config \<Rightarrow> service_account" where
  "plan_service_account planSecretName cfg =
     \<lparr>sa_meta = (meta_for planSecretName (rc_Namespace cfg))
        \<lparr>om_Labels := [(rke2ConfigNameLabel, rc_Name cfg), (planSecretNameLabel, planSecretName)]\<rparr>\<rparr>"

definition plan_secret :: "string \<Rightarrow> rke2_config \<Rightarrow> secret" where
  "plan_secret planSecretName cfg =
     \<lparr>sec_meta = (meta_for planSecretName (rc_Namespace cfg))
        \<lparr>om_Labels := [(rke2ConfigNameLabel, rc_Name cfg)]\<rparr>,
      sec_Type = secretTypeMachinePlan, sec_Data = None\<rparr>"

definition plan_role :: "string \<Rightarrow> rke2_config \<Rightarrow> role" where
  "plan_role planSecretName cfg =
     \<lparr>ro_meta = meta_for planSecretName (rc_Namespace cfg),
      ro_Rules = [\<lparr>pr_Verbs = [''watch'', ''get'', ''update'', ''list''], pr_APIGroups = [[]],
        pr_Resources = [''secrets''], pr_ResourceNames = [planSecretName]\<rparr>]\<rparr>"

definition plan_role_binding :: "string \<Rightarrow> rke2_config \<Rightarrow> role_binding" where
  "plan_role_binding planSecretName cfg =
     (let sa = plan_service_account planSecretName cfg in
      \<lparr>rb_meta = meta_for planSecretName (rc_Namespace cfg),
       rb_Subjects = [\<lparr>su_Kind = ''ServiceAccount'', su_Name = om_Name (sa_meta sa),
         su_Namespace = om_Namespace (sa_meta sa)\<rparr>],
       rb_RoleRef = \<lparr>rr_APIGroup = ''rbac.authorization.k8s.io'', rr_Kind = ''Role'',
         rr_Name = planSecretName\<rparr>\<rparr>)"

definition plan_token_secret :: "string \<Rightarrow> rke2_config \<Rightarrow> secret" where
  "plan_token_secret planSecretName cfg =
     \<lparr>sec_meta = (meta_for (planSecretName @ ''-token'') (rc_Namespace cfg))
        \<lparr>om_Annotations := [(''kubernetes.io/service-account.name'', planSecretName)],
         om_Labels := [(serviceAccountSecretLabel, planSecretName)]\<rparr>,
      sec_Type = ''kubernetes.io/service-account-token'', sec_Data = None\<rparr>"

definition plan_resources :: "string \<Rightarrow> rke2_config \<Rightarrow> api_object list" where
  "plan_resources planSecretName cfg =
     [OServiceAccount (plan_service_account planSecretName cfg),
      OSecret (plan_secret planSecretName cfg),
      ORole (plan_role planSecretName cfg),
      ORoleBinding (plan_role_binding planSecretName cfg),
      OSecret (plan_token_secret planSecretName cfg)]"

text \<open>
  \<open>r.Create\<close> where an object that exists already is no error; \<open>h\<close> is what the code makes
  of another error. The objects have no type meta, so the message of the loop names an
  empty kind.
\<close>

definition create_if_absent :: "'w client \<Rightarrow> (go_error \<Rightarrow> go_error) \<Rightarrow> api_object \<Rightarrow> ('w, unit) go" where
  "create_if_absent c h x =
     bind_go (attempt (create c x)) (\<lambda>created. case created of
       Inl e \<Rightarrow> if \<not> IsAlreadyExists e then fail (h (ApiError e)) else ret ()
     | Inr _ \<Rightarrow> ret ())"

definition empty_gvk :: group_version_kind where
  "empty_gvk = \<lparr>gvk_Group = [], gvk_Version = [], gvk_Kind = []\<rparr>"

definition createSecretPlanResources :: "'w client \<Rightarrow> string \<Rightarrow> rke2_config \<Rightarrow> ('w, unit) go" where
  "createSecretPlanResources c planSecretName cfg =
     for_range (\<lambda>x _. create_if_absent c (Wrapf (''failed to create '' @ gvk_String empty_gvk @ '': '')) x)
       (plan_resources planSecretName cfg) ()"

section \<open>Service account token\<close>

definition service_account_token :: "'w client \<Rightarrow> string \<Rightarrow> ('w, bytes) go" where
  "service_account_token c planSecretName =
     bind_err (call (list_Secret c [MatchingLabels [(serviceAccountSecretLabel, planSecretName)]]))
       (Wrapf ''failed to list secrets: '') (\<lambda>secrets. case secrets of
         [saSecret] \<Rightarrow>
           if secret_data saSecret ''token'' = [] then
             fail (Errorf (''secret '' @ planSecretName @ '' not yet populated''))
           else ret (secret_data saSecret ''token'')
       | _ \<Rightarrow> fail (Errorf (''secret for '' @ planSecretName @ '' doesn'' @ [squot]
                @ ''t exist, or more than one secret exists'')))"

definition ensureServiceAccountSecretPopulated ::
  "'w client \<Rightarrow> 'w webhook_lib \<Rightarrow> string \<Rightarrow> ('w, bytes) go" where
  "ensureServiceAccountSecretPopulated c lib planSecretName =
     retry_OnError lib (service_account_token c planSecretName)"

section \<open>Files and commands of the configuration\<close>

definition has_file :: "string \<Rightarrow> rke2_config \<Rightarrow> bool" where
  "has_file path cfg \<longleftrightarrow> list_ex (\<lambda>f. cf_Path f = path) (rc_Files cfg)"

definition add_file :: "config_file \<Rightarrow> rke2_config \<Rightarrow> rke2_config" where
  "add_file f cfg = cfg\<lparr>rc_Files := rc_Files cfg @ [f]\<rparr>"

definition secret_file :: "string \<Rightarrow> string \<Rightarrow> string \<Rightarrow> config_file" where
  "secret_file path secretName k =
     \<lparr>cf_Path = path, cf_Owner = defaultFileOwner, cf_Permissions = ''0600'', cf_Content = [],
      cf_ContentFrom = Some \<lparr>sfs_Name = secretName, sfs_Key = k\<rparr>\<rparr>"

definition new_secret :: "string \<Rightarrow> string \<Rightarrow> string \<Rightarrow> bytes \<Rightarrow> secret" where
  "new_secret nm ns k v =
     \<lparr>sec_meta = meta_for nm ns, sec_Type = [], sec_Data = Some [(k, v)]\<rparr>"

subsection \<open>Connect info\<close>

definition connectInfoJsonPath :: string where
  "connectInfoJsonPath = ''/etc/rancher/agent/connect-info-config.json''"

definition agent_kubeconfig :: "string \<Rightarrow> string \<Rightarrow> bytes \<Rightarrow> kube_config" where
  "agent_kubeconfig serverUrl pem token =
     \<lparr>kc_Clusters = [(''agent'', \<lparr>kcl_Server = serverUrl, kcl_CertificateAuthorityData = pem\<rparr>)],
      kc_AuthInfos = [(''agent'', \<lparr>ka_Token = token\<rparr>)],
      kc_Contexts = [(''agent'', \<lparr>kctx_Cluster = ''agent'', kctx_AuthInfo = ''agent''\<rparr>)],
      kc_CurrentContext = ''agent''\<rparr>"

text \<open>\<open>json.MarshalIndent(connectInfoConfig, "", " ")\<close>.\<close>

definition connect_info_json :: "string \<Rightarrow> string \<Rightarrow> string \<Rightarrow> bytes" where
  "connect_info_json ns secretName kubeConfig =
     ''{'' @ [newline]
     @ '' '' @ json_quote ''namespace'' @ '': '' @ json_quote ns @ '','' @ [newline]
     @ '' '' @ json_quote ''secretName'' @ '': '' @ json_quote secretName @ '','' @ [newline]
     @ '' '' @ json_quote ''kubeConfig'' @ '': '' @ json_quote kubeConfig @ [newline]
     @ ''}''"

definition createConnectInfoJson ::
  "'w client \<Rightarrow> 'w webhook_lib \<Rightarrow> rke2_config \<Rightarrow> string \<Rightarrow> string \<Rightarrow> string \<Rightarrow> bytes \<Rightarrow> ('w, rke2_config) go" where
  "createConnectInfoJson c lib cfg planSecretName serverUrl pem token =
     (if has_file connectInfoJsonPath cfg then ret cfg
      else
        bind_err (of_result (clientcmd_Write lib (agent_kubeconfig serverUrl pem token)))
          (\<lambda>e. NewBadRequest (''failed to write kubeconfig: '' @ error_string e)) (\<lambda>kubeConfig.
        bind_go (create_if_absent c (\<lambda>e. e)
            (OSecret (new_secret (rc_Name cfg @ ''-system-agent-connect-info-config'') (rc_Namespace cfg)
               ''connect-info-config.json''
               (connect_info_json (rc_Namespace cfg) planSecretName kubeConfig)))) (\<lambda>_.
        ret (add_file (secret_file connectInfoJsonPath
               (rc_Name cfg @ ''-system-agent-connect-info-config'') ''connect-info-config.json'') cfg))))"

subsection \<open>Install script\<close>

definition systemAgentInstallScriptPath :: string where
  "systemAgentInstallScriptPath = ''/opt/system-agent-install.sh''"

definition createSystemAgentInstallScript ::
  "'w client \<Rightarrow> string \<Rightarrow> rke2_config \<Rightarrow> ('w, rke2_config) go" where
  "createSystemAgentInstallScript c serverUrl cfg =
     (if has_file systemAgentInstallScriptPath cfg then ret cfg
      else
        bind_go (create_if_absent c (\<lambda>e. e)
            (OSecret (new_secret (rc_Name cfg @ ''-system-agent-install-script'') (rc_Namespace cfg)
               ''install.sh'' (''CATTLE_SERVER='' @ serverUrl @ [newline] @ installsh)))) (\<lambda>_.
        ret (add_file (secret_file systemAgentInstallScriptPath
               (rc_Name cfg @ ''-system-agent-install-script'') ''install.sh'') cfg)))"

subsection \<open>Agent configuration and post-install command\<close>

definition configYAMLPath :: string where "configYAMLPath = ''/etc/rancher/agent/config.yaml''"

definition createConfigYAML :: "rke2_config \<Rightarrow> ('w, rke2_config) go" where
  "createConfigYAML cfg =
     (if has_file configYAMLPath cfg then ret cfg
      else ret (add_file
        \<lparr>cf_Path = configYAMLPath, cf_Owner = defaultFileOwner, cf_Permissions = ''0600'',
         cf_Content = strings_Join
           [''workDirectory: /var/lib/rancher/agent/work'',
            ''localPlanDirectory: /var/lib/rancher/agent/plans'',
            ''remoteEnabled: true'',
            ''connectionInfoFile: /etc/rancher/agent/connect-info-config.json'',
            ''preserveWorkDirectory: true''] [newline],
         cf_ContentFrom = None\<rparr> cfg))"

definition postInstallCommand :: string where
  "postInstallCommand = ''sudo sh /opt/system-agent-install.sh''"

definition addPostInstallCommands :: "rke2_config \<Rightarrow> rke2_config" where
  "addPostInstallCommands cfg =
     (if list_ex (\<lambda>cmd. cmd = postInstallCommand) (rc_PostRKE2Commands cfg) then cfg
      else cfg\<lparr>rc_PostRKE2Commands := rc_PostRKE2Commands cfg @ [postInstallCommand]\<rparr>)"

section \<open>Default\<close>

text \<open>A \<open>runtime.Object\<close>: an \<open>RKE2Config\<close>, or another type with its name.\<close>

datatype runtime_object = RKE2ConfigObject rke2_config | OtherObject string

text \<open>What \<open>%s\<close> prints for a nil error.\<close>

definition nil_error_string :: string where "nil_error_string = ''%!s(<nil>)''"

definition setting_gvk :: group_version_kind where
  "setting_gvk = \<lparr>gvk_Group = ''management.cattle.io'', gvk_Version = ''v3'', gvk_Kind = ''Setting''\<rparr>"

definition string_setting :: "'w client \<Rightarrow> string \<Rightarrow> string \<Rightarrow> ('w, string) go" where
  "string_setting c nm what =
     bind_err (call (get_Unstructured c setting_gvk (key [] nm)))
       (\<lambda>e. NewBadRequest (''failed to get '' @ what @ '' setting: '' @ error_string e)) (\<lambda>u.
     case map_of (un_Object u) ''value'' of
       Some (JString v) \<Rightarrow> ret v
     | _ \<Rightarrow> fail (NewBadRequest (''failed to get '' @ what @ '' setting: '' @ nil_error_string)))"

definition config_plan_secret_name :: "rke2_config \<Rightarrow> string" where
  "config_plan_secret_name cfg = strings_Join [rc_Name cfg, ''rke2config'', ''plan''] ''-''"

definition default_config :: "'w client \<Rightarrow> 'w webhook_lib \<Rightarrow> rke2_config \<Rightarrow> ('w, rke2_config) go" where
  "default_config c lib cfg =
     (let planSecretName = config_plan_secret_name cfg in
      bind_err (createSecretPlanResources c planSecretName cfg)
        (\<lambda>e. NewBadRequest (''failed to create secret plan resources: '' @ error_string e)) (\<lambda>_.
      bind_err (ensureServiceAccountSecretPopulated c lib planSecretName)
        (\<lambda>e. NewBadRequest (''failed to ensure service account secret is populated: '' @ error_string e)) (\<lambda>token.
      bind_go (string_setting c ''server-url'' ''server url'') (\<lambda>serverUrl.
      if serverUrl = [] then fail (NewBadRequest ''server url setting is empty'')
      else
        bind_go (string_setting c ''cacerts'' ''ca'') (\<lambda>pem.
        bind_err (createConnectInfoJson c lib cfg planSecretName serverUrl pem token)
          (\<lambda>e. NewBadRequest (''failed to create connect info json: '' @ error_string e)) (\<lambda>cfg1.
        bind_err (createSystemAgentInstallScript c serverUrl cfg1)
          (\<lambda>e. NewBadRequest (''failed to create system agent install script: '' @ error_string e)) (\<lambda>cfg2.
        bind_err (createConfigYAML cfg2)
          (\<lambda>e. NewBadRequest (''failed to create config.yaml: '' @ error_string e)) (\<lambda>cfg3.
        ret (addPostInstallCommands cfg3)))))))))"

fun Default :: "'w client \<Rightarrow> 'w webhook_lib \<Rightarrow> runtime_object \<Rightarrow> ('w, rke2_config) go" where
  "Default c lib (RKE2ConfigObject cfg) = default_config c lib cfg"
| "Default c lib (OtherObject type_name) =
     fail (NewBadRequest (''expected a RKE2Config but got a '' @ type_name))"

section \<open>What the webhook makes of a configuration\<close>

text \<open>
  A step that puts something into the configuration unless it is there: what the four
  installing functions promise, and what follows from it.
\<close>

locale ensured =
  fixes step :: "rke2_config \<Rightarrow> ('w, rke2_config) go"
    and present :: "rke2_config \<Rightarrow> bool"
    and add :: "rke2_config \<Rightarrow> rke2_config"
  assumes run: "yields (step cfg) (\<lambda>cfg'. cfg' = (if present cfg then cfg else add cfg))"
    and added: "present (add cfg)"
begin

definition ensure :: "rke2_config \<Rightarrow> rke2_config" where
  "ensure cfg = (if present cfg then cfg else add cfg)"

lemma yields_ensure: "yields (step cfg) (\<lambda>cfg'. cfg' = ensure cfg)"
  using run by (simp add: ensure_def)

lemma present_ensure [simp]: "present (ensure cfg)"
  by (simp add: ensure_def added)

lemma ensure_present: "present cfg \<Longrightarrow> ensure cfg = cfg"
  by (simp add: ensure_def)

lemma ensure_idem: "ensure (ensure cfg) = ensure cfg"
  by (simp add: ensure_present)

end

lemma has_file_add_file [simp]: "has_file p (add_file f cfg) \<longleftrightarrow> has_file p cfg \<or> cf_Path f = p"
  by (auto simp: has_file_def add_file_def)

lemma add_file_simps [simp]:
  "rc_meta (add_file f cfg) = rc_meta cfg" "rc_PostRKE2Commands (add_file f cfg) = rc_PostRKE2Commands cfg"
  "rc_Files (add_file f cfg) = rc_Files cfg @ [f]"
  by (simp_all add: add_file_def)

definition connect_info_file :: "rke2_config \<Rightarrow> config_file" where
  "connect_info_file cfg = secret_file connectInfoJsonPath
     (rc_Name cfg @ ''-system-agent-connect-info-config'') ''connect-info-config.json''"

definition install_script_file :: "rke2_config \<Rightarrow> config_file" where
  "install_script_file cfg = secret_file systemAgentInstallScriptPath
     (rc_Name cfg @ ''-system-agent-install-script'') ''install.sh''"

definition config_yaml_file :: config_file where
  "config_yaml_file =
     \<lparr>cf_Path = configYAMLPath, cf_Owner = defaultFileOwner, cf_Permissions = ''0600'',
      cf_Content = strings_Join
        [''workDirectory: /var/lib/rancher/agent/work'',
         ''localPlanDirectory: /var/lib/rancher/agent/plans'',
         ''remoteEnabled: true'',
         ''connectionInfoFile: /etc/rancher/agent/connect-info-config.json'',
         ''preserveWorkDirectory: true''] [newline],
      cf_ContentFrom = None\<rparr>"

lemma managed_paths [simp]:
  "cf_Path (connect_info_file cfg) = connectInfoJsonPath"
  "cf_Path (install_script_file cfg) = systemAgentInstallScriptPath"
  "cf_Path config_yaml_file = configYAMLPath"
  by (simp_all add: connect_info_file_def install_script_file_def config_yaml_file_def secret_file_def)

lemma managed_paths_distinct [simp]:
  "connectInfoJsonPath \<noteq> systemAgentInstallScriptPath" "systemAgentInstallScriptPath \<noteq> connectInfoJsonPath"
  "connectInfoJsonPath \<noteq> configYAMLPath" "configYAMLPath \<noteq> connectInfoJsonPath"
  "systemAgentInstallScriptPath \<noteq> configYAMLPath" "configYAMLPath \<noteq> systemAgentInstallScriptPath"
  by (simp_all add: connectInfoJsonPath_def systemAgentInstallScriptPath_def configYAMLPath_def)

interpretation connect_info: ensured
  "\<lambda>cfg. createConnectInfoJson c lib cfg planSecretName serverUrl pem token"
  "has_file connectInfoJsonPath" "\<lambda>cfg. add_file (connect_info_file cfg) cfg"
  for c lib planSecretName serverUrl pem token
  by unfold_locales
    (auto simp: createConnectInfoJson_def connect_info_file_def secret_file_def
      intro!: yields_ret yields_bind)

interpretation install_script: ensured "createSystemAgentInstallScript c serverUrl"
  "has_file systemAgentInstallScriptPath" "\<lambda>cfg. add_file (install_script_file cfg) cfg"
  for c serverUrl
  by unfold_locales
    (auto simp: createSystemAgentInstallScript_def install_script_file_def secret_file_def
      intro!: yields_ret yields_bind)

interpretation config_yaml: ensured "createConfigYAML :: rke2_config \<Rightarrow> ('w, rke2_config) go"
  "has_file configYAMLPath" "add_file config_yaml_file"
  by unfold_locales (simp_all add: createConfigYAML_def config_yaml_file_def yields_ret)

interpretation post_install: ensured "\<lambda>cfg. ret (addPostInstallCommands cfg)"
  "\<lambda>cfg. postInstallCommand \<in> set (rc_PostRKE2Commands cfg)"
  "\<lambda>cfg. cfg\<lparr>rc_PostRKE2Commands := rc_PostRKE2Commands cfg @ [postInstallCommand]\<rparr>"
  by unfold_locales (auto simp: addPostInstallCommands_def list_ex_iff yields_ret)

text \<open>The configuration the webhook leaves: the three files and the command, each once.\<close>

definition installed :: "rke2_config \<Rightarrow> rke2_config" where
  "installed cfg = post_install.ensure (config_yaml.ensure (install_script.ensure (connect_info.ensure cfg)))"

lemma yields_default_config: "yields (default_config c lib cfg) (\<lambda>cfg'. cfg' = installed cfg)"
  unfolding default_config_def Let_def installed_def
  apply (rule yields_bind, rule yields_bind, rule yields_bind)
  subgoal for u token serverUrl
    apply (rule yields_if, rule yields_fail)
    apply (rule yields_bind)
    apply (rule yields_bind_err [OF connect_info.yields_ensure])
    apply (rule yields_bind_err [OF install_script.yields_ensure])
    apply (rule yields_bind_err [OF config_yaml.yields_ensure])
    using post_install.yields_ensure by simp
  done

lemma ensure_keeps [simp]:
  "has_file p (post_install.ensure cfg) \<longleftrightarrow> has_file p cfg"
  "p \<noteq> configYAMLPath \<Longrightarrow> has_file p (config_yaml.ensure cfg) \<longleftrightarrow> has_file p cfg"
  "p \<noteq> systemAgentInstallScriptPath \<Longrightarrow> has_file p (install_script.ensure cfg) \<longleftrightarrow> has_file p cfg"
  by (auto simp: post_install.ensure_def config_yaml.ensure_def install_script.ensure_def has_file_def)

lemma installed_present:
  "has_file connectInfoJsonPath (installed cfg)" "has_file systemAgentInstallScriptPath (installed cfg)"
  "has_file configYAMLPath (installed cfg)" "postInstallCommand \<in> set (rc_PostRKE2Commands (installed cfg))"
  using post_install.present_ensure by (simp_all add: installed_def)

lemma installed_idem: "installed (installed cfg) = installed cfg"
  using installed_present [of cfg] unfolding installed_def [of "installed cfg"]
  by (simp add: connect_info.ensure_present install_script.ensure_present config_yaml.ensure_present
      post_install.ensure_present)

text \<open>Nothing the configuration already has is changed: entries are only appended.\<close>

lemma installed_appends:
  "\<exists>fs cs. rc_Files (installed cfg) = rc_Files cfg @ fs \<and>
     rc_PostRKE2Commands (installed cfg) = rc_PostRKE2Commands cfg @ cs \<and>
     rc_meta (installed cfg) = rc_meta cfg \<and>
     (\<forall>f \<in> set fs. \<not> has_file (cf_Path f) cfg) \<and> distinct (map cf_Path fs) \<and>
     set (map cf_Path fs) \<subseteq> {connectInfoJsonPath, systemAgentInstallScriptPath, configYAMLPath} \<and>
     set cs \<subseteq> {postInstallCommand}"
  unfolding installed_def post_install.ensure_def config_yaml.ensure_def install_script.ensure_def
    connect_info.ensure_def
  by (auto simp: has_file_def)

section \<open>The retry\<close>

text \<open>
  What \<open>retry.OnError\<close> documents: call the function until it succeeds, at most \<open>n\<close> more
  times after a failure, with a pause in between during which the cluster may change; the
  last error is returned.
\<close>

fun attempts :: "('w \<Rightarrow> 'w) \<Rightarrow> nat \<Rightarrow> ('w, 'a) go \<Rightarrow> ('w, 'a) go" where
  "attempts pause 0 m = m"
| "attempts pause (Suc n) m = (\<lambda>w. case m w of
     (Return a, w') \<Rightarrow> (Return a, w')
   | (Error e, w') \<Rightarrow> attempts pause n m (pause w')
   | (Panicked p, w') \<Rightarrow> (Panicked p, w'))"

definition retry_lib :: "(kube_config \<Rightarrow> go_error + bytes) \<Rightarrow> ('w \<Rightarrow> 'w) \<Rightarrow> nat \<Rightarrow> 'w webhook_lib" where
  "retry_lib kw pause n = \<lparr>clientcmd_Write = kw, retry_OnError = attempts pause n\<rparr>"

lemma retry_lib_simps [simp]:
  "clientcmd_Write (retry_lib kw pause n) = kw" "retry_OnError (retry_lib kw pause n) = attempts pause n"
  by (simp_all add: retry_lib_def)

lemma emits_all_attempts:
  assumes "emits_all P m"
  shows "emits_all P (attempts (apsnd pause) n m)"
proof (induction n)
  case (Suc n)
  show ?case
    unfolding emits_all_def emits_def
  proof (intro allI)
    fix es w
    from assms obtain new w' out where m: "m (es, w) = (out, (es @ new, w'))" "list_all P new"
      unfolding emits_all_def emits_def by blast
    show "\<exists>new w' out. attempts (apsnd pause) (Suc n) m (es, w) = (out, (es @ new, w')) \<and> list_all P new"
    proof (cases out)
      case (Error e)
      from Suc obtain new2 w2 out2 where
        "attempts (apsnd pause) n m (es @ new, pause w') = (out2, ((es @ new) @ new2, w2))" "list_all P new2"
        unfolding emits_all_def emits_def by blast
      with m Error show ?thesis by (intro exI [of _ "new @ new2"]) simp
    qed (use m in auto)
  qed
qed (simp add: assms)

section \<open>What the webhook creates\<close>

text \<open>
  The objects the webhook may create for a configuration: the five plan resources, the
  connect info with some kubeconfig, and the install script for some server.
\<close>

definition config_secrets :: "rke2_config \<Rightarrow> api_object set" where
  "config_secrets cfg = range (\<lambda>kubeConfig. OSecret (new_secret (rc_Name cfg @ ''-system-agent-connect-info-config'')
          (rc_Namespace cfg) ''connect-info-config.json''
          (connect_info_json (rc_Namespace cfg) (config_plan_secret_name cfg) kubeConfig)))
     \<union> range (\<lambda>serverUrl. OSecret (new_secret (rc_Name cfg @ ''-system-agent-install-script'')
          (rc_Namespace cfg) ''install.sh'' (''CATTLE_SERVER='' @ serverUrl @ [newline] @ installsh)))"

definition webhook_objects :: "rke2_config \<Rightarrow> api_object set" where
  "webhook_objects cfg = set (plan_resources (config_plan_secret_name cfg) cfg) \<union> config_secrets cfg"

fun webhook_write :: "rke2_config \<Rightarrow> event \<Rightarrow> bool" where
  "webhook_write cfg (EvCreate x res) \<longleftrightarrow> x \<in> webhook_objects cfg"
| "webhook_write cfg e \<longleftrightarrow> \<not> is_write e"

text \<open>After the plan resources, only the two secrets are created.\<close>

fun secret_write :: "rke2_config \<Rightarrow> event \<Rightarrow> bool" where
  "secret_write cfg (EvCreate x res) \<longleftrightarrow> x \<in> config_secrets cfg"
| "secret_write cfg e \<longleftrightarrow> \<not> is_write e"

lemma secret_write_webhook: "secret_write cfg e \<Longrightarrow> webhook_write cfg e"
  by (cases e) (simp_all add: webhook_objects_def)

lemma secret_write_create_if_absent:
  "x \<in> config_secrets cfg \<Longrightarrow> emits_all (secret_write cfg) (create_if_absent (recording c) h x)"
  unfolding create_if_absent_def recording_simps
  by (intro emits_all_bind_err emits_all_attempt) (auto intro: emits_all_rules split: sum.split)

text \<open>The plan resources are all there when the first step returns.\<close>

definition present_after :: "event list \<Rightarrow> api_object \<Rightarrow> bool" where
  "present_after es x \<longleftrightarrow> EvCreate x (Inr ()) \<in> set es \<or> (\<exists>e. IsAlreadyExists e \<and> EvCreate x (Inl e) \<in> set es)"

lemma present_after_mono: "present_after es x \<Longrightarrow> set es \<subseteq> set es' \<Longrightarrow> present_after es' x"
  unfolding present_after_def by blast

lemma emits_create_if_absent:
  "emits (create_if_absent (recording c) h x) (\<lambda>new out. (\<exists>r. new = [EvCreate x r]) \<and>
     (out = Return () \<longrightarrow> present_after new x))"
  unfolding create_if_absent_def recording_simps
  apply (rule emits_bind_err [OF emits_attempt [where Q = "\<lambda>new out. \<exists>r. out = Return r \<and> new = [EvCreate x r]"]])
  subgoal by simp
  subgoal for r new1
    by (cases r) (auto intro!: emits_ret emits_fail emits_if simp: present_after_def)
  by simp_all

lemma emits_plan_resources:
  "emits (for_range (\<lambda>x _. create_if_absent (recording c) h x) xs ()) (\<lambda>new out.
     (\<exists>rs n. new = map2 EvCreate (take n xs) rs) \<and> (out = Return () \<longrightarrow> (\<forall>x \<in> set xs. present_after new x)))"
proof (rule emits_for_range [where I = "\<lambda>ys new a. (\<exists>rs. length rs = length ys \<and> new = map2 EvCreate ys rs) \<and>
      (\<forall>x \<in> set ys. present_after new x)"])
  fix ys x zs a and new :: "event list"
  assume xs: "xs = ys @ x # zs" and I: "(\<exists>rs. length rs = length ys \<and> new = map2 EvCreate ys rs) \<and>
      (\<forall>x \<in> set ys. present_after new x)"
  then obtain rs where rs: "length rs = length ys" "new = map2 EvCreate ys rs" by blast
  have ext: "new @ [EvCreate x r] = map2 EvCreate (ys @ [x]) (rs @ [r])" for r
    using rs by simp
  have "\<exists>rs. length rs = length (ys @ [x]) \<and> new @ [EvCreate x r] = map2 EvCreate (ys @ [x]) rs" for r
    using ext [of r] rs(1) by (intro exI [of _ "rs @ [r]"]) simp
  moreover have "\<exists>rs n. new @ [EvCreate x r] = map2 EvCreate (take n xs) rs" for r
    using ext [of r] xs by (intro exI [of _ "rs @ [r]"] exI [of _ "Suc (length ys)"]) simp
  ultimately show "emits (create_if_absent (recording c) h x) (\<lambda>new2 out. case out of
       Return a' \<Rightarrow> (\<exists>rs. length rs = length (ys @ [x]) \<and> new @ new2 = map2 EvCreate (ys @ [x]) rs) \<and>
         (\<forall>y \<in> set (ys @ [x]). present_after (new @ new2) y)
     | Error e \<Rightarrow> (\<exists>rs n. new @ new2 = map2 EvCreate (take n xs) rs) \<and>
         (Error e = Return () \<longrightarrow> (\<forall>x \<in> set xs. present_after (new @ new2) x))
     | Panicked p \<Rightarrow> (\<exists>rs n. new @ new2 = map2 EvCreate (take n xs) rs) \<and>
         (Panicked p = Return () \<longrightarrow> (\<forall>x \<in> set xs. present_after (new @ new2) x)))"
    using I by (intro emits_weaken [OF emits_create_if_absent])
      (auto split: outcome.split intro: present_after_mono)
qed (auto, metis order_refl take_all)

lemma secret_write_installing:
  "emits_all (secret_write cfg)
     (createConnectInfoJson (recording c) lib cfg (config_plan_secret_name cfg) serverUrl pem token)"
  "rc_meta cfg1 = rc_meta cfg \<Longrightarrow>
     emits_all (secret_write cfg) (createSystemAgentInstallScript (recording c) serverUrl cfg1)"
  "emits_all (secret_write cfg) (createConfigYAML cfg2)"
  unfolding createConnectInfoJson_def createSystemAgentInstallScript_def createConfigYAML_def
  by (intro emits_all_rules secret_write_create_if_absent; simp add: config_secrets_def)+

lemma secret_write_token:
  "emits_all (secret_write cfg) (attempts (apsnd pause) n (service_account_token (recording c) nm))"
  unfolding service_account_token_def recording_simps
  by (rule emits_all_attempts, rule emits_all_bind_err, rule emits_all_call)
    (auto split: list.split intro: emits_all_rules)

lemma secret_write_string_setting: "emits_all (secret_write cfg) (string_setting (recording c) nm what)"
  unfolding string_setting_def recording_simps
  by (rule emits_all_bind_err, rule emits_all_call)
    (auto split: option.split json.split intro: emits_all_rules)

lemma webhook_write_resources:
  "emits_all (webhook_write cfg) (createSecretPlanResources (recording c) (config_plan_secret_name cfg) cfg)"
proof -
  have "list_all (webhook_write cfg) (map2 EvCreate (take n (plan_resources (config_plan_secret_name cfg) cfg)) rs)" for n rs
    by (auto simp: list_all_iff webhook_objects_def dest!: set_zip_leftD set_take_subset [THEN subsetD])
  then show ?thesis
    unfolding createSecretPlanResources_def emits_all_def
    by (auto intro!: emits_weaken [OF emits_plan_resources])
qed

text \<open>The steps after the plan resources.\<close>

definition default_rest ::
  "'w client \<Rightarrow> 'w webhook_lib \<Rightarrow> rke2_config \<Rightarrow> ('w, rke2_config) go" where
  "default_rest c lib cfg =
     (let planSecretName = config_plan_secret_name cfg in
      bind_err (ensureServiceAccountSecretPopulated c lib planSecretName)
        (\<lambda>e. NewBadRequest (''failed to ensure service account secret is populated: '' @ error_string e)) (\<lambda>token.
      bind_go (string_setting c ''server-url'' ''server url'') (\<lambda>serverUrl.
      if serverUrl = [] then fail (NewBadRequest ''server url setting is empty'')
      else
        bind_go (string_setting c ''cacerts'' ''ca'') (\<lambda>pem.
        bind_err (createConnectInfoJson c lib cfg planSecretName serverUrl pem token)
          (\<lambda>e. NewBadRequest (''failed to create connect info json: '' @ error_string e)) (\<lambda>cfg1.
        bind_err (createSystemAgentInstallScript c serverUrl cfg1)
          (\<lambda>e. NewBadRequest (''failed to create system agent install script: '' @ error_string e)) (\<lambda>cfg2.
        bind_err (createConfigYAML cfg2)
          (\<lambda>e. NewBadRequest (''failed to create config.yaml: '' @ error_string e)) (\<lambda>cfg3.
        ret (addPostInstallCommands cfg3))))))))"

lemma default_config_rest:
  "default_config c lib cfg =
     bind_err (createSecretPlanResources c (config_plan_secret_name cfg) cfg)
        (\<lambda>e. NewBadRequest (''failed to create secret plan resources: '' @ error_string e))
        (\<lambda>_. default_rest c lib cfg)"
  unfolding default_config_def default_rest_def Let_def ..

lemma ensure_meta [simp]:
  "rc_meta (connect_info.ensure cfg) = rc_meta cfg" "rc_meta (install_script.ensure cfg) = rc_meta cfg"
  by (simp_all add: connect_info.ensure_def install_script.ensure_def)

lemma emits_all_yields_bind:
  assumes "emits_all P m" and "yields m Y" and "\<And>a. Y a \<Longrightarrow> emits_all P (k a)"
  shows "emits_all P (bind_err m h k)"
  unfolding emits_all_def
  by (rule emits_bind_err [OF emits_yields [OF assms(1) [unfolded emits_all_def] assms(2)]])
    (use assms(3) in \<open>auto simp: emits_all_def elim: emits_weaken\<close>)

lemma secret_write_rest:
  "emits_all (secret_write cfg) (default_rest (recording c) (retry_lib kw (apsnd pause) n) cfg)"
  unfolding default_rest_def Let_def ensureServiceAccountSecretPopulated_def retry_lib_simps
  apply (rule emits_all_bind_err [OF secret_write_token])
  apply (rule emits_all_bind_err [OF secret_write_string_setting])
  apply (rule emits_all_if, rule emits_all_fail)
  apply (rule emits_all_bind_err [OF secret_write_string_setting])
  apply (rule emits_all_yields_bind [OF secret_write_installing(1) connect_info.yields_ensure])
  apply (rule emits_all_bind_err [OF secret_write_installing(2)], simp)
  by (intro emits_all_rules secret_write_installing)

lemma webhook_write_rest:
  "emits_all (webhook_write cfg) (default_rest (recording c) (retry_lib kw (apsnd pause) n) cfg)"
  by (rule emits_all_mono [OF secret_write_rest secret_write_webhook])

lemma emits_default_config:
  "emits (default_config (recording c) (retry_lib kw (apsnd pause) n) cfg) (\<lambda>new out.
     list_all (webhook_write cfg) new \<and>
     (\<forall>cfg'. out = Return cfg' \<longrightarrow> (\<forall>x \<in> set (plan_resources (config_plan_secret_name cfg) cfg). present_after new x)))"
  unfolding default_config_rest
proof (rule emits_bind_err)
  show "emits (createSecretPlanResources (recording c) (config_plan_secret_name cfg) cfg) (\<lambda>new out.
      list_all (webhook_write cfg) new \<and> (out = Return () \<longrightarrow>
        (\<forall>x \<in> set (plan_resources (config_plan_secret_name cfg) cfg). present_after new x)))"
    using webhook_write_resources unfolding emits_all_def
    by (rule emits_conj) (auto simp: createSecretPlanResources_def intro!: emits_weaken [OF emits_plan_resources])
  show "emits (default_rest (recording c) (retry_lib kw (apsnd pause) n) cfg) (\<lambda>new2 out.
      list_all (webhook_write cfg) (new1 @ new2) \<and>
      (\<forall>cfg'. out = Return cfg' \<longrightarrow> (\<forall>x \<in> set (plan_resources (config_plan_secret_name cfg) cfg). present_after (new1 @ new2) x)))"
    if "list_all (webhook_write cfg) new1 \<and> (Return u = Return () \<longrightarrow>
        (\<forall>x \<in> set (plan_resources (config_plan_secret_name cfg) cfg). present_after new1 x))" for u new1
    using webhook_write_rest [of cfg c kw pause n] that unfolding emits_all_def
    by (elim emits_weaken) (auto intro: present_after_mono)
qed auto

section \<open>Refusals\<close>

text \<open>\<open>fails_with m E\<close>: \<open>m\<close> never panics, and its errors satisfy \<open>E\<close>.\<close>

definition fails_with :: "('w, 'a) go \<Rightarrow> (go_error \<Rightarrow> bool) \<Rightarrow> bool" where
  "fails_with m E \<longleftrightarrow> (\<forall>w out w'. m w = (out, w') \<longrightarrow>
     (case out of Return a \<Rightarrow> True | Error e \<Rightarrow> E e | Panicked p \<Rightarrow> False))"

abbreviation no_panic :: "('w, 'a) go \<Rightarrow> bool" where
  "no_panic m \<equiv> fails_with m (\<lambda>_. True)"

definition bad_request :: "go_error \<Rightarrow> bool" where
  "bad_request e \<longleftrightarrow> (case e of ApiError err \<Rightarrow> reason err = ReasonBadRequest | _ \<Rightarrow> False)"

lemma bad_request_NewBadRequest [simp]: "bad_request (NewBadRequest msg)"
  by (simp add: bad_request_def NewBadRequest_def)

lemma fails_with_ret: "fails_with (ret a) E"
  by (simp add: fails_with_def go_run)

lemma fails_with_fail: "E e \<Longrightarrow> fails_with (fail e) E"
  by (simp add: fails_with_def go_run)

lemma no_panic_basic: "no_panic (of_result r)" "no_panic (call op)" "no_panic (attempt op)"
  by (auto simp: fails_with_def of_result_def go_run call_def attempt_def split: sum.splits prod.splits)

lemma fails_with_bind_err:
  assumes m: "fails_with m E" and h: "\<And>e. E e \<Longrightarrow> F (h e)" and k: "\<And>a. fails_with (k a) F"
  shows "fails_with (bind_err m h k) F"
  unfolding fails_with_def
proof (intro allI impI)
  fix w out w'
  assume "bind_err m h k w = (out, w')"
  then show "case out of Return a \<Rightarrow> True | Error e \<Rightarrow> F e | Panicked p \<Rightarrow> False"
  proof (cases rule: bind_err_cases)
    case (Return a w1)
    from k [of a] show ?thesis using Return(2) unfolding fails_with_def by blast
  next
    case (Error e)
    from m have "E e" using Error(1) unfolding fails_with_def by fastforce
    with h Error show ?thesis by simp
  next
    case (Panicked p)
    from m show ?thesis using Panicked(1) unfolding fails_with_def by fastforce
  qed
qed

lemma fails_with_if: "fails_with m E \<Longrightarrow> fails_with n E \<Longrightarrow> fails_with (if b then m else n) E"
  by simp

lemma fails_with_for_range: "(\<And>x acc. fails_with (f x acc) E) \<Longrightarrow> fails_with (for_range f xs acc) E"
  by (induction xs arbitrary: acc) (auto intro: fails_with_ret fails_with_bind_err)

lemma fails_with_attempts: "fails_with m E \<Longrightarrow> fails_with (attempts pause n m) E"
proof (induction n)
  case (Suc n)
  then have 1: "fails_with (attempts pause n m) E" and 2: "fails_with m E" by blast+
  show ?case
    unfolding fails_with_def
  proof (intro allI impI)
    fix w out w'
    obtain o1 w1 where m: "m w = (o1, w1)" by (cases "m w")
    assume "attempts pause (Suc n) m w = (out, w')"
    moreover from 2 m have "case o1 of Return a \<Rightarrow> True | Error e \<Rightarrow> E e | Panicked p \<Rightarrow> False"
      unfolding fails_with_def by blast
    ultimately show "case out of Return a \<Rightarrow> True | Error e \<Rightarrow> E e | Panicked p \<Rightarrow> False"
      using m 1 unfolding fails_with_def by (cases o1) auto
  qed
qed simp

lemma no_panic_create_if_absent: "no_panic (create_if_absent c h x)"
  unfolding create_if_absent_def
  by (rule fails_with_bind_err [OF no_panic_basic(3)]) (auto split: sum.split intro: fails_with_ret fails_with_fail)

lemma no_panic_token: "no_panic (service_account_token c nm)"
  unfolding service_account_token_def
  by (rule fails_with_bind_err [OF no_panic_basic(2)]) (auto split: list.split intro: fails_with_ret fails_with_fail)

lemma bad_request_string_setting: "fails_with (string_setting c nm what) bad_request"
  unfolding string_setting_def
  by (rule fails_with_bind_err [OF no_panic_basic(2)])
    (auto split: option.split json.split intro: fails_with_ret fails_with_fail)

lemma no_panic_installing:
  "no_panic (createConnectInfoJson c lib cfg nm url pem token)"
  "no_panic (createSystemAgentInstallScript c url cfg)" "no_panic (createConfigYAML cfg)"
  unfolding createConnectInfoJson_def createSystemAgentInstallScript_def createConfigYAML_def
  by (intro fails_with_if fails_with_ret fails_with_bind_err [OF no_panic_basic(1)]
      fails_with_bind_err [OF no_panic_create_if_absent] TrueI)+

lemma bad_request_Default: "fails_with (Default c (retry_lib kw pause n) obj) bad_request"
proof (cases obj)
  case (RKE2ConfigObject cfg)
  show ?thesis
    unfolding RKE2ConfigObject Default.simps default_config_def Let_def createSecretPlanResources_def
      ensureServiceAccountSecretPopulated_def retry_lib_simps
    apply (rule fails_with_bind_err [OF fails_with_for_range [OF no_panic_create_if_absent]], simp)
    apply (rule fails_with_bind_err [OF fails_with_attempts [OF no_panic_token]], simp)
    apply (rule fails_with_bind_err [OF bad_request_string_setting], assumption)
    apply (rule fails_with_if, rule fails_with_fail, simp)
    apply (rule fails_with_bind_err [OF bad_request_string_setting], assumption)
    apply (rule fails_with_bind_err [OF no_panic_installing(1)], simp)
    apply (rule fails_with_bind_err [OF no_panic_installing(2)], simp)
    apply (rule fails_with_bind_err [OF no_panic_installing(3)], simp)
    by (rule fails_with_ret)
qed (simp add: fails_with_fail)

section \<open>Properties\<close>

text \<open>C12: However the API server answers, the webhook either refuses the object with a bad
  request, and never panics, or returns the configuration it was given with the agent
  installed in it; an object of another type is refused.\<close>

theorem webhook_outcome:
  "case fst (Default c (retry_lib kw pause n) obj w) of
     Return cfg' \<Rightarrow> (case obj of RKE2ConfigObject cfg \<Rightarrow> cfg' = installed cfg | OtherObject t \<Rightarrow> False)
   | Error e \<Rightarrow> bad_request e
   | Panicked p \<Rightarrow> False"
proof -
  obtain out w' where run: "Default c (retry_lib kw pause n) obj w = (out, w')" by fastforce
  have "case out of Return a \<Rightarrow> True | Error e \<Rightarrow> bad_request e | Panicked p \<Rightarrow> False"
    using bad_request_Default [of c kw pause n obj] run unfolding fails_with_def by blast
  moreover have "cfg' = installed cfg" if "obj = RKE2ConfigObject cfg" "out = Return cfg'" for cfg cfg'
    using that run yieldsD [OF yields_default_config] by fastforce
  ultimately show ?thesis
    using run by (cases obj) (auto split: outcome.splits simp: go_run)
qed

text \<open>C14: Admitting a configuration again changes nothing: what the webhook returns for a
  configuration it has returned before, by whatever server and library, is that
  configuration.\<close>

theorem webhook_idempotent:
  "yields (Default c lib (RKE2ConfigObject cfg)) (\<lambda>cfg'.
     yields (Default c2 lib2 (RKE2ConfigObject cfg')) (\<lambda>cfg''. cfg'' = cfg'))"
  unfolding Default.simps
  by (rule yields_weaken [OF yields_default_config], rule yields_weaken [OF yields_default_config])
    (simp add: installed_idem)

text \<open>C15: The webhook only appends: the files and commands of the user stay, first and in
  order; what it adds are at most the three files of the agent, each only where the user has
  no file at that path, and the one command; and they are all there in the end.\<close>

theorem webhook_appends:
  "yields (Default c lib (RKE2ConfigObject cfg)) (\<lambda>cfg'. \<exists>fs cs.
     rc_Files cfg' = rc_Files cfg @ fs \<and> rc_PostRKE2Commands cfg' = rc_PostRKE2Commands cfg @ cs \<and>
     rc_meta cfg' = rc_meta cfg \<and>
     list_all (\<lambda>f. \<not> has_file (cf_Path f) cfg) fs \<and> distinct (map cf_Path fs) \<and>
     set (map cf_Path fs) \<subseteq> {connectInfoJsonPath, systemAgentInstallScriptPath, configYAMLPath} \<and>
     set cs \<subseteq> {postInstallCommand} \<and>
     has_file connectInfoJsonPath cfg' \<and> has_file systemAgentInstallScriptPath cfg' \<and>
     has_file configYAMLPath cfg' \<and> postInstallCommand \<in> set (rc_PostRKE2Commands cfg'))"
  unfolding Default.simps
  by (rule yields_weaken [OF yields_default_config])
    (use installed_appends [of cfg, folded list_all_iff] installed_present [of cfg] in metis)

text \<open>The calls of a run of the webhook.\<close>

definition webhook_run ::
  "'w client \<Rightarrow> (kube_config \<Rightarrow> go_error + bytes) \<Rightarrow> ('w \<Rightarrow> 'w) \<Rightarrow> nat \<Rightarrow> rke2_config \<Rightarrow> 'w \<Rightarrow>
   rke2_config outcome \<times> event list" where
  "webhook_run c kw pause n cfg w =
     (case Default (recording c) (retry_lib kw (apsnd pause) n) (RKE2ConfigObject cfg) ([], w) of
        (out, (es, w')) \<Rightarrow> (out, es))"

text \<open>C13: The webhook writes nothing but new objects, and creates only the five plan
  resources of the configuration, its connect info and its install script; when it admits a configuration, each of the five resources was
  created or was there.\<close>

theorem webhook_creates:
  "list_all (webhook_write cfg) (snd (webhook_run c kw pause n cfg w)) \<and>
   (case fst (webhook_run c kw pause n cfg w) of
      Return cfg' \<Rightarrow> list_all (present_after (snd (webhook_run c kw pause n cfg w)))
        (plan_resources (config_plan_secret_name cfg) cfg)
    | _ \<Rightarrow> True)"
proof -
  obtain new w' out where
    "default_config (recording c) (retry_lib kw (apsnd pause) n) cfg ([], w) = (out, ([] @ new, w'))"
    "list_all (webhook_write cfg) new \<and>
     (\<forall>cfg'. out = Return cfg' \<longrightarrow> (\<forall>x \<in> set (plan_resources (config_plan_secret_name cfg) cfg). present_after new x))"
    using emits_default_config [of c kw pause n cfg] unfolding emits_def by meson
  then show ?thesis
    by (auto simp: webhook_run_def list_all_iff split: outcome.split)
qed

text \<open>
  What RBAC reads off objects: a subject may do something in a namespace when a binding
  there names it and refers to a role there one of whose rules covers it. In the verbs,
  groups and resources of a rule \<open>*\<close> covers everything; a rule without resource names covers
  every name.
\<close>

definition rule_covers :: "policy_rule \<Rightarrow> string \<Rightarrow> string \<Rightarrow> string \<Rightarrow> string \<Rightarrow> bool" where
  "rule_covers pr verb grp res nm \<longleftrightarrow>
     (let covers = (\<lambda>xs x. ''*'' \<in> set xs \<or> x \<in> set xs)
      in covers (pr_Verbs pr) verb \<and> covers (pr_APIGroups pr) grp \<and> covers (pr_Resources pr) res \<and>
         (pr_ResourceNames pr = [] \<or> nm \<in> set (pr_ResourceNames pr)))"

definition refers_to :: "role_binding \<Rightarrow> role \<Rightarrow> bool" where
  "refers_to b ro \<longleftrightarrow> rr_APIGroup (rb_RoleRef b) = ''rbac.authorization.k8s.io'' \<and> rr_Kind (rb_RoleRef b) = ''Role'' \<and>
     rr_Name (rb_RoleRef b) = om_Name (ro_meta ro) \<and> om_Namespace (rb_meta b) = om_Namespace (ro_meta ro)"

definition rights :: "api_object set \<Rightarrow> (subject \<times> string \<times> string \<times> string \<times> string \<times> string) set" where
  "rights xs = {(su, ns, verb, grp, res, nm). \<exists>b ro pr. ORoleBinding b \<in> xs \<and> ORole ro \<in> xs \<and> refers_to b ro \<and>
     su \<in> set (rb_Subjects b) \<and> ns = om_Namespace (ro_meta ro) \<and> pr \<in> set (ro_Rules ro) \<and> rule_covers pr verb grp res nm}"

text \<open>
  What the system agent needs: to read and update the plan secret of its configuration, as
  the service account made for it.
\<close>

definition agent_rights :: "rke2_config \<Rightarrow> (subject \<times> string \<times> string \<times> string \<times> string \<times> string) set" where
  "agent_rights cfg =
     (let nm = config_plan_secret_name cfg; ns = rc_Namespace cfg
      in (\<lambda>verb. (\<lparr>su_Kind = ''ServiceAccount'', su_Name = nm, su_Namespace = ns\<rparr>, ns, verb, [], ''secrets'', nm)) `
         {''watch'', ''get'', ''update'', ''list''})"

fun requested :: "event \<Rightarrow> api_object list" where
  "requested (EvCreate x res) = [x]"
| "requested _ = []"

definition all_requested :: "event list \<Rightarrow> api_object list" where
  "all_requested es = concat (map requested es)"

text \<open>A binding is created after the role it refers to and the accounts it names.\<close>

fun bound_after :: "event list \<Rightarrow> event \<Rightarrow> bool" where
  "bound_after es (EvCreate (ORoleBinding b) res) \<longleftrightarrow>
     list_ex (\<lambda>x. case x of ORole ro \<Rightarrow> refers_to b ro | _ \<Rightarrow> False) (all_requested es) \<and>
     list_all (\<lambda>su. list_ex (\<lambda>x. case x of OServiceAccount sa \<Rightarrow>
         su = \<lparr>su_Kind = ''ServiceAccount'', su_Name = om_Name (sa_meta sa), su_Namespace = om_Namespace (sa_meta sa)\<rparr>
       | _ \<Rightarrow> False) (all_requested es)) (rb_Subjects b)"
| "bound_after es e \<longleftrightarrow> True"

lemma all_requested_simps [simp]:
  "all_requested [] = []" "all_requested (e # es) = requested e @ all_requested es"
  "all_requested (es @ fs) = all_requested es @ all_requested fs"
  by (simp_all add: all_requested_def)

lemma webhook_requested: "list_all (webhook_write cfg) es \<Longrightarrow> set (all_requested es) \<subseteq> webhook_objects cfg"
proof (induction es)
  case (Cons e es)
  then show ?case by (cases e) auto
qed simp

lemma requested_create: "EvCreate x r \<in> set es \<Longrightarrow> x \<in> set (all_requested es)"
  by (induction es) auto

lemma present_requested: "present_after es x \<Longrightarrow> x \<in> set (all_requested es)"
  unfolding present_after_def by (blast intro: requested_create)

lemmas plan_object_defs = plan_resources_def plan_service_account_def plan_secret_def plan_role_def
  plan_role_binding_def plan_token_secret_def Let_def

lemma rights_mono: "xs \<subseteq> ys \<Longrightarrow> rights xs \<subseteq> rights ys"
  unfolding rights_def by blast

lemma plan_roles:
  "ORole ro \<in> set (plan_resources nm cfg) \<longleftrightarrow> ro = plan_role nm cfg"
  "ORoleBinding b \<in> set (plan_resources nm cfg) \<longleftrightarrow> b = plan_role_binding nm cfg"
  "ORole ro \<notin> config_secrets cfg" "ORoleBinding b \<notin> config_secrets cfg"
  by (auto simp: plan_resources_def Let_def config_secrets_def)

lemma rights_plan_resources: "rights (set (plan_resources (config_plan_secret_name cfg) cfg)) = agent_rights cfg"
proof -
  let ?nm = "config_plan_secret_name cfg"
  have covers: "(\<exists>pr \<in> set (ro_Rules (plan_role ?nm cfg)). rule_covers pr verb grp res x) \<longleftrightarrow>
      verb \<in> {''watch'', ''get'', ''update'', ''list''} \<and> grp = [] \<and> res = ''secrets'' \<and> x = ?nm" for verb grp res x
    by (simp add: plan_role_def rule_covers_def)
  have "refers_to (plan_role_binding ?nm cfg) (plan_role ?nm cfg)"
    "rb_Subjects (plan_role_binding ?nm cfg) =
       [\<lparr>su_Kind = ''ServiceAccount'', su_Name = ?nm, su_Namespace = rc_Namespace cfg\<rparr>]"
    "om_Namespace (ro_meta (plan_role ?nm cfg)) = rc_Namespace cfg"
    by (simp_all add: refers_to_def plan_role_binding_def plan_role_def plan_service_account_def)
  then show ?thesis
    unfolding rights_def agent_rights_def plan_roles Let_def using covers by (auto simp: Bex_def image_iff)
qed

lemma rights_webhook_objects: "rights (webhook_objects cfg) = agent_rights cfg"
  unfolding rights_plan_resources [symmetric] by (simp add: rights_def webhook_objects_def plan_roles)

lemma webhook_objects_namespace:
  "x \<in> webhook_objects cfg \<Longrightarrow> om_Namespace (object_meta_of x) = rc_Namespace cfg"
  by (auto simp: webhook_objects_def config_secrets_def plan_object_defs new_secret_def)

lemma bound_after_secret_write: "secret_write cfg e \<Longrightarrow> bound_after es e"
  by (cases e) (auto simp: config_secrets_def)

lemma bound_after_resources:
  "each_call bound_after [] (map2 EvCreate (take n (plan_resources nm cfg)) rs)"
  by (simp add: plan_resources_def take_Cons' zip_Cons1 split: list.split)
    (simp add: plan_object_defs refers_to_def)

lemma emits_default_bound:
  "emits (default_config (recording c) (retry_lib kw (apsnd pause) n) cfg) (\<lambda>new out. each_call bound_after [] new)"
  unfolding default_config_rest createSecretPlanResources_def
  apply (rule emits_bind_err [OF emits_plan_resources])
  subgoal for u new1
    using secret_write_rest [of cfg c kw pause n] unfolding emits_all_def
    by (elim emits_weaken conjE exE)
      (auto simp: bound_after_resources intro: each_call_all bound_after_secret_write)
  by (auto simp: bound_after_resources)

text \<open>C27: Whatever the API server answers, everything the webhook asks for is in the namespace
  of the configuration, and the roles and bindings among it give no right beyond reading
  and updating the plan secret of the configuration, to the service account made for it: a
  binding is asked for only after the role and the account it names. When the
  configuration is admitted, the account was given all of these rights.\<close>

theorem webhook_least_privilege:
  "let (out, es) = webhook_run c kw pause n cfg w in
     list_all (\<lambda>x. om_Namespace (object_meta_of x) = rc_Namespace cfg) (all_requested es) \<and>
     each_call bound_after [] es \<and>
     rights (set (all_requested es)) \<subseteq> agent_rights cfg \<and>
     (case out of Return cfg' \<Rightarrow> rights (set (all_requested es)) = agent_rights cfg | _ \<Rightarrow> True)"
proof -
  obtain new w' out where run:
    "default_config (recording c) (retry_lib kw (apsnd pause) n) cfg ([], w) = (out, ([] @ new, w'))"
    and writes: "list_all (webhook_write cfg) new"
    and present: "out = Return cfg' \<longrightarrow> (\<forall>x \<in> set (plan_resources (config_plan_secret_name cfg) cfg). present_after new x)"
    and bound: "each_call bound_after [] new" for cfg'
    using emits_conj [OF emits_default_config emits_default_bound, of c kw pause n cfg] unfolding emits_def by meson
  note objects = webhook_requested [OF writes]
  have "rights (set (all_requested new)) \<subseteq> agent_rights cfg"
    using rights_mono [OF objects] by (simp add: rights_webhook_objects)
  moreover have "agent_rights cfg \<subseteq> rights (set (all_requested new))" if "out = Return cfg'" for cfg'
    using present [of cfg'] that present_requested
    by (intro order_trans [OF eq_refl [OF rights_plan_resources [symmetric]] rights_mono]) auto
  ultimately show ?thesis
    using objects webhook_objects_namespace bound run
    by (auto simp: webhook_run_def list_all_iff split: outcome.split)
qed

section \<open>Where the credentials come from\<close>

text \<open>
  What the calls have read: a setting with a string value, and the token of the one service
  account secret that carries the label of the plan secret.
\<close>

definition setting_read :: "event list \<Rightarrow> string \<Rightarrow> string \<Rightarrow> bool" where
  "setting_read es nm v \<longleftrightarrow> (\<exists>u. EvGetUnstructured setting_gvk (key [] nm) (Inr u) \<in> set es \<and>
     map_of (un_Object u) ''value'' = Some (JString v))"

definition token_read :: "event list \<Rightarrow> string \<Rightarrow> bytes \<Rightarrow> bool" where
  "token_read es planSecretName token \<longleftrightarrow> (\<exists>sa.
     EvListSecret [MatchingLabels [(serviceAccountSecretLabel, planSecretName)]] (Inr [sa]) \<in> set es \<and>
     token = secret_data sa ''token'' \<and> token \<noteq> [])"

text \<open>
  A secret that is created with data is the install script of the server that was read, or
  the connect info with the kubeconfig made of the server, the certificate and the token
  that were read.
\<close>

fun credentials ::
  "(kube_config \<Rightarrow> go_error + bytes) \<Rightarrow> rke2_config \<Rightarrow> event list \<Rightarrow> event \<Rightarrow> bool" where
  "credentials kw cfg es (EvCreate (OSecret s) res) \<longleftrightarrow> (case sec_Data s of
     None \<Rightarrow> True
   | Some d \<Rightarrow> \<exists>url. setting_read es ''server-url'' url \<and> url \<noteq> [] \<and>
       (d = [(''install.sh'', ''CATTLE_SERVER='' @ url @ [newline] @ installsh)] \<or>
        (\<exists>pem token kubeConfig. setting_read es ''cacerts'' pem \<and>
           token_read es (config_plan_secret_name cfg) token \<and>
           kw (agent_kubeconfig url pem token) = Inr kubeConfig \<and>
           d = [(''connect-info-config.json'',
             connect_info_json (rc_Namespace cfg) (config_plan_secret_name cfg) kubeConfig)])))"
| "credentials kw cfg es e \<longleftrightarrow> True"

lemma setting_read_mono: "setting_read es nm v \<Longrightarrow> set es \<subseteq> set es' \<Longrightarrow> setting_read es' nm v"
  unfolding setting_read_def by blast

lemma token_read_mono: "token_read es nm v \<Longrightarrow> set es \<subseteq> set es' \<Longrightarrow> token_read es' nm v"
  unfolding token_read_def by blast

lemma credentials_read: "list_all (\<lambda>e. \<not> is_write e) es \<Longrightarrow> each_call (credentials kw cfg) pre es"
proof (rule each_call_all)
  show "credentials kw cfg es e" if "\<not> is_write e" for es e
    using that by (cases e) simp_all
qed

lemma emits_attempts_Return:
  assumes m: "emits m (\<lambda>new out. list_all P new \<and> (\<forall>a. out = Return a \<longrightarrow> R new a))"
    and mono: "\<And>es es' a. R es a \<Longrightarrow> set es \<subseteq> set es' \<Longrightarrow> R es' a"
  shows "emits (attempts (apsnd pause) n m) (\<lambda>new out. list_all P new \<and> (\<forall>a. out = Return a \<longrightarrow> R new a))"
proof (induction n)
  case (Suc n)
  show ?case
    unfolding emits_def
  proof (intro allI)
    fix es w
    from m obtain new w' out where run: "m (es, w) = (out, (es @ new, w'))" "list_all P new" "\<forall>a. out = Return a \<longrightarrow> R new a"
      unfolding emits_def by blast
    show "\<exists>new w' out. attempts (apsnd pause) (Suc n) m (es, w) = (out, (es @ new, w')) \<and> list_all P new \<and>
        (\<forall>a. out = Return a \<longrightarrow> R new a)"
    proof (cases out)
      case (Error e)
      from Suc obtain new2 w2 out2 where
        "attempts (apsnd pause) n m (es @ new, pause w') = (out2, ((es @ new) @ new2, w2))" "list_all P new2"
        "\<forall>a. out2 = Return a \<longrightarrow> R new2 a"
        unfolding emits_def by blast
      with run Error show ?thesis by (intro exI [of _ "new @ new2"]) (auto intro: mono)
    qed (use run in auto)
  qed
qed (simp add: m)

lemma emits_token:
  "emits (attempts (apsnd pause) n (service_account_token (recording c) nm)) (\<lambda>new out.
     list_all (\<lambda>e. \<not> is_write e) new \<and> (\<forall>token. out = Return token \<longrightarrow> token_read new nm token))"
proof (rule emits_attempts_Return)
  show "emits (service_account_token (recording c) nm) (\<lambda>new out.
      list_all (\<lambda>e. \<not> is_write e) new \<and> (\<forall>token. out = Return token \<longrightarrow> token_read new nm token))"
    unfolding service_account_token_def recording_simps
    by (rule emits_bind_err [OF emits_read])
      (auto split: list.split intro!: emits_ret emits_fail simp: token_read_def)
qed (rule token_read_mono)

lemma emits_string_setting:
  "emits (string_setting (recording c) nm what) (\<lambda>new out.
     list_all (\<lambda>e. \<not> is_write e) new \<and> (\<forall>v. out = Return v \<longrightarrow> setting_read new nm v))"
  unfolding string_setting_def recording_simps
  by (rule emits_bind_err [OF emits_read])
    (auto split: option.split json.split intro!: emits_ret emits_fail simp: setting_read_def)

lemma emits_create_credentials:
  assumes "credentials kw cfg pre (EvCreate x undefined)"
  shows "emits (create_if_absent (recording c) h x) (\<lambda>new out. each_call (credentials kw cfg) pre new)"
proof -
  have "credentials kw cfg pre (EvCreate x r)" for r
    using assms by (cases x) simp_all
  then show ?thesis by (auto intro!: emits_weaken [OF emits_create_if_absent])
qed

lemma emits_rest_credentials:
  "emits (default_rest (recording c) (retry_lib kw (apsnd pause) n) cfg) (\<lambda>new out. each_call (credentials kw cfg) pre new)"
  unfolding default_rest_def Let_def ensureServiceAccountSecretPopulated_def retry_lib_simps
  apply (rule emits_bind_err [OF emits_token])
  subgoal for token new1
    apply (rule emits_bind_err [OF emits_string_setting])
    subgoal for url new2
      apply (rule emits_if)
      subgoal by (rule emits_fail) (simp add: credentials_read)
      apply (rule emits_bind_err [OF emits_string_setting])
      subgoal premises prems for pem new3
      proof -
        let ?pre = "pre @ new1 @ new2 @ new3"
        have reads: "each_call (credentials kw cfg) pre (new1 @ new2 @ new3)"
          using prems by (simp add: credentials_read)
        have read: "setting_read (?pre @ es) ''server-url'' url" "setting_read (?pre @ es) ''cacerts'' pem"
          "token_read (?pre @ es) (config_plan_secret_name cfg) token" for es
          using prems by (auto intro: setting_read_mono [of new2] setting_read_mono [of new3] token_read_mono [of new1])
        have info: "emits (createConnectInfoJson (recording c) (retry_lib kw (apsnd pause) n) cfg
            (config_plan_secret_name cfg) url pem token) (\<lambda>new out. each_call (credentials kw cfg) ?pre new)"
          unfolding createConnectInfoJson_def retry_lib_simps
          apply (rule emits_if)
          subgoal by (rule emits_ret) simp
          apply (rule emits_bind_err [OF emits_of_result [where Q = "\<lambda>new out. new = [] \<and>
              (\<forall>k. out = Return k \<longrightarrow> kw (agent_kubeconfig url pem token) = Inr k)"]])
          subgoal by simp
          subgoal by simp
          subgoal for kubeConfig new
            apply (rule emits_bind_err [OF emits_create_credentials [where pre = ?pre and kw = kw and cfg = cfg]])
            subgoal using read [of "[]"] prems by (auto simp: new_secret_def)
            subgoal by (rule emits_ret) simp
            by simp_all
          by simp_all
        have script: "emits (createSystemAgentInstallScript (recording c) url cfg1)
            (\<lambda>new out. each_call (credentials kw cfg) (?pre @ es) new)" for cfg1 es
          unfolding createSystemAgentInstallScript_def
          apply (rule emits_if)
          subgoal by (rule emits_ret) simp
          apply (rule emits_bind_err [OF emits_create_credentials [where pre = "?pre @ es" and kw = kw and cfg = cfg]])
          subgoal using read [of es] prems by (auto simp: new_secret_def)
          subgoal by (rule emits_ret) simp
          by simp_all
        have yaml: "emits (createConfigYAML cfg2) (\<lambda>new out. new = [])" for cfg2
          unfolding createConfigYAML_def by (intro emits_if emits_ret) simp_all
        show ?thesis
          apply (rule emits_bind_err [OF info])
          subgoal for cfg1 new4
            apply (rule emits_bind_err [OF script [where es = new4]])
            subgoal for cfg2 new5
              by (rule emits_bind_err [OF yaml]) (use reads in \<open>auto intro!: emits_ret\<close>)
            using reads by simp_all
          using reads by simp_all
      qed
      by (simp_all add: credentials_read)
    by (simp_all add: credentials_read)
  by (simp_all add: credentials_read)

lemma credentials_resources: "each_call (credentials kw cfg) pre (map2 EvCreate (take n (plan_resources nm cfg)) rs)"
proof (rule each_call_all)
  show "list_all (\<lambda>e. \<exists>x r. e = EvCreate x r \<and> x \<in> set (plan_resources nm cfg)) (map2 EvCreate (take n (plan_resources nm cfg)) rs)"
    by (auto simp: list_all_iff dest!: set_zip_leftD set_take_subset [THEN subsetD])
  show "credentials kw cfg es e" if "\<exists>x r. e = EvCreate x r \<and> x \<in> set (plan_resources nm cfg)" for es e
    using that by (auto simp: plan_resources_def Let_def plan_secret_def plan_token_secret_def)
qed

lemma emits_default_credentials:
  "emits (default_config (recording c) (retry_lib kw (apsnd pause) n) cfg) (\<lambda>new out. each_call (credentials kw cfg) [] new)"
  unfolding default_config_rest createSecretPlanResources_def
  apply (rule emits_bind_err [OF emits_plan_resources])
  subgoal for u new1
    by (rule emits_weaken [OF emits_rest_credentials [where pre = new1]]) (auto simp: credentials_resources)
  by (auto simp: credentials_resources)

text \<open>C50: Every secret the webhook creates with data holds what was read for this
  configuration: the install script names the server of the \<open>server-url\<close> setting; the connect
  info names the plan secret of the configuration and holds the kubeconfig made of that
  server, the certificate of the \<open>cacerts\<close> setting and the token of the one service account
  secret that carries the label of the plan secret. None is made of an empty server or an
  empty token.\<close>

theorem webhook_credentials:
  "each_call (credentials kw cfg) [] (snd (webhook_run c kw pause n cfg w))"
proof -
  obtain new w' out where
    "default_config (recording c) (retry_lib kw (apsnd pause) n) cfg ([], w) = (out, ([] @ new, w'))"
    "each_call (credentials kw cfg) [] new"
    using emits_default_credentials [where c = c and kw = kw and pause = pause and n = n and cfg = cfg] unfolding emits_def by meson
  then show ?thesis by (simp add: webhook_run_def)
qed

section \<open>Reading the connect info\<close>

text \<open>Reading the indented text of the connect info.\<close>

lemma skip_ws_append: "list_all is_ws ws \<Longrightarrow> skip_ws (ws @ s) = skip_ws s"
  by (induction ws) (simp_all add: skip_ws_def)

lemma parse_spaced_member:
  assumes "valid_utf8 k" "valid_utf8 v" "list_all is_ws ws"
  shows "parse_members (Suc (Suc n)) (ws @ json_quote k @ CHR '':'' # CHR '' '' # json_quote v @ rest) =
    (case skip_ws rest of
       [] \<Rightarrow> None
     | d # r \<Rightarrow>
         if d = CHR '','' then map_option (\<lambda>(kvs, r). ((k, JString v) # kvs, r)) (parse_members (Suc n) r)
         else if d = CHR ''}'' then Some ([(k, JString v)], r)
         else None)"
proof -
  have key: "skip_ws (ws @ json_quote k @ CHR '':'' # CHR '' '' # json_quote v @ rest)
      = quot # json_escape k @ quot # CHR '':'' # CHR '' '' # json_quote v @ rest"
    by (simp add: skip_ws_append assms(3) json_quote_append)
  have str: "parse_value (Suc n) (CHR '' '' # json_quote v @ rest) = Some (JString v, rest)"
    using assms(2) skip_ws_append [of "'' ''" "json_quote v @ rest"]
    by (simp add: is_ws_def json_quote_append unquote_escape valid_utf8_def)
  show ?thesis
    unfolding parse_members.simps(2) key
    using assms(1) by (simp add: unquote_escape valid_utf8_def str del: parse_value.simps)
qed

text \<open>C24: What the agent reads as its connect info is the namespace of the configuration, the
  name of its plan secret and the kubeconfig, as they were written, whatever UTF-8 text they
  are.\<close>

theorem connect_info_decodes:
  assumes "valid_utf8 ns" "valid_utf8 secretName" "valid_utf8 kubeConfig"
  shows "json_parse (connect_info_json ns secretName kubeConfig) = Some (JObject
    [(''namespace'', JString ns), (''secretName'', JString secretName), (''kubeConfig'', JString kubeConfig)])"
proof -
  define s where "s = connect_info_json ns secretName kubeConfig"
  define s3 where "s3 = newline # '' '' @ json_quote ''kubeConfig'' @ CHR '':'' # CHR '' '' # json_quote kubeConfig @ [newline, CHR ''}'']"
  define s2 where "s2 = newline # '' '' @ json_quote ''secretName'' @ CHR '':'' # CHR '' '' # json_quote secretName @ CHR '','' # s3"
  have s: "s = CHR ''{'' # (newline # '' '') @ json_quote ''namespace'' @ CHR '':'' # CHR '' '' # json_quote ns @ CHR '','' # s2"
    by (simp add: s_def s2_def s3_def connect_info_json_def)
  have "4 \<le> length s"
    unfolding s by simp
  then obtain n where n: "length s = Suc (Suc (Suc (Suc n)))"
    by (auto simp: le_iff_add numeral_eq_Suc)
  have ws: "list_all is_ws (newline # '' '')" and ascii: "valid_utf8 ''namespace''" "valid_utf8 ''secretName''" "valid_utf8 ''kubeConfig''"
    by (simp_all add: is_ws_def valid_utf8_ascii)
  note member = parse_spaced_member [OF _ _ ws]
  have 3: "parse_members (Suc (Suc n)) s3 = Some ([(''kubeConfig'', JString kubeConfig)], [])"
    using member [OF ascii(3) assms(3), of n "[newline, CHR ''}'']"] by (simp add: s3_def skip_ws_def is_ws_def del: parse_members.simps)
  have 2: "parse_members (Suc (Suc (Suc n))) s2 =
      Some ([(''secretName'', JString secretName), (''kubeConfig'', JString kubeConfig)], [])"
    using member [OF ascii(2) assms(2), of "Suc n" "CHR '','' # s3"] 3 by (simp add: s2_def skip_ws_def is_ws_def del: parse_members.simps)
  have 1: "parse_members (Suc (Suc (Suc (Suc n)))) (tl s) = Some ([(''namespace'', JString ns),
      (''secretName'', JString secretName), (''kubeConfig'', JString kubeConfig)], [])"
    using member [OF ascii(1) assms(1), of "Suc (Suc n)" "CHR '','' # s2"] 2 by (simp add: s skip_ws_def is_ws_def del: parse_members.simps)
  obtain cs where tl_s: "skip_ws (tl s) = quot # cs" "tl s = newline # CHR '' '' # quot # cs"
    by (simp add: s json_quote_append skip_ws_def is_ws_def)
  have skip: "parse_members (Suc (Suc (Suc (Suc n)))) (quot # cs) = parse_members (Suc (Suc (Suc (Suc n)))) (tl s)"
    unfolding parse_members.simps(2) tl_s(1) by (simp add: skip_ws_def is_ws_def)
  have "parse_value (Suc (length s)) s = Some (JObject [(''namespace'', JString ns),
      (''secretName'', JString secretName), (''kubeConfig'', JString kubeConfig)], [])"
    unfolding n
    using s tl_s skip 1 by (simp only: parse_value.simps(2)) (simp add: skip_ws_def is_ws_def del: parse_members.simps parse_value.simps)
  then show ?thesis
    unfolding s_def [symmetric] json_parse_def by (simp only: option.case prod.case skip_ws_Nil if_True simp_thms)
qed

theorem connect_info_decodes_witness:
  "json_parse (connect_info_json ''default'' ''cp-rke2config-plan'' ''apiVersion: v1'') = Some (JObject
    [(''namespace'', JString ''default''), (''secretName'', JString ''cp-rke2config-plan''),
     (''kubeConfig'', JString ''apiVersion: v1'')])"
  by (rule connect_info_decodes) (simp_all add: valid_utf8_ascii)

end
