(* ===== verification/Plan_Secrets.thy ===== *)
theory Plan_Secrets
  imports RKE2_Webhook Demo_Cluster
begin

text \<open>
  The plan secret of a configuration on a server that keeps what it is given: the webhook
  leaves it there, under the name by which the restore controller looks for it.
\<close>

section \<open>Computations that keep a state property\<close>

definition keeps :: "('w \<Rightarrow> bool) \<Rightarrow> ('w, 'a) go \<Rightarrow> bool" where
  "keeps I m \<longleftrightarrow> (\<forall>w. I w \<longrightarrow> I (snd (m w)))"

named_theorems keeps "rules that a computation keeps a state property"

lemma keeps_basic [keeps]:
  "keeps I (ret a)" "keeps I (fail e)" "keeps I (panicking p)" "keeps I (of_result r)" "keeps I (deref s x)"
  by (simp_all add: keeps_def ret_run fail_run panicking_run of_result_def deref_def split: sum.split option.split)

lemma keeps_call [keeps]:
  "(\<And>w. I w \<Longrightarrow> I (snd (op w))) \<Longrightarrow> keeps I (call op)"
  "(\<And>w. I w \<Longrightarrow> I (snd (op w))) \<Longrightarrow> keeps I (attempt op)"
proof -
  have "snd (call op w) = snd (op w)" "snd (attempt op w) = snd (op w)" for w
    by (simp_all add: call_def attempt_def split: prod.split sum.split)
  then show "(\<And>w. I w \<Longrightarrow> I (snd (op w))) \<Longrightarrow> keeps I (call op)"
    "(\<And>w. I w \<Longrightarrow> I (snd (op w))) \<Longrightarrow> keeps I (attempt op)"
    by (simp_all add: keeps_def)
qed

lemma keeps_bind_err [keeps]: "keeps I m \<Longrightarrow> (\<And>a. keeps I (k a)) \<Longrightarrow> keeps I (bind_err m h k)"
  by (fastforce simp: keeps_def bind_err_def split: prod.split outcome.split)

lemma keeps_if [keeps]: "keeps I m \<Longrightarrow> keeps I n \<Longrightarrow> keeps I (if b then m else n)"
  by simp

lemma keeps_for_range [keeps]: "(\<And>x acc. keeps I (f x acc)) \<Longrightarrow> keeps I (for_range f xs acc)"
  by (induction xs arbitrary: acc) (auto intro!: keeps)

lemma keeps_attempts [keeps]:
  "keeps I m \<Longrightarrow> (\<And>w. I w \<Longrightarrow> I (pause w)) \<Longrightarrow> keeps I (attempts pause n m)"
proof (induction n)
  case (Suc n)
  then show ?case by (fastforce simp: keeps_def split: prod.split outcome.split)
qed simp

section \<open>The laws\<close>

text \<open>
  A secret is there once its creation succeeded or found it; nothing the webhook calls takes
  a secret away.
\<close>

definition secret_at :: "object_key \<Rightarrow> store \<Rightarrow> bool" where
  "secret_at k w \<longleftrightarrow> map_of (st_secrets w) k \<noteq> None"

locale create_api =
  fixes c :: "store client"
  assumes create_secret: "case create c (OSecret s) w of
      (Inr u, w') \<Rightarrow> secret_at (key_of (sec_meta s)) w'
    | (Inl e, w') \<Rightarrow> IsAlreadyExists e \<longrightarrow> secret_at (key_of (sec_meta s)) w'"
    and create_keeps: "secret_at k w \<Longrightarrow> secret_at k (snd (create c x w))"
    and list_keeps: "secret_at k w \<Longrightarrow> secret_at k (snd (list_Secret c os w))"
    and get_keeps: "secret_at k w \<Longrightarrow> secret_at k (snd (get_Unstructured c g l w))"
begin

lemma keeps_create [keeps]: "keeps (secret_at k) (create_if_absent c h x)"
  by (auto simp: create_if_absent_def intro!: keeps create_keeps split: sum.split)

lemma keeps_token [keeps]: "keeps (secret_at k) (service_account_token c nm)"
  by (auto simp: service_account_token_def intro!: keeps list_keeps split: list.split)

lemma keeps_setting [keeps]: "keeps (secret_at k) (string_setting c nm what)"
  by (auto simp: string_setting_def intro!: keeps get_keeps split: option.split json.split)

lemma create_if_absent_there:
  "create_if_absent c h (OSecret s) w = (Return u, w') \<Longrightarrow> secret_at (key_of (sec_meta s)) w'"
  using create_secret [of s w]
  by (auto simp: create_if_absent_def attempt_def bind_err_def ret_run fail_run split: prod.splits sum.splits if_splits)

text \<open>After the five creations the plan secret is there.\<close>

lemma plan_secret_created:
  assumes "createSecretPlanResources c nm cfg w = (Return u, w')"
  shows "secret_at (key (rc_Namespace cfg) nm) w'"
proof -
  let ?create = "create_if_absent c (Wrapf (''failed to create '' @ gvk_String empty_gvk @ '': ''))"
  have keep: "secret_at k w2" if "?create x w1 = (Return u, w2)" "secret_at k w1" for k x w1 w2 u
    using keeps_create that unfolding keeps_def by (metis snd_conv)
  from assms obtain w1 w2 w3 w4 where there: "?create (OSecret (plan_secret nm cfg)) w1 = (Return (), w2)"
    and rest: "?create (ORole (plan_role nm cfg)) w2 = (Return (), w3)"
      "?create (ORoleBinding (plan_role_binding nm cfg)) w3 = (Return (), w4)"
      "?create (OSecret (plan_token_secret nm cfg)) w4 = (Return (), w')"
    unfolding createSecretPlanResources_def plan_resources_def for_range.simps
    by (elim bind_err_ReturnE) (auto simp: ret_run)
  from create_if_absent_there [OF there] have "secret_at (key (rc_Namespace cfg) nm) w2"
    by (simp add: plan_secret_def meta_for_def)
  then show ?thesis by (intro keep [OF rest(3)] keep [OF rest(2)] keep [OF rest(1)])
qed

lemma plan_secret_installed:
  assumes run: "Default c (retry_lib kw pause n) (RKE2ConfigObject cfg) w = (Return cfg', w')"
    and pause: "\<And>k w. secret_at k w \<Longrightarrow> secret_at k (pause w)"
  shows "secret_at (key (rc_Namespace cfg) (config_plan_secret_name cfg)) w'"
proof -
  let ?k = "key (rc_Namespace cfg) (config_plan_secret_name cfg)"
  have rest: "keeps (secret_at ?k) (default_rest c (retry_lib kw pause n) cfg)"
    by (auto simp: default_rest_def ensureServiceAccountSecretPopulated_def createConnectInfoJson_def
        createSystemAgentInstallScript_def createConfigYAML_def Let_def
        intro!: keeps keeps_create keeps_token keeps_setting pause)
  from run obtain w1 where "createSecretPlanResources c (config_plan_secret_name cfg) cfg w = (Return (), w1)"
    "default_rest c (retry_lib kw pause n) cfg w1 = (Return cfg', w')"
    by (auto simp: default_config_rest elim!: bind_err_ReturnE)
  with plan_secret_created rest show ?thesis unfolding keeps_def by (metis snd_conv)
qed

end

interpretation create_server: create_api server
proof unfold_locales
  show "secret_at k (snd (create server x w))" if "secret_at k w" for k w x
    using that by (cases x) (auto simp: secret_at_def server_def create_item_def)
qed (auto simp: secret_at_def server_def create_item_def map_add_def)

end
