(* ===== verification/Webhook_Clash.thy ===== *)
theory Webhook_Clash
  imports Plan_Secrets
begin

text \<open>
  Two configurations of one name in two namespaces. The webhook derives the label of the token
  secret from the name of the configuration alone and lists the secrets of all namespaces with
  it, so each configuration gets in the way of the other.
\<close>

section \<open>Token secrets on a server\<close>

definition token_key :: "rke2_config \<Rightarrow> object_key" where
  "token_key cfg = key (rc_Namespace cfg) (config_plan_secret_name cfg @ ''-token'')"

definition token_labels :: "rke2_config \<Rightarrow> string go_map" where
  "token_labels cfg = [(serviceAccountSecretLabel, config_plan_secret_name cfg)]"

text \<open>The token secret of a configuration is there, whatever its content.\<close>

definition token_there :: "rke2_config \<Rightarrow> store \<Rightarrow> bool" where
  "token_there cfg w \<longleftrightarrow> (case map_of (st_secrets w) (token_key cfg) of
     None \<Rightarrow> False | Some s \<Rightarrow> om_Labels (sec_meta s) = token_labels cfg)"

text \<open>No other secret has its name.\<close>

definition token_free :: "rke2_config \<Rightarrow> store \<Rightarrow> bool" where
  "token_free cfg w \<longleftrightarrow> map_of (st_secrets w) (token_key cfg) = None \<or> token_there cfg w"

text \<open>
  A server that stores the secrets it is given with their labels and lists what it stores,
  and whose other calls leave the labels alone.
\<close>

definition labels_kept :: "store \<Rightarrow> store \<Rightarrow> bool" where
  "labels_kept w w' \<longleftrightarrow> (\<forall>k s. map_of (st_secrets w) k = Some s \<longrightarrow>
     (\<exists>s'. map_of (st_secrets w') k = Some s' \<and> om_Labels (sec_meta s') = om_Labels (sec_meta s)))"

locale listing_api = create_api +
  assumes list_secrets: "list_Secret c os w = (Inr (list_items sec_meta os (st_secrets w)), w)"
    and create_labels: "labels_kept w (snd (create c x w))"
    and create_adds: "map_of (st_secrets w) k = None \<Longrightarrow> map_of (st_secrets (snd (create c x w))) k = Some s' \<Longrightarrow>
      \<exists>s. x = OSecret s \<and> key_of (sec_meta s) = k \<and> om_Labels (sec_meta s') = om_Labels (sec_meta s)"

lemma token_there_kept: "labels_kept w w' \<Longrightarrow> token_there cfg w \<Longrightarrow> token_there cfg w'"
  unfolding labels_kept_def token_there_def by (force split: option.splits)

text \<open>Two secrets under different keys that a selector selects are two items of its list.\<close>

lemma two_listed:
  assumes "map_of is k1 = Some a" and "map_of is k2 = Some b" and "k1 \<noteq> k2"
    and "list_all (\<lambda>opt. selects opt (meta a)) os" and "list_all (\<lambda>opt. selects opt (meta b)) os"
  shows "1 < length (list_items meta os is)"
proof -
  let ?sel = "filter (\<lambda>(k, x). list_all (\<lambda>opt. selects opt (meta x)) os) is"
  have "{(k1, a), (k2, b)} \<subseteq> set ?sel" using assms by (auto dest: map_of_SomeD)
  then have "card {(k1, a), (k2, b)} \<le> length ?sel"
    using card_mono [OF finite_set] card_length le_trans by metis
  moreover have "length (list_items meta os is) = length ?sel"
    by (simp add: list_items_def filter_map comp_def split_def)
  ultimately show ?thesis using assms(3) by simp
qed

section \<open>The webhook among them\<close>

context listing_api begin

lemma create_if_absent_store: "snd (create_if_absent c h x w) = snd (create c x w)"
  by (auto simp: create_if_absent_def bind_err_def attempt_def ret_run fail_run split: prod.splits sum.splits)

lemma keeps_token_create: "keeps (token_there cfg) (create_if_absent c h x)"
  using token_there_kept [OF create_labels] by (simp add: keeps_def create_if_absent_store)

text \<open>With the token secrets of two namespaces there, the token is never found.\<close>

lemma token_of_two:
  assumes "token_there cfg1 w" and "token_there cfg2 w"
    and "rc_Name cfg1 = rc_Name cfg2" and "rc_Namespace cfg1 \<noteq> rc_Namespace cfg2"
  shows "\<exists>e. service_account_token c (config_plan_secret_name cfg2) w = (Error e, w)"
proof -
  let ?os = "[MatchingLabels [(serviceAccountSecretLabel, config_plan_secret_name cfg2)]]"
  have nm: "config_plan_secret_name cfg1 = config_plan_secret_name cfg2"
    using assms(3) by (simp add: config_plan_secret_name_def)
  from assms(1,2) obtain s1 s2 where s: "map_of (st_secrets w) (token_key cfg1) = Some s1"
    "map_of (st_secrets w) (token_key cfg2) = Some s2"
    "om_Labels (sec_meta s1) = token_labels cfg1" "om_Labels (sec_meta s2) = token_labels cfg2"
    by (auto simp: token_there_def split: option.splits)
  then have "1 < length (list_items sec_meta ?os (st_secrets w))"
    using assms(4) by (intro two_listed [OF s(1,2)]) (simp_all add: token_key_def token_labels_def nm)
  then show ?thesis
    by (auto simp: service_account_token_def bind_err_def call_def list_secrets fail_run split: list.split)
qed

lemma attempts_of_two:
  assumes "rc_Name cfg1 = rc_Name cfg2" and "rc_Namespace cfg1 \<noteq> rc_Namespace cfg2"
    and pause: "\<And>v. labels_kept v (pause v)"
  shows "token_there cfg1 w \<Longrightarrow> token_there cfg2 w \<Longrightarrow>
    \<exists>e w'. attempts pause n (service_account_token c (config_plan_secret_name cfg2)) w = (Error e, w') \<and>
      token_there cfg1 w' \<and> token_there cfg2 w'"
proof (induction n arbitrary: w)
  case 0
  from token_of_two [OF 0 assms(1,2)] 0 show ?case by auto
next
  case (Suc n)
  from token_of_two [OF Suc.prems assms(1,2)] Suc.IH [of "pause w"] Suc.prems token_there_kept [OF pause [of w]]
  show ?case by auto
qed

text \<open>After the five creations the token secret is there, unless its name is taken.\<close>

lemma token_created:
  assumes run: "createSecretPlanResources c (config_plan_secret_name cfg) cfg w = (Return u, w')" and free: "token_free cfg w"
  shows "token_there cfg w'"
proof -
  let ?nm = "config_plan_secret_name cfg"
  let ?create = "create_if_absent c (Wrapf (''failed to create '' @ gvk_String empty_gvk @ '': ''))"
  have step: "token_free cfg w2" if r: "?create x w1 = (Return v, w2)" and f: "token_free cfg w1"
    and x: "\<And>s. x = OSecret s \<Longrightarrow> key_of (sec_meta s) \<noteq> token_key cfg \<or> om_Labels (sec_meta s) = token_labels cfg"
    for x w1 w2 v
  proof (cases "map_of (st_secrets w2) (token_key cfg)")
    case (Some s)
    have w2: "w2 = snd (create c x w1)" using create_if_absent_store [of _ x w1] r by (metis snd_conv)
    show ?thesis
    proof (cases "map_of (st_secrets w1) (token_key cfg)")
      case None
      with create_adds [OF None Some [unfolded w2]] x Some show ?thesis
        by (auto simp: token_free_def token_there_def)
    next
      case (Some s1)
      with f have "token_there cfg w1" by (simp add: token_free_def)
      with token_there_kept [OF create_labels] w2 show ?thesis by (auto simp: token_free_def)
    qed
  qed (simp add: token_free_def)
  from run obtain w1 w2 w3 w4 where rs: "?create (OServiceAccount (plan_service_account ?nm cfg)) w = (Return (), w1)"
    "?create (OSecret (plan_secret ?nm cfg)) w1 = (Return (), w2)"
    "?create (ORole (plan_role ?nm cfg)) w2 = (Return (), w3)"
    "?create (ORoleBinding (plan_role_binding ?nm cfg)) w3 = (Return (), w4)"
    and last: "?create (OSecret (plan_token_secret ?nm cfg)) w4 = (Return (), w')"
    unfolding createSecretPlanResources_def plan_resources_def for_range.simps
    by (elim bind_err_ReturnE) (auto simp: ret_run)
  have "token_free cfg w4"
    by (rule step [OF rs(4)], rule step [OF rs(3)], rule step [OF rs(2)], rule step [OF rs(1) free])
      (simp_all add: plan_secret_def token_key_def)
  then have "token_free cfg w'"
    by (rule step [OF last]) (simp add: plan_token_secret_def token_labels_def)
  moreover have "secret_at (token_key cfg) w'"
    using create_if_absent_there [OF last] by (simp add: plan_token_secret_def token_key_def)
  ultimately show ?thesis by (auto simp: token_free_def secret_at_def)
qed

lemma two_refused:
  assumes "rc_Name cfg1 = rc_Name cfg2" and "rc_Namespace cfg1 \<noteq> rc_Namespace cfg2"
    and "\<And>v. labels_kept v (pause v)" and there: "token_there cfg1 w" and free: "token_free cfg2 w"
  obtains e w' where "Default c (retry_lib kw pause n) (RKE2ConfigObject cfg2) w = (Error e, w')"
    "bad_request e" "token_there cfg1 w'"
proof (cases "createSecretPlanResources c (config_plan_secret_name cfg2) cfg2 w")
  case (Pair out w1)
  have "keeps (token_there cfg1) (createSecretPlanResources c (config_plan_secret_name cfg2) cfg2)"
    unfolding createSecretPlanResources_def by (intro keeps_for_range keeps_token_create)
  with Pair there have there1: "token_there cfg1 w1" unfolding keeps_def by (metis snd_conv)
  have run: "Default c (retry_lib kw pause n) (RKE2ConfigObject cfg2) w =
      bind_err (createSecretPlanResources c (config_plan_secret_name cfg2) cfg2)
        (\<lambda>e. NewBadRequest (''failed to create secret plan resources: '' @ error_string e))
        (\<lambda>_. default_rest c (retry_lib kw pause n) cfg2) w"
    by (simp add: default_config_rest)
  note refuses = bad_request_Default [of c kw pause n "RKE2ConfigObject cfg2", unfolded fails_with_def, rule_format, of w]
  show thesis
  proof (cases out)
    case (Return u)
    with token_created Pair free have "token_there cfg2 w1" by blast
    from attempts_of_two [OF assms(1-3) there1 this, of n] obtain e w' where
      "attempts pause n (service_account_token c (config_plan_secret_name cfg2)) w1 = (Error e, w')" "token_there cfg1 w'"
      by blast
    with that run Pair Return refuses show thesis
      by (auto simp: bind_err_def default_rest_def Let_def ensureServiceAccountSecretPopulated_def)
  next
    case (Error e)
    with that run Pair there1 refuses show thesis by (auto simp: bind_err_def)
  next
    case (Panicked p)
    with run Pair refuses show thesis by (auto simp: bind_err_def)
  qed
qed

end

interpretation listing_server: listing_api server
proof unfold_locales
  show "labels_kept w (snd (create server x w))" for w x
    by (cases x) (auto simp: labels_kept_def server_def create_item_def map_add_def)
  show "\<exists>s. x = OSecret s \<and> key_of (sec_meta s) = k \<and> om_Labels (sec_meta s') = om_Labels (sec_meta s)"
    if "map_of (st_secrets w) k = None" "map_of (st_secrets (snd (create server x w))) k = Some s'" for w k x s'
    using that by (cases x) (auto simp: server_def create_item_def map_add_def stamp_secret_def stamp_meta_def split: if_splits)
qed (simp add: server_def)

section \<open>Both are refused\<close>

text \<open>C22: On any server that lists what it stores, once a configuration has its token secret,
  the webhook refuses a configuration of the same name in another namespace, however often
  it retries; and if that attempt created its token secret, the webhook from then on refuses
  the first configuration as well.\<close>

theorem same_name_refused:
  assumes "listing_api c" and "\<And>v. labels_kept v (pause v)"
    and "rc_Name cfg1 = rc_Name cfg2" and "rc_Namespace cfg1 \<noteq> rc_Namespace cfg2"
    and "token_there cfg1 w" and "token_free cfg2 w"
  shows "case Default c (retry_lib kw pause n) (RKE2ConfigObject cfg2) w of
      (Error e, w') \<Rightarrow> bad_request e \<and> (token_there cfg2 w' \<longrightarrow>
        (case Default c (retry_lib kw pause n) (RKE2ConfigObject cfg1) w' of
           (Error e', w'') \<Rightarrow> bad_request e' | _ \<Rightarrow> False))
    | _ \<Rightarrow> False"
proof (rule listing_api.two_refused [OF assms(1,3,4,2,5,6), where kw = kw and n = n])
  fix e w'
  assume first: "Default c (retry_lib kw pause n) (RKE2ConfigObject cfg2) w = (Error e, w')" "bad_request e" "token_there cfg1 w'"
  have "case Default c (retry_lib kw pause n) (RKE2ConfigObject cfg1) w' of
      (Error e', w'') \<Rightarrow> bad_request e' | _ \<Rightarrow> False" if "token_there cfg2 w'"
    by (rule listing_api.two_refused [OF assms(1) assms(3) [symmetric] assms(4) [symmetric] assms(2) that, where kw = kw and n = n])
      (use first(3) in \<open>simp_all add: token_free_def\<close>)
  with first show ?thesis by simp
qed

definition demo_elsewhere :: rke2_config where
  "demo_elsewhere = \<lparr>rc_meta = meta_for ''m1'' ''other'', rc_Files = [], rc_PostRKE2Commands = []\<rparr>"

definition demo_with_token :: store where
  "demo_with_token = demo_store\<lparr>st_secrets := [(token_key (demo_config ''m1''),
     plan_token_secret (config_plan_secret_name (demo_config ''m1'')) (demo_config ''m1''))]\<rparr>"

theorem same_name_refused_witness:
  "case Default server (retry_lib (\<lambda>kc. Inr ''kubeconfig'') (\<lambda>w. w) 4) (RKE2ConfigObject demo_elsewhere) demo_with_token of
      (Error e, w') \<Rightarrow> bad_request e \<and> (token_there demo_elsewhere w' \<longrightarrow>
        (case Default server (retry_lib (\<lambda>kc. Inr ''kubeconfig'') (\<lambda>w. w) 4) (RKE2ConfigObject (demo_config ''m1'')) w' of
           (Error e', w'') \<Rightarrow> bad_request e' | _ \<Rightarrow> False))
    | _ \<Rightarrow> False"
  by (rule same_name_refused [OF listing_server.listing_api_axioms])
    (simp_all add: labels_kept_def demo_elsewhere_def demo_with_token_def token_there_def token_free_def token_key_def
      plan_token_secret_def token_labels_def demo_config_def)

end
