(* ===== verification/Backup_Controller.thy ===== *)
theory Backup_Controller
  imports Kube_Client
begin

text \<open>
  \<open>internal/controller/etcdmachinebackup_controller.go\<close>: the reconciler of
  \<open>EtcdMachineBackup\<close> objects, which reads the object and has nothing else to do.
\<close>

definition reconcileDelete_backup :: "EtcdMachineBackup \<Rightarrow> ('w, ctrl_result) go" where
  "reconcileDelete_backup b = ret no_requeue"

definition reconcileNormal_backup :: "EtcdMachineBackup \<Rightarrow> ('w, ctrl_result) go" where
  "reconcileNormal_backup b = ret no_requeue"

definition Reconcile_backup :: "'w client \<Rightarrow> object_key \<Rightarrow> ('w, ctrl_result) go" where
  "Reconcile_backup c req =
     bind_go (attempt (get_EtcdMachineBackup c req)) (\<lambda>got. case got of
       Inl e \<Rightarrow> if IsNotFound e then ret no_requeue else fail (ApiError e)
     | Inr b \<Rightarrow>
         if om_DeletionTimestamp (mb_meta b) \<noteq> None then reconcileDelete_backup b
         else reconcileNormal_backup b)"

text \<open>
  The object is read once and nothing is changed: it is never requeued, a backup that is
  gone is not an error, and any other failure to read it is returned as it came.
\<close>

lemma backup_reconcile_reads_only:
  "Reconcile_backup c req w =
     (case fst (get_EtcdMachineBackup c req w) of
        Inl e \<Rightarrow> if IsNotFound e then Return no_requeue else Error (ApiError e)
      | Inr b \<Rightarrow> Return no_requeue,
      snd (get_EtcdMachineBackup c req w))"
  by (simp add: Reconcile_backup_def reconcileNormal_backup_def reconcileDelete_backup_def go_defs
      split: prod.split sum.split)

end
