(* ===== verification/Manager_Main.thy ===== *)
theory Manager_Main
  imports Api_Types
begin

text \<open>
  \<open>cmd/main.go\<close>, with the \<open>SetupWithManager\<close> functions it calls: the flags, what becomes of
  them in the options of the manager, and the order in which the operator is put together.
  The manager of controller-runtime, the client and the tracker it builds are parameters; so
  is the parsing of the command line.
\<close>

section \<open>Flags\<close>

text \<open>A \<open>time.Duration\<close> counts nanoseconds, and may be negative.\<close>

datatype flag_value =
    FlagString string
  | FlagBool bool
  | FlagDuration int
  | FlagInt int

record flag =
  fl_name :: string
  fl_default :: flag_value
  fl_usage :: string

text \<open>The package variables.\<close>

record flag_vars =
  metricsBindAddr :: string
  enableLeaderElection :: bool
  leaderElectionLeaseDuration :: int
  leaderElectionRenewDeadline :: int
  leaderElectionRetryPeriod :: int
  watchFilterValue :: string
  profilerAddress :: string
  syncPeriod :: int
  healthAddr :: string
  concurrencyNumber :: int
  rancherKubeconfig :: string
  insecureSkipVerify :: bool
  webhookPort :: int
  webhookCertDir :: string

text \<open>The flags in the order they are declared; \<open>watch_label\<close> is the label of the Cluster API.\<close>

definition initFlags :: "string \<Rightarrow> flag list" where
  "initFlags watch_label =
    [\<lparr>fl_name = ''metrics-bind-addr'', fl_default = FlagString '':8080'',
      fl_usage = ''The address the metric endpoint binds to.''\<rparr>,
     \<lparr>fl_name = ''leader-elect'', fl_default = FlagBool False,
      fl_usage = ''Enable leader election for controller manager. Enabling this will ensure there is only one active controller manager.''\<rparr>,
     \<lparr>fl_name = ''leader-elect-lease-duration'', fl_default = FlagDuration (int (15 * second)),
      fl_usage = ''Interval at which non-leader candidates will wait to force acquire leadership (duration string)''\<rparr>,
     \<lparr>fl_name = ''leader-elect-renew-deadline'', fl_default = FlagDuration (int (10 * second)),
      fl_usage = ''Duration that the leading controller manager will retry refreshing leadership before giving up (duration string)''\<rparr>,
     \<lparr>fl_name = ''leader-elect-retry-period'', fl_default = FlagDuration (int (2 * second)),
      fl_usage = ''Duration the LeaderElector clients should wait between tries of actions (duration string)''\<rparr>,
     \<lparr>fl_name = ''watch-filter'', fl_default = FlagString [],
      fl_usage = ''Label value that the controller watches to reconcile cluster-api objects. Label key is always ''
        @ watch_label @ ''. If unspecified, the controller watches for all cluster-api objects.''\<rparr>,
     \<lparr>fl_name = ''profiler-address'', fl_default = FlagString [],
      fl_usage = ''Bind address to expose the pprof profiler (e.g. localhost:6060)''\<rparr>,
     \<lparr>fl_name = ''sync-period'', fl_default = FlagDuration (int (10 * minute)),
      fl_usage = ''The minimum interval at which watched resources are reconciled (e.g. 15m)''\<rparr>,
     \<lparr>fl_name = ''health-addr'', fl_default = FlagString '':9440'',
      fl_usage = ''The address the health endpoint binds to.''\<rparr>,
     \<lparr>fl_name = ''concurrency'', fl_default = FlagInt 1,
      fl_usage = ''Number of resources to process simultaneously''\<rparr>,
     \<lparr>fl_name = ''rancher-kubeconfig'', fl_default = FlagString [],
      fl_usage = ''Path to the Rancher kubeconfig file. Only required if running out-of-cluster.''\<rparr>,
     \<lparr>fl_name = ''insecure-skip-verify'', fl_default = FlagBool False,
      fl_usage = ''Skip TLS certificate verification when connecting to Rancher. Only used for development and testing purposes. Use at your own risk.''\<rparr>,
     \<lparr>fl_name = ''webhook-port'', fl_default = FlagInt 9443, fl_usage = ''Webhook Server port''\<rparr>,
     \<lparr>fl_name = ''webhook-cert-dir'', fl_default = FlagString ''/tmp/k8s-webhook-server/serving-certs/'',
      fl_usage = ''Webhook cert dir, only used when webhook-port is specified.''\<rparr>]"

text \<open>
  What the variables hold after parsing: \<open>given\<close> are the values of the command line, which
  the parser has checked against the types of the flags; a flag not given has its default.
\<close>

definition flag_value_of :: "string \<Rightarrow> (string \<Rightarrow> flag_value option) \<Rightarrow> string \<Rightarrow> flag_value option" where
  "flag_value_of watch_label given nm = (case given nm of
     Some v \<Rightarrow> Some v
   | None \<Rightarrow> map_option fl_default (find (\<lambda>f. fl_name f = nm) (initFlags watch_label)))"

fun as_string :: "flag_value option \<Rightarrow> string" where
  "as_string (Some (FlagString s)) = s" | "as_string _ = []"

fun as_bool :: "flag_value option \<Rightarrow> bool" where
  "as_bool (Some (FlagBool b)) = b" | "as_bool _ = False"

fun as_duration :: "flag_value option \<Rightarrow> int" where
  "as_duration (Some (FlagDuration d)) = d" | "as_duration _ = 0"

fun as_int :: "flag_value option \<Rightarrow> int" where
  "as_int (Some (FlagInt n)) = n" | "as_int _ = 0"

definition parsed_vars :: "string \<Rightarrow> (string \<Rightarrow> flag_value option) \<Rightarrow> flag_vars" where
  "parsed_vars watch_label given =
     (let v = flag_value_of watch_label given in
      \<lparr>metricsBindAddr = as_string (v ''metrics-bind-addr''),
       enableLeaderElection = as_bool (v ''leader-elect''),
       leaderElectionLeaseDuration = as_duration (v ''leader-elect-lease-duration''),
       leaderElectionRenewDeadline = as_duration (v ''leader-elect-renew-deadline''),
       leaderElectionRetryPeriod = as_duration (v ''leader-elect-retry-period''),
       watchFilterValue = as_string (v ''watch-filter''),
       profilerAddress = as_string (v ''profiler-address''),
       syncPeriod = as_duration (v ''sync-period''),
       healthAddr = as_string (v ''health-addr''),
       concurrencyNumber = as_int (v ''concurrency''),
       rancherKubeconfig = as_string (v ''rancher-kubeconfig''),
       insecureSkipVerify = as_bool (v ''insecure-skip-verify''),
       webhookPort = as_int (v ''webhook-port''),
       webhookCertDir = as_string (v ''webhook-cert-dir'')\<rparr>)"

section \<open>The manager\<close>

text \<open>The options the manager and the tracker are made with.\<close>

record manager_options =
  mo_MetricsBindAddress :: string
  mo_LeaderElection :: bool
  mo_LeaderElectionID :: string
  mo_LeaderElectionResourceLock :: string
  mo_LeaseDuration :: int
  mo_RenewDeadline :: int
  mo_RetryPeriod :: int
  mo_CacheDisableFor :: "string list"
  mo_CacheSyncPeriod :: int
  mo_HealthProbeBindAddress :: string
  mo_WebhookPort :: int
  mo_WebhookCertDir :: string

definition manager_options_of :: "flag_vars \<Rightarrow> manager_options" where
  "manager_options_of v =
     \<lparr>mo_MetricsBindAddress = metricsBindAddr v,
      mo_LeaderElection = enableLeaderElection v,
      mo_LeaderElectionID = ''controller-leader-election-etcd-restore'',
      mo_LeaderElectionResourceLock = ''leases'',
      mo_LeaseDuration = leaderElectionLeaseDuration v,
      mo_RenewDeadline = leaderElectionRenewDeadline v,
      mo_RetryPeriod = leaderElectionRetryPeriod v,
      mo_CacheDisableFor = [''ConfigMap'', ''Secret''],
      mo_CacheSyncPeriod = syncPeriod v,
      mo_HealthProbeBindAddress = healthAddr v,
      mo_WebhookPort = webhookPort v,
      mo_WebhookCertDir = webhookCertDir v\<rparr>"

text \<open>The reconcilers; the sync reconciler holds the tracker.\<close>

datatype 't reconciler =
    SnapshotSyncReconciler 't
  | MachineBackupReconciler
  | SnapshotRestoreReconciler

text \<open>How the process goes on after a step, or ends: an error is logged and the exit code is 1.\<close>

datatype 'a process =
    Running 'a
  | Exited nat string go_error

text \<open>
  What controller-runtime offers: \<open>mgr_GetConfigOrDie\<close> reads the cluster's configuration or
  ends the process itself, with a message of its own; \<open>mgr_New\<close> makes the manager,
  \<open>mgr_Build\<close> and \<open>mgr_Complete\<close> make a controller for a kind, \<open>mgr_CompleteWebhook\<close> a
  defaulting webhook for a kind.
\<close>

record ('w, 'k, 'c, 't) manager =
  mgr_GetConfigOrDie :: "'w \<Rightarrow> 'k process \<times> 'w"
  mgr_New :: "'k \<Rightarrow> manager_options \<Rightarrow> ('w, unit) go"
  mgr_AddReadyzCheck :: "string \<Rightarrow> ('w, unit) go"
  mgr_AddHealthzCheck :: "string \<Rightarrow> ('w, unit) go"
  mgr_NewCachingClient :: "('w, 'c) go"
  mgr_NewTracker :: "'c \<Rightarrow> string \<Rightarrow> ('w, 't) go"
  mgr_Build :: "string \<Rightarrow> 't reconciler \<Rightarrow> ('w, unit) go"
  mgr_Complete :: "string \<Rightarrow> 't reconciler \<Rightarrow> ('w, unit) go"
  mgr_CompleteWebhook :: "string \<Rightarrow> ('w, unit) go"
  mgr_Start :: "('w, unit) go"

text \<open>The four set-up functions.\<close>

definition SetupWithManager_sync :: "('w, 'k, 'c, 't) manager \<Rightarrow> 't \<Rightarrow> ('w, unit) go" where
  "SetupWithManager_sync mgr tracker =
     bind_err (mgr_Build mgr ''Cluster'' (SnapshotSyncReconciler tracker))
       (Wrapf ''creating new controller: '') ret"

definition SetupWithManager_backup :: "('w, 'k, 'c, 't) manager \<Rightarrow> ('w, unit) go" where
  "SetupWithManager_backup mgr = mgr_Complete mgr ''EtcdMachineBackup'' MachineBackupReconciler"

definition SetupWithManager_restore :: "('w, 'k, 'c, 't) manager \<Rightarrow> ('w, unit) go" where
  "SetupWithManager_restore mgr = mgr_Complete mgr ''ETCDSnapshotRestore'' SnapshotRestoreReconciler"

definition SetupWebhookWithManager :: "('w, 'k, 'c, 't) manager \<Rightarrow> ('w, unit) go" where
  "SetupWebhookWithManager mgr = mgr_CompleteWebhook mgr ''RKE2Config''"

section \<open>The main function\<close>

definition or_exit :: "('w, 'a) go \<Rightarrow> string \<Rightarrow> ('w, 'a process) go" where
  "or_exit m msg = bind_go (catch_err m) (\<lambda>r. case r of
     Inl e \<Rightarrow> ret (Exited 1 msg e)
   | Inr a \<Rightarrow> ret (Running a))"

definition unless_exited ::
  "('w, 'a process) go \<Rightarrow> ('a \<Rightarrow> ('w, 'b process) go) \<Rightarrow> ('w, 'b process) go" where
  "unless_exited m k = bind_go m (\<lambda>r. case r of
     Exited n msg e \<Rightarrow> ret (Exited n msg e)
   | Running a \<Rightarrow> k a)"

definition setupChecks :: "('w, 'k, 'c, 't) manager \<Rightarrow> ('w, unit process) go" where
  "setupChecks mgr =
     unless_exited (or_exit (mgr_AddReadyzCheck mgr ''webhook'') ''unable to create ready check'') (\<lambda>_.
     or_exit (mgr_AddHealthzCheck mgr ''webhook'') ''unable to create health check'')"

definition setupReconcilers :: "('w, 'k, 'c, 't) manager \<Rightarrow> ('w, unit process) go" where
  "setupReconcilers mgr =
     unless_exited (or_exit (mgr_NewCachingClient mgr) ''unable to create secret caching client'') (\<lambda>secretCachingClient.
     unless_exited (or_exit (mgr_NewTracker mgr secretCachingClient ''etcd-restore-controller'')
       ''unable to create cluster cache tracker'') (\<lambda>tracker.
     unless_exited (or_exit (SetupWithManager_sync mgr tracker) ''unable to create EtcdSnapshotSyncReconciler'') (\<lambda>_.
     unless_exited (or_exit (SetupWithManager_backup mgr) ''unable to create EtcdMachineBackupReconciler'') (\<lambda>_.
     or_exit (SetupWithManager_restore mgr) ''unable to create EtcdSnapshotReconciler''))))"

definition setupWebhooks :: "('w, 'k, 'c, 't) manager \<Rightarrow> ('w, unit process) go" where
  "setupWebhooks mgr = or_exit (SetupWebhookWithManager mgr) ''unable to create webhook''"

text \<open>A call that returns or ends the process itself.\<close>

definition or_die :: "('w \<Rightarrow> 'a process \<times> 'w) \<Rightarrow> ('w, 'a process) go" where
  "or_die op = (\<lambda>w. case op w of (r, w') \<Rightarrow> (Return r, w'))"

definition main :: "('w, 'k, 'c, 't) manager \<Rightarrow> flag_vars \<Rightarrow> ('w, unit process) go" where
  "main mgr v =
     unless_exited (or_die (mgr_GetConfigOrDie mgr)) (\<lambda>config.
     unless_exited (or_exit (mgr_New mgr config (manager_options_of v)) ''unable to start manager'') (\<lambda>_.
     unless_exited (setupChecks mgr) (\<lambda>_.
     unless_exited (setupReconcilers mgr) (\<lambda>_.
     unless_exited (setupWebhooks mgr) (\<lambda>_.
     or_exit (mgr_Start mgr) ''problem running manager'')))))"

section \<open>The scheme\<close>

text \<open>The group of the operator's own types, and the kinds registered in it.\<close>

definition GroupVersion :: "string \<times> string" where
  "GroupVersion = (''turtles-capi.cattle.io'', ''v1alpha1'')"

definition registered_backups :: "string list" where
  "registered_backups = [''EtcdMachineBackup'', ''EtcdMachineBackupList'']"

definition registered_restores :: "string list" where
  "registered_restores = [''ETCDSnapshotRestore'', ''ETCDSnapshotRestoreList'']"

definition SchemeBuilder :: "group_version_kind list" where
  "SchemeBuilder = map (\<lambda>k. \<lparr>gvk_Group = fst GroupVersion, gvk_Version = snd GroupVersion, gvk_Kind = k\<rparr>)
     (registered_backups @ registered_restores)"

text \<open>\<open>init\<close>: the kinds of the other packages, which are not part of this repository, and its own.\<close>

definition scheme_kinds ::
  "group_version_kind list \<Rightarrow> group_version_kind list \<Rightarrow> group_version_kind list \<Rightarrow> group_version_kind list" where
  "scheme_kinds clientgo cluster_api bootstrap = clientgo @ cluster_api @ SchemeBuilder @ bootstrap"

section \<open>The order of the set-up\<close>

text \<open>A manager that records its steps, each with whether it succeeded.\<close>

datatype setup_step =
    GetConfig | NewManager | ReadyzCheck | HealthzCheck | NewCachingClient | NewTracker
  | SyncController | BackupController | RestoreController | ConfigWebhook | StartManager

type_synonym setup_trace = "(setup_step \<times> bool) list"

definition traced :: "setup_step \<Rightarrow> ('w, 'a) go \<Rightarrow> (setup_trace \<times> 'w, 'a) go" where
  "traced s m = (\<lambda>(tr, w). case m w of (out, w') \<Rightarrow>
     (out, (tr @ [(s, case out of Return a \<Rightarrow> True | _ \<Rightarrow> False)], w')))"

definition traced_config :: "('w \<Rightarrow> 'a process \<times> 'w) \<Rightarrow> setup_trace \<times> 'w \<Rightarrow> 'a process \<times> (setup_trace \<times> 'w)" where
  "traced_config op = (\<lambda>(tr, w). case op w of (r, w') \<Rightarrow>
     (r, (tr @ [(GetConfig, case r of Running a \<Rightarrow> True | Exited n msg e \<Rightarrow> False)], w')))"

definition traced_manager :: "('w, 'k, 'c, 't) manager \<Rightarrow> (setup_trace \<times> 'w, 'k, 'c, 't) manager" where
  "traced_manager mgr =
     \<lparr>mgr_GetConfigOrDie = traced_config (mgr_GetConfigOrDie mgr),
      mgr_New = (\<lambda>config opts. traced NewManager (mgr_New mgr config opts)),
      mgr_AddReadyzCheck = (\<lambda>nm. traced ReadyzCheck (mgr_AddReadyzCheck mgr nm)),
      mgr_AddHealthzCheck = (\<lambda>nm. traced HealthzCheck (mgr_AddHealthzCheck mgr nm)),
      mgr_NewCachingClient = traced NewCachingClient (mgr_NewCachingClient mgr),
      mgr_NewTracker = (\<lambda>c nm. traced NewTracker (mgr_NewTracker mgr c nm)),
      mgr_Build = (\<lambda>kind r. traced SyncController (mgr_Build mgr kind r)),
      mgr_Complete = (\<lambda>kind r. traced (if kind = ''EtcdMachineBackup'' then BackupController else RestoreController)
        (mgr_Complete mgr kind r)),
      mgr_CompleteWebhook = (\<lambda>kind. traced ConfigWebhook (mgr_CompleteWebhook mgr kind)),
      mgr_Start = traced StartManager (mgr_Start mgr)\<rparr>"

text \<open>
  \<open>stages m steps\<close>: \<open>m\<close> goes through the steps in order; it runs to the end when all
  succeed, and at the first that does not it exits or panics, having done none of the steps
  after it. A step with a message exits with code 1 and that message; one without ends the
  process itself.
\<close>

definition stopped_at ::
  "(setup_step \<times> string option) list \<Rightarrow> (string option \<Rightarrow> bool) \<Rightarrow> setup_trace \<Rightarrow> bool" where
  "stopped_at steps P tr \<longleftrightarrow> (\<exists>before s m after. steps = before @ (s, m) # after \<and>
     P m \<and> tr = map (\<lambda>(s, m). (s, True)) before @ [(s, False)])"

definition exits_with :: "nat \<Rightarrow> string \<Rightarrow> string option \<Rightarrow> bool" where
  "exits_with n msg m \<longleftrightarrow> (case m of None \<Rightarrow> True | Some x \<Rightarrow> n = 1 \<and> msg = x)"

definition stages :: "(setup_trace \<times> 'w, 'a process) go \<Rightarrow> (setup_step \<times> string option) list \<Rightarrow> bool" where
  "stages m steps \<longleftrightarrow> (\<forall>tr w. \<exists>out new w'. m (tr, w) = (out, (tr @ new, w')) \<and>
     (case out of
        Return (Running a) \<Rightarrow> new = map (\<lambda>(s, m). (s, True)) steps
      | Return (Exited n msg e) \<Rightarrow> stopped_at steps (exits_with n msg) new
      | Error e \<Rightarrow> False
      | Panicked p \<Rightarrow> stopped_at steps (\<lambda>m. m \<noteq> None) new))"

lemma stopped_at_single: "P m \<Longrightarrow> stopped_at [(s, m)] P [(s, False)]"
  by (auto simp: stopped_at_def intro!: exI [of _ "[]"])

lemma stopped_at_left: "stopped_at xs P tr \<Longrightarrow> stopped_at (xs @ ys) P tr"
  unfolding stopped_at_def by fastforce

lemma stopped_at_right: "stopped_at ys P tr \<Longrightarrow> stopped_at (xs @ ys) P (map (\<lambda>(s, m). (s, True)) xs @ tr)"
  unfolding stopped_at_def by (metis append.assoc map_append)

lemma or_exit_run:
  "m w = (Return a, w') \<Longrightarrow> or_exit m msg w = (Return (Running a), w')"
  "m w = (Error e, w') \<Longrightarrow> or_exit m msg w = (Return (Exited 1 msg e), w')"
  "m w = (Panicked p, w') \<Longrightarrow> or_exit m msg w = (Panicked p, w')"
  by (simp_all add: or_exit_def bind_err_def catch_err_def ret_def)

lemma unless_exited_run:
  "m w = (Return (Running a), w') \<Longrightarrow> unless_exited m k w = k a w'"
  "m w = (Return (Exited n msg e), w') \<Longrightarrow> unless_exited m k w = (Return (Exited n msg e), w')"
  "m w = (Panicked p, w') \<Longrightarrow> unless_exited m k w = (Panicked p, w')"
  by (simp_all add: unless_exited_def bind_err_def ret_def)

lemma traced_run: "m w = (out, w') \<Longrightarrow>
    traced s m (tr, w) = (out, (tr @ [(s, case out of Return a \<Rightarrow> True | _ \<Rightarrow> False)], w'))"
  by (simp add: traced_def)

lemma stages_or_exit: "stages (or_exit (traced s m) msg) [(s, Some msg)]"
  unfolding stages_def
proof (intro allI)
  fix tr w
  obtain out w' where m: "m w = (out, w')" by fastforce
  show "\<exists>out new w'. or_exit (traced s m) msg (tr, w) = (out, (tr @ new, w')) \<and>
     (case out of
        Return (Running a) \<Rightarrow> new = map (\<lambda>(s, m). (s, True)) [(s, Some msg)]
      | Return (Exited n msg' e) \<Rightarrow> stopped_at [(s, Some msg)] (exits_with n msg') new
      | Error e \<Rightarrow> False
      | Panicked p \<Rightarrow> stopped_at [(s, Some msg)] (\<lambda>m. m \<noteq> None) new)"
    using traced_run [where m = m and s = s and tr = tr, OF m]
    by (cases out) (simp_all add: or_exit_run stopped_at_single exits_with_def)
qed

lemma stages_or_die: "stages (or_die (traced_config op)) [(GetConfig, None)]"
  unfolding stages_def
proof (intro allI)
  fix tr w
  obtain r w' where op: "op w = (r, w')" by fastforce
  show "\<exists>out new w'. or_die (traced_config op) (tr, w) = (out, (tr @ new, w')) \<and>
     (case out of
        Return (Running a) \<Rightarrow> new = map (\<lambda>(s, m). (s, True)) [(GetConfig, None)]
      | Return (Exited n msg e) \<Rightarrow> stopped_at [(GetConfig, None)] (exits_with n msg) new
      | Error e \<Rightarrow> False
      | Panicked p \<Rightarrow> stopped_at [(GetConfig, None)] (\<lambda>m. m \<noteq> None) new)"
    by (cases r) (simp_all add: or_die_def traced_config_def op stopped_at_single exits_with_def)
qed

lemma stages_unless_exited:
  assumes "stages m xs" and "\<And>a. stages (k a) ys"
  shows "stages (unless_exited m k) (xs @ ys)"
  unfolding stages_def
proof (intro allI)
  fix tr w
  from assms(1) obtain out new w' where m: "m (tr, w) = (out, (tr @ new, w'))"
    and out: "case out of
        Return (Running a) \<Rightarrow> new = map (\<lambda>(s, m). (s, True)) xs
      | Return (Exited n msg e) \<Rightarrow> stopped_at xs (exits_with n msg) new
      | Error e \<Rightarrow> False
      | Panicked p \<Rightarrow> stopped_at xs (\<lambda>m. m \<noteq> None) new"
    unfolding stages_def by blast
  show "\<exists>out new w'. unless_exited m k (tr, w) = (out, (tr @ new, w')) \<and>
     (case out of
        Return (Running a) \<Rightarrow> new = map (\<lambda>(s, m). (s, True)) (xs @ ys)
      | Return (Exited n msg e) \<Rightarrow> stopped_at (xs @ ys) (exits_with n msg) new
      | Error e \<Rightarrow> False
      | Panicked p \<Rightarrow> stopped_at (xs @ ys) (\<lambda>m. m \<noteq> None) new)"
  proof (cases out)
    case (Return r)
    show ?thesis
    proof (cases r)
      case (Running a)
      from assms(2) [of a] obtain out2 new2 w2 where k: "k a (tr @ new, w') = (out2, ((tr @ new) @ new2, w2))"
        "case out2 of
           Return (Running a) \<Rightarrow> new2 = map (\<lambda>(s, m). (s, True)) ys
         | Return (Exited n msg e) \<Rightarrow> stopped_at ys (exits_with n msg) new2
         | Error e \<Rightarrow> False
         | Panicked p \<Rightarrow> stopped_at ys (\<lambda>m. m \<noteq> None) new2"
        unfolding stages_def by blast
      with m Running Return out show ?thesis
        by (intro exI [of _ out2] exI [of _ "new @ new2"] exI [of _ w2])
          (auto simp: unless_exited_run stopped_at_right split: outcome.splits process.splits)
    next
      case (Exited n msg e)
      with m Return out show ?thesis
        by (intro exI [of _ "Return (Exited n msg e)"] exI [of _ new] exI [of _ w'])
          (auto simp: unless_exited_run stopped_at_left)
    qed
  next
    case (Panicked p)
    with m out show ?thesis
      by (intro exI [of _ "Panicked p"] exI [of _ new] exI [of _ w'])
        (auto simp: unless_exited_run stopped_at_left)
  qed (use out in simp)
qed

definition setup_order :: "(setup_step \<times> string option) list" where
  "setup_order =
    [(GetConfig, None), (NewManager, Some ''unable to start manager''),
     (ReadyzCheck, Some ''unable to create ready check''), (HealthzCheck, Some ''unable to create health check''),
     (NewCachingClient, Some ''unable to create secret caching client''),
     (NewTracker, Some ''unable to create cluster cache tracker''),
     (SyncController, Some ''unable to create EtcdSnapshotSyncReconciler''),
     (BackupController, Some ''unable to create EtcdMachineBackupReconciler''),
     (RestoreController, Some ''unable to create EtcdSnapshotReconciler''),
     (ConfigWebhook, Some ''unable to create webhook''), (StartManager, Some ''problem running manager'')]"

section \<open>Properties\<close>

text \<open>C26: The operator is put together in one order: the configuration of the cluster, the
  manager, its checks, the client and the tracker for the workload clusters, the three
  controllers, the webhook, and only then it is started. Whatever step fails, the process
  exits with code 1 and that step's message, and no later step is taken; where the
  configuration cannot be read, it ends as \<open>GetConfigOrDie\<close> ends it.\<close>

theorem main_in_order:
  "stages (main (traced_manager mgr) v) setup_order \<and>
   (case mgr_GetConfigOrDie mgr w of
      (Exited n msg e, w') \<Rightarrow> main mgr v w = (Return (Exited n msg e), w')
    | (Running config, w') \<Rightarrow> True)"
proof
  note single = stages_or_exit
  let ?checks = "[(ReadyzCheck, Some ''unable to create ready check'')] @ [(HealthzCheck, Some ''unable to create health check'')]"
  let ?reconcilers = "[(NewCachingClient, Some ''unable to create secret caching client'')] @
       [(NewTracker, Some ''unable to create cluster cache tracker'')] @
       [(SyncController, Some ''unable to create EtcdSnapshotSyncReconciler'')] @
       [(BackupController, Some ''unable to create EtcdMachineBackupReconciler'')] @
       [(RestoreController, Some ''unable to create EtcdSnapshotReconciler'')]"
  have sync: "SetupWithManager_sync (traced_manager mgr) t = traced SyncController (SetupWithManager_sync mgr t)" for t
    by (rule ext) (auto simp: SetupWithManager_sync_def traced_manager_def traced_def bind_err_def ret_def
        split: prod.split outcome.split)
  have checks: "stages (setupChecks (traced_manager mgr)) (?checks)"
    unfolding setupChecks_def traced_manager_def manager.simps
    by (intro stages_unless_exited single)
  have reconcilers: "stages (setupReconcilers (traced_manager mgr)) (?reconcilers)"
    unfolding setupReconcilers_def sync
    by (intro stages_unless_exited)
      (simp_all add: traced_manager_def SetupWithManager_backup_def SetupWithManager_restore_def single)
  have "stages (main (traced_manager mgr) v)
      ([(GetConfig, None)] @ [(NewManager, Some ''unable to start manager'')] @ (?checks) @ (?reconcilers) @ [(ConfigWebhook, Some ''unable to create webhook'')] @
       [(StartManager, Some ''problem running manager'')])"
    unfolding main_def
    by (intro stages_unless_exited checks reconcilers)
      (simp_all add: stages_or_die traced_manager_def setupWebhooks_def SetupWebhookWithManager_def single)
  then show "stages (main (traced_manager mgr) v) setup_order" by (simp add: setup_order_def)
  show "case mgr_GetConfigOrDie mgr w of
      (Exited n msg e, w') \<Rightarrow> main mgr v w = (Return (Exited n msg e), w')
    | (Running config, w') \<Rightarrow> True"
    by (auto simp: main_def or_die_def unless_exited_run split: prod.split process.split)
qed

text \<open>C35: Five of the flags do nothing: whatever is given for the watch filter, the profiler
  address, the concurrency, the Rancher kubeconfig and the TLS check, the operator starts in
  the same way.\<close>

theorem flags_without_effect:
  "main mgr (v\<lparr>watchFilterValue := watch, profilerAddress := profiler, concurrencyNumber := n,
     rancherKubeconfig := kubeconfig, insecureSkipVerify := skip\<rparr>) = main mgr v"
  by (simp add: main_def manager_options_of_def)

end
