(* ===== verification/Install_Run.thy ===== *)
theory Install_Run
  imports Install_Script
begin

text \<open>
  What the install script does when it is run: the two download loops and the commands around
  them. \<open>curl\<close>, \<open>sleep\<close>, the environment and the commands the script calls are parameters
  on an arbitrary state; the arithmetic of the shell is on integers.
\<close>

section \<open>The download loops\<close>

text \<open>
  What a loop prints. A download succeeds when \<open>curl\<close> exits with 0 and leaves a file that is
  not empty.
\<close>

datatype echo = Attempt int string | Line string

record 'w shell =
  sh_curl :: "'w \<Rightarrow> bool \<times> 'w"
  sh_sleep :: "'w \<Rightarrow> 'w"

record download =
  dl_what :: string
  dl_done :: string
  dl_retry :: string
  dl_failed :: string

text \<open>\<open>while [ $RETRY_COUNT -gt 0 ] && [ "$DOWNLOAD_SUCCESS" = false ]; do ... done\<close>.\<close>

function download_loop ::
  "'w shell \<Rightarrow> download \<Rightarrow> int \<Rightarrow> bool \<Rightarrow> echo list \<Rightarrow> 'w \<Rightarrow> (int \<times> bool \<times> echo list) \<times> 'w" where
  "download_loop sh d retry_count success out w =
     (if retry_count > 0 \<and> \<not> success then
        let out1 = out @ [Attempt (4 - retry_count) (dl_what d)] in
        case sh_curl sh w of
          (True, w1) \<Rightarrow> download_loop sh d retry_count True (out1 @ [Line (dl_done d)]) w1
        | (False, w1) \<Rightarrow>
            download_loop sh d (retry_count - 1) False (out1 @ [Line (dl_retry d)]) (sh_sleep sh w1)
      else ((retry_count, success, out), w))"
  by pat_completeness auto

termination
  by (relation "measure (\<lambda>(sh, d, retry_count, success, out, w). 2 * nat retry_count + (if success then 0 else 1))") auto

declare download_loop.simps [simp del]

text \<open>The functions of the script: \<open>None\<close> goes on, \<open>Some 1\<close> exits.\<close>

definition run_download :: "'w shell \<Rightarrow> download \<Rightarrow> 'w \<Rightarrow> (nat option \<times> echo list) \<times> 'w" where
  "run_download sh d w = (case download_loop sh d 10 False [] w of
     ((retry_count, success, out), w') \<Rightarrow>
       if \<not> success then ((Some 1, out @ [Line (dl_failed d)]), w') else ((None, out), w'))"

definition agent_download :: download where
  "agent_download =
     \<lparr>dl_what = ''Rancher System Agent binary'',
      dl_done = ''Rancher System Agent binary downloaded successfully.'',
      dl_retry = ''Failed to download Rancher System Agent binary. Retrying...'',
      dl_failed = ''Failed to download Rancher System Agent binary after multiple attempts. Exiting.''\<rparr>"

definition certificates_download :: download where
  "certificates_download =
     \<lparr>dl_what = ''Certificates'',
      dl_done = ''Certificates downloaded successfully.'',
      dl_retry = ''Failed to download certificates. Retrying...'',
      dl_failed = ''Failed to download certificates after multiple attempts. Exiting.''\<rparr>"

text \<open>
  The other commands of the script, with what the shell makes of their arguments. A command
  leaves an exit status; the script is not told to stop at one that is not 0, and ends with
  the status of its last command.
\<close>

datatype command =
    Echo string
  | MakeTemp
  | ChmodAgent
  | WriteService
  | CreateEnvironment
  | AppendMatching string
  | AppendSetting string string
  | DaemonReload
  | EnableService
  | RestartService
  | RemoveRestartPending

record 'w host =
  host_exec :: "command \<Rightarrow> 'w \<Rightarrow> nat \<times> 'w"
  host_variable :: "string \<Rightarrow> 'w \<Rightarrow> string"

text \<open>
  The body of the loop over the proxy variables: a variable that is empty is looked for in
  the environment in any case of its letters.
\<close>

definition append_proxy :: "'w host \<Rightarrow> string \<Rightarrow> 'w \<Rightarrow> nat \<times> 'w" where
  "append_proxy sh i w = (let v = host_variable sh i w in
     if v = [] then host_exec sh (AppendMatching i) w else host_exec sh (AppendSetting i v) w)"

definition service_environment_file :: string where
  "service_environment_file = ''/etc/systemd/system/rancher-system-agent.env''"

definition install_service :: "'w host \<Rightarrow> ('w \<Rightarrow> nat \<times> 'w) list" where
  "install_service sh =
     [host_exec sh ChmodAgent,
      host_exec sh (Echo ''systemd: Creating service file''),
      host_exec sh WriteService,
      host_exec sh (Echo (''Creating environment file '' @ service_environment_file)),
      host_exec sh CreateEnvironment] @
     map (append_proxy sh) [''HTTP_PROXY'', ''HTTPS_PROXY'', ''NO_PROXY''] @
     [host_exec sh DaemonReload,
      host_exec sh (Echo ''Enabling rancher-system-agent.service''),
      host_exec sh EnableService,
      host_exec sh (Echo ''Starting/restarting rancher-system-agent.service''),
      host_exec sh RestartService,
      host_exec sh RemoveRestartPending]"

text \<open>Commands one after the other: the status is that of the last.\<close>

fun in_order :: "('w \<Rightarrow> nat \<times> 'w) list \<Rightarrow> nat \<Rightarrow> 'w \<Rightarrow> nat \<times> 'w" where
  "in_order [] status w = (status, w)"
| "in_order (cmd # cmds) status w = (case cmd w of (status', w') \<Rightarrow> in_order cmds status' w')"

definition run_install ::
  "'w host \<Rightarrow> 'w shell \<Rightarrow> 'w shell \<Rightarrow> 'w \<Rightarrow> (nat \<times> echo list) \<times> 'w" where
  "run_install sh certificates agent w =
     (case in_order [host_exec sh (Echo ''Downloading certificates''), host_exec sh MakeTemp] 0 w of (_, w0) \<Rightarrow>
     (case run_download certificates certificates_download w0 of
        ((Some n, out), w1) \<Rightarrow> ((n, out), w1)
      | ((None, out), w1) \<Rightarrow>
          (case run_download agent agent_download w1 of
             ((Some n, out'), w2) \<Rightarrow> ((n, out @ out'), w2)
           | ((None, out'), w2) \<Rightarrow>
               (case in_order (install_service sh) 0 w2 of (status, w3) \<Rightarrow> ((status, out @ out'), w3)))))"

section \<open>How often a download is tried\<close>

text \<open>The state before a try, counted from 0, and the first try that succeeds.\<close>

definition before_try :: "'w shell \<Rightarrow> nat \<Rightarrow> 'w \<Rightarrow> 'w" where
  "before_try sh i w = ((\<lambda>w. sh_sleep sh (snd (sh_curl sh w))) ^^ i) w"

definition succeeds :: "'w shell \<Rightarrow> 'w \<Rightarrow> nat \<Rightarrow> bool" where
  "succeeds sh w i \<longleftrightarrow> fst (sh_curl sh (before_try sh i w))"

definition tries :: "echo list \<Rightarrow> int list" where
  "tries out = concat (map (\<lambda>e. case e of Attempt n s \<Rightarrow> [n] | Line s \<Rightarrow> []) out)"

lemma tries_simps [simp]:
  "tries (xs @ ys) = tries xs @ tries ys" "tries [Attempt n s] = [n]" "tries [Line s] = []" "tries [] = []"
  "tries [Attempt n s, Line l] = [n]"
  by (simp_all add: tries_def)

lemma before_try_Suc: "before_try sh (Suc i) w = before_try sh i (sh_sleep sh (snd (sh_curl sh w)))"
  by (simp add: before_try_def funpow_Suc_right del: funpow.simps)

lemma succeeds_0: "succeeds sh w 0 = fst (sh_curl sh w)"
  by (simp add: succeeds_def before_try_def)

lemma succeeds_Suc: "succeeds sh w (Suc i) = succeeds sh (sh_sleep sh (snd (sh_curl sh w))) i"
  by (simp add: succeeds_def before_try_Suc)

lemma find_upt_Suc:
  "find P [0..<Suc n] = (if P 0 then Some 0 else map_option Suc (find (\<lambda>i. P (Suc i)) [0..<n]))"
proof -
  have "find P (map Suc xs) = map_option Suc (find (\<lambda>i. P (Suc i)) xs)" for xs
    by (induction xs) auto
  then show ?thesis by (simp only: upt_conv_Cons [OF zero_less_Suc] map_Suc_upt [symmetric] find.simps)
qed

lemma download_loop_tries:
  "download_loop sh d (int n) False out w = (r, w') \<Longrightarrow>
     (case (r, find (succeeds sh w) [0..<n]) of
        ((rc, success, out'), None) \<Rightarrow> \<not> success \<and> rc = 0 \<and> w' = before_try sh n w
          \<and> tries out' = tries out @ map (\<lambda>i. 4 - int n + int i) [0..<n]
      | ((rc, success, out'), Some k) \<Rightarrow> success \<and> rc = int n - int k \<and> w' = snd (sh_curl sh (before_try sh k w))
          \<and> tries out' = tries out @ map (\<lambda>i. 4 - int n + int i) [0..<Suc k])"
proof (induction n arbitrary: out w r w')
  case 0
  then show ?case by (auto simp: download_loop.simps before_try_def)
next
  case (Suc n)
  obtain ok w1 where curl: "sh_curl sh w = (ok, w1)" by fastforce
  show ?case
  proof (cases ok)
    case True
    with Suc.prems curl have "r = (int (Suc n), True, (out @ [Attempt (4 - int (Suc n)) (dl_what d)]) @ [Line (dl_done d)])"
      "w' = w1"
      by (simp_all add: download_loop.simps Let_def)
    with True curl show ?thesis
      by (simp add: find_upt_Suc succeeds_0 before_try_def del: upt_Suc) simp
  next
    case False
    let ?out = "(out @ [Attempt (4 - int (Suc n)) (dl_what d)]) @ [Line (dl_retry d)]"
    from Suc.prems curl False have "download_loop sh d (int n) False ?out (sh_sleep sh w1) = (r, w')"
      by (subst (asm) download_loop.simps) (simp add: Let_def)
    note IH = Suc.IH [OF this]
    have shift: "(4 - int (Suc n)) # map (\<lambda>i. 4 - int n + int i) [0..<k] = map (\<lambda>i. 4 - int (Suc n) + int i) [0..<Suc k]" for k
      by (simp only: upt_conv_Cons [OF zero_less_Suc] map_Suc_upt [symmetric]) simp
    show ?thesis
      using IH shift [of n] shift curl False
      by (auto simp: find_upt_Suc succeeds_0 succeeds_Suc before_try_Suc split: option.splits prod.splits
          simp del: upt_Suc)
  qed
qed

lemma find_upt_less: "find P [0..<n] = Some k \<Longrightarrow> k < n"
  by (auto simp: find_Some_iff)

lemma run_download_tries:
  "case (run_download sh d w, find (succeeds sh w) [0..<10]) of
     (((exit, out), w'), None) \<Rightarrow> exit = Some 1 \<and> w' = before_try sh 10 w \<and> tries out = map (\<lambda>i. int i - 6) [0..<10]
   | (((exit, out), w'), Some k) \<Rightarrow> exit = None \<and> w' = snd (sh_curl sh (before_try sh k w))
       \<and> tries out = map (\<lambda>i. int i - 6) [0..<Suc k]"
proof -
  obtain rc success out w' where run: "download_loop sh d 10 False [] w = ((rc, success, out), w')"
    by (metis prod_cases3 surj_pair)
  then have "download_loop sh d (int 10) False [] w = ((rc, success, out), w')" by simp
  from download_loop_tries [OF this] show ?thesis
    by (auto simp: run_download_def run split: option.splits simp del: upt_Suc)
qed

section \<open>Properties\<close>

text \<open>C33: Each download ends, after at most ten tries: the script goes on after the first try
  that succeeds, and exits with code 1 when none of ten did.\<close>

theorem download_ends:
  "case run_download sh d w of ((exit, out), w') \<Rightarrow>
     length (tries out) \<le> 10 \<and>
     (case find (succeeds sh w) [0..<10] of
        None \<Rightarrow> exit = Some 1 \<and> w' = before_try sh 10 w
      | Some k \<Rightarrow> exit = None \<and> w' = snd (sh_curl sh (before_try sh k w)) \<and> length (tries out) = Suc k)"
  using run_download_tries [where sh = sh and d = d and w = w] find_upt_less [of "succeeds sh w" 10]
  by (cases "find (succeeds sh w) [0..<10]") (auto split: prod.splits simp del: upt_Suc)

lemma in_order_append:
  "in_order (cmds @ [cmd]) status w = cmd (fold (\<lambda>cmd w. snd (cmd w)) cmds w)"
  by (induction cmds arbitrary: status w) (auto split: prod.split)

lemma in_order_install:
  "in_order (install_service sh) status w =
     host_exec sh RemoveRestartPending (fold (\<lambda>cmd w. snd (cmd w)) (butlast (install_service sh)) w)"
proof -
  have "install_service sh = butlast (install_service sh) @ [host_exec sh RemoveRestartPending]"
    by (simp add: install_service_def)
  then show ?thesis by (metis in_order_append)
qed

lemma run_download_result:
  "\<exists>out. run_download sh d w = (case find (succeeds sh w) [0..<10] of
     None \<Rightarrow> ((Some 1, out), before_try sh 10 w)
   | Some k \<Rightarrow> ((None, out), snd (sh_curl sh (before_try sh k w))))"
  using run_download_tries [where sh = sh and d = d and w = w]
  by (cases "run_download sh d w") (auto split: option.splits)

lemma upto_six: "map (\<lambda>i. int i - 6) [0..<Suc k] = [-6..int k - 6]"
proof (induction k)
  case (Suc k)
  have "[-6..int (Suc k) - 6] = [-6..int k - 6] @ [int (Suc k) - 6]"
    using upto_rec2 [of "-6" "int (Suc k) - 6"] by simp
  with Suc show ?case by simp
qed simp

text \<open>C36: The number a loop prints for a try is wrong: it is computed for three retries while
  the loops make ten, so the tries are numbered from -6, up to 3 when none succeeds, and
  up to \<open>k - 6\<close> when the first that succeeds is the one after \<open>k\<close> failures.\<close>

theorem download_attempts_misnumbered:
  "case run_download sh d w of ((exit, out), w') \<Rightarrow>
     tries out = [-6..(case find (succeeds sh w) [0..<10] of None \<Rightarrow> 3 | Some k \<Rightarrow> int k - 6)]"
proof -
  have "tries out = [-6..(case find (succeeds sh w) [0..<10] of None \<Rightarrow> 3 | Some k \<Rightarrow> int k - 6)]"
    if "run_download sh d w = ((exit, out), w')" for exit out w'
    using run_download_tries [where sh = sh and d = d and w = w] that upto_six [of 9]
    by (cases "find (succeeds sh w) [0..<10]") (simp_all add: upto_six del: upt_Suc)
  then show ?thesis by (auto split: prod.split)
qed

text \<open>C34: The agent's service is installed and started only when both the certificates and
  the agent were downloaded. When one of ten tries for the certificates, and then one of ten
  for the agent, succeeds, the commands that install and start the service run in their
  order from there, whatever they return, and the exit code is that of the last of them,
  which removes the restart marker. Otherwise the script exits with code 1, in the state
  the tries left: no other command has run.\<close>

theorem install_needs_downloads:
  "case run_install sh certificates agent w of ((code, out), w') \<Rightarrow>
     (let w0 = snd (host_exec sh MakeTemp (snd (host_exec sh (Echo ''Downloading certificates'') w))) in
      case find (succeeds certificates w0) [0..<10] of
        None \<Rightarrow> code = 1 \<and> w' = before_try certificates 10 w0
      | Some k \<Rightarrow>
          (let w1 = snd (sh_curl certificates (before_try certificates k w0)) in
           case find (succeeds agent w1) [0..<10] of
             None \<Rightarrow> code = 1 \<and> w' = before_try agent 10 w1
           | Some j \<Rightarrow> (code, w') = host_exec sh RemoveRestartPending
               (fold (\<lambda>cmd w. snd (cmd w)) (butlast (install_service sh)) (snd (sh_curl agent (before_try agent j w1))))))"
proof -
  define w0 where "w0 = snd (host_exec sh MakeTemp (snd (host_exec sh (Echo ''Downloading certificates'') w)))"
  have first: "in_order [host_exec sh (Echo ''Downloading certificates''), host_exec sh MakeTemp] 0 w =
      (fst (host_exec sh MakeTemp (snd (host_exec sh (Echo ''Downloading certificates'') w))), w0)"
    by (simp add: w0_def split: prod.split)
  obtain out where run: "run_download certificates certificates_download w0 =
      (case find (succeeds certificates w0) [0..<10] of None \<Rightarrow> ((Some 1, out), before_try certificates 10 w0)
       | Some k \<Rightarrow> ((None, out), snd (sh_curl certificates (before_try certificates k w0))))"
    using run_download_result [of certificates certificates_download w0] by (elim exE)
  have "\<exists>out. run_download agent agent_download w1 =
      (case find (succeeds agent w1) [0..<10] of None \<Rightarrow> ((Some 1, out), before_try agent 10 w1)
       | Some k \<Rightarrow> ((None, out), snd (sh_curl agent (before_try agent k w1))))" for w1
    by (rule run_download_result)
  then obtain out2 where run2: "run_download agent agent_download w1 =
      (case find (succeeds agent w1) [0..<10] of None \<Rightarrow> ((Some 1, out2 w1), before_try agent 10 w1)
       | Some k \<Rightarrow> ((None, out2 w1), snd (sh_curl agent (before_try agent k w1))))" for w1
    by metis
  show ?thesis
    unfolding run_install_def first w0_def [symmetric] Let_def prod.case run
    by (cases "find (succeeds certificates w0) [0..<10]")
      (simp_all add: run2 in_order_install split: option.split prod.split)
qed

end
