(* ===== verification/Deep_Copy.thy ===== *)
theory Deep_Copy
  imports Api_Types
begin

text \<open>
  \<open>api/v1alpha1/zz_generated.deepcopy.go\<close>: copying the objects of the API with everything
  they point to. The memory is explicit here: a nil slice is \<open>None\<close>, another one the address
  of its array, so that what is shared and what is not can be said. The copying of
  \<open>metav1.ObjectMeta\<close> and \<open>metav1.ListMeta\<close> is a parameter with the laws of such a copy.
\<close>

section \<open>Memory\<close>

record 'c heap =
  hp_cell :: "nat \<Rightarrow> 'c option"
  hp_next :: nat

definition wf_heap :: "'c heap \<Rightarrow> bool" where
  "wf_heap h \<longleftrightarrow> (\<forall>a. hp_next h \<le> a \<longrightarrow> hp_cell h a = None)"

text \<open>A heap that has grown: the cells there were are the same.\<close>

instantiation heap_ext :: (type, type) preorder
begin

definition less_eq_heap_ext :: "('c, 'z) heap_scheme \<Rightarrow> ('c, 'z) heap_scheme \<Rightarrow> bool" where
  "less_eq_heap_ext h h' \<longleftrightarrow> hp_next h \<le> hp_next h' \<and> (\<forall>a. a < hp_next h \<longrightarrow> hp_cell h' a = hp_cell h a)"

definition less_heap_ext :: "('c, 'z) heap_scheme \<Rightarrow> ('c, 'z) heap_scheme \<Rightarrow> bool" where
  "less_heap_ext h h' \<longleftrightarrow> h \<le> h' \<and> \<not> h' \<le> h"

instance
proof
  show "h1 \<le> h3" if "h1 \<le> h2" and "h2 \<le> h3" for h1 h2 h3 :: "('c, 'z) heap_ext"
    using that unfolding less_eq_heap_ext_def by (metis le_trans less_le_trans)
qed (simp_all add: less_heap_ext_def less_eq_heap_ext_def)

end

lemmas heap_le_def = less_eq_heap_ext_def

text \<open>A heap that still has the cells allocated from \<open>n\<close> on in \<open>h'\<close>, whatever else changed.\<close>

definition keeps_from :: "nat \<Rightarrow> 'c heap \<Rightarrow> 'c heap \<Rightarrow> bool" where
  "keeps_from n h' g \<longleftrightarrow> hp_next h' \<le> hp_next g \<and>
     (\<forall>a. n \<le> a \<and> a < hp_next h' \<longrightarrow> hp_cell g a = hp_cell h' a)"

definition alloc :: "'c \<Rightarrow> 'c heap \<Rightarrow> nat \<times> 'c heap" where
  "alloc c h = (hp_next h, h\<lparr>hp_cell := (hp_cell h)(hp_next h \<mapsto> c), hp_next := Suc (hp_next h)\<rparr>)"

definition store_cell :: "nat \<Rightarrow> 'c \<Rightarrow> 'c heap \<Rightarrow> 'c heap" where
  "store_cell a c h = h\<lparr>hp_cell := (hp_cell h)(a \<mapsto> c)\<rparr>"

section \<open>What a deep copy promises\<close>

text \<open>
  A copy leaves the memory there was; what it made reads as the original did, in every heap
  that keeps the new cells, so whatever is written through the original later.
\<close>

locale deep_copy =
  fixes valid :: "'c heap \<Rightarrow> 's \<Rightarrow> bool"
    and read :: "'c heap \<Rightarrow> 's \<Rightarrow> 'v"
    and cp :: "'s \<Rightarrow> 'c heap \<Rightarrow> 's \<times> 'c heap"
  assumes grown: "valid h s \<Longrightarrow> h \<le> h' \<Longrightarrow> valid h' s \<and> read h' s = read h s"
    and copied: "wf_heap h \<Longrightarrow> valid h s \<Longrightarrow> cp s h = (s', h') \<Longrightarrow>
      wf_heap h' \<and> h \<le> h' \<and> (\<forall>g. keeps_from (hp_next h) h' g \<longrightarrow> valid g s' \<and> read g s' = read h s)"

section \<open>Slices\<close>

text \<open>
  \<open>if in.F != nil { *out = make([]T, len( *in)); for i := range *in { ( *in)[i].DeepCopyInto(&( *out)[i]) } }\<close>,
  where \<open>mk\<close> and \<open>dest\<close> say how an array of the element type is a cell.
\<close>

definition array_at :: "('c \<Rightarrow> 'e list option) \<Rightarrow> 'c heap \<Rightarrow> nat \<Rightarrow> 'e list option" where
  "array_at dest h a = Option.bind (hp_cell h a) dest"

definition copy_element ::
  "('e list \<Rightarrow> 'c) \<Rightarrow> ('c \<Rightarrow> 'e list option) \<Rightarrow> ('e \<Rightarrow> 'c heap \<Rightarrow> 'e \<times> 'c heap) \<Rightarrow> nat \<Rightarrow> nat \<Rightarrow> nat \<Rightarrow>
   'c heap \<Rightarrow> 'c heap" where
  "copy_element mk dest cp a b i h =
     (case array_at dest h a of
        None \<Rightarrow> h
      | Some xs \<Rightarrow>
          (case cp (xs ! i) h of (x, h') \<Rightarrow>
             (case array_at dest h' b of
                None \<Rightarrow> h'
              | Some ys \<Rightarrow> store_cell b (mk (ys[i := x])) h')))"

definition copy_slice ::
  "('e list \<Rightarrow> 'c) \<Rightarrow> ('c \<Rightarrow> 'e list option) \<Rightarrow> 'e \<Rightarrow> ('e \<Rightarrow> 'c heap \<Rightarrow> 'e \<times> 'c heap) \<Rightarrow> nat option \<Rightarrow>
   'c heap \<Rightarrow> nat option \<times> 'c heap" where
  "copy_slice mk dest zero cp slice h =
     (case slice of
        None \<Rightarrow> (None, h)
      | Some a \<Rightarrow>
          (case array_at dest h a of
             None \<Rightarrow> (None, h)
           | Some xs \<Rightarrow>
               (case alloc (mk (replicate (length xs) zero)) h of (b, h1) \<Rightarrow>
                  (Some b, fold (copy_element mk dest cp a b) [0..<length xs] h1))))"

definition valid_slice ::
  "('c \<Rightarrow> 'e list option) \<Rightarrow> ('c heap \<Rightarrow> 'e \<Rightarrow> bool) \<Rightarrow> 'c heap \<Rightarrow> nat option \<Rightarrow> bool" where
  "valid_slice dest valid h slice \<longleftrightarrow> (case slice of
     None \<Rightarrow> True
   | Some a \<Rightarrow> a < hp_next h \<and> (case array_at dest h a of None \<Rightarrow> False | Some xs \<Rightarrow> list_all (valid h) xs))"

definition read_slice ::
  "('c \<Rightarrow> 'e list option) \<Rightarrow> ('c heap \<Rightarrow> 'e \<Rightarrow> 'v) \<Rightarrow> 'c heap \<Rightarrow> nat option \<Rightarrow> 'v list option" where
  "read_slice dest read h slice = (case slice of
     None \<Rightarrow> None
   | Some a \<Rightarrow> map_option (map (read h)) (array_at dest h a))"

context deep_copy begin

text \<open>The state of the loop after \<open>k\<close> elements.\<close>

lemma copy_elements:
  assumes h: "wf_heap h" "a < hp_next h" "array_at dest h a = Some xs" "list_all (valid h) xs"
    and dest: "\<And>ys. dest (mk ys) = Some ys" and k: "k \<le> length xs"
    and start: "alloc (mk (replicate (length xs) zero)) h = (b, h1)"
  shows "\<exists>hk ys. fold (copy_element mk dest cp a b) [0..<k] h1 = hk \<and> wf_heap hk \<and> h \<le> hk \<and> b < hp_next hk \<and>
    hp_cell hk b = Some (mk ys) \<and> length ys = length xs \<and>
    (\<forall>j<k. \<forall>g. keeps_from (Suc b) hk g \<longrightarrow> valid g (ys ! j) \<and> read g (ys ! j) = read h (xs ! j))"
  using k
proof (induction k)
  case 0
  from start have b: "b = hp_next h" by (simp add: alloc_def)
  show ?case
    using h(1) start
    by (intro exI [of _ h1] exI [of _ "replicate (length xs) zero"])
      (auto simp: alloc_def wf_heap_def heap_le_def)
next
  case (Suc k)
  then obtain hk ys where run: "fold (copy_element mk dest cp a b) [0..<k] h1 = hk"
    and hk: "wf_heap hk" "h \<le> hk" "b < hp_next hk" "hp_cell hk b = Some (mk ys)" "length ys = length xs"
    and before: "\<And>j g. j < k \<Longrightarrow> keeps_from (Suc b) hk g \<Longrightarrow> valid g (ys ! j) \<and> read g (ys ! j) = read h (xs ! j)"
    by auto
  from start have b: "b = hp_next h" by (simp add: alloc_def)
  have xs: "array_at dest hk a = Some xs"
    using h(2,3) hk(2) by (simp add: array_at_def heap_le_def)
  have "valid h (xs ! k)" using h(4) Suc.prems by (simp add: list_all_length)
  then have elem: "valid hk (xs ! k)" "read hk (xs ! k) = read h (xs ! k)" using grown hk(2) by blast+
  obtain x h' where cp: "cp (xs ! k) hk = (x, h')" by fastforce
  from copied [OF hk(1) elem(1) cp] have h': "wf_heap h'" "hk \<le> h'"
    and x: "\<And>g. keeps_from (hp_next hk) h' g \<Longrightarrow> valid g x \<and> read g x = read hk (xs ! k)" by auto
  let ?h = "store_cell b (mk (ys[k := x])) h'"
  have "array_at dest h' b = Some ys" using h'(2) hk(3,4) dest by (simp add: array_at_def heap_le_def)
  with xs cp have step: "copy_element mk dest cp a b k hk = ?h" by (simp add: copy_element_def)
  have next': "hp_next hk \<le> hp_next h'" using h'(2) by (simp add: heap_le_def)
  have "valid g (ys[k := x] ! j) \<and> read g (ys[k := x] ! j) = read h (xs ! j)"
    if j: "j < Suc k" and g: "keeps_from (Suc b) ?h g" for j g
  proof (cases "j = k")
    case True
    have "keeps_from (hp_next hk) h' g"
      using g hk(3) by (auto simp: keeps_from_def store_cell_def)
    with x elem(2) True Suc.prems hk(5) show ?thesis by simp
  next
    case False
    have "keeps_from (Suc b) hk g"
      using g h'(2) next' by (auto simp: keeps_from_def store_cell_def heap_le_def)
    with before False j show ?thesis by simp
  qed
  moreover have "wf_heap ?h" "h \<le> ?h" "b < hp_next ?h"
    using h' hk(2,3) next' b order_trans [OF hk(2) h'(2)] by (auto simp: wf_heap_def heap_le_def store_cell_def)
  ultimately show ?case
    using run step hk(5) by (intro exI [of _ ?h] exI [of _ "ys[k := x]"]) (simp add: store_cell_def)
qed

lemma slice_copied:
  assumes dest: "\<And>ys. dest (mk ys) = Some ys"
  shows "deep_copy (valid_slice dest valid) (read_slice dest read) (copy_slice mk dest zero cp)"
proof
  show "valid_slice dest valid h' s \<and> read_slice dest read h' s = read_slice dest read h s"
    if v: "valid_slice dest valid h s" and e: "h \<le> h'" for h s h'
  proof (cases s)
    case (Some a)
    with v obtain xs where a: "a < hp_next h" "array_at dest h a = Some xs" "list_all (valid h) xs"
      by (auto simp: valid_slice_def split: option.splits)
    with e have "a < hp_next h'" "array_at dest h' a = Some xs" by (auto simp: heap_le_def array_at_def)
    with a Some show ?thesis
      using grown [OF _ e] by (auto simp: valid_slice_def read_slice_def list_all_iff)
  qed (simp add: valid_slice_def read_slice_def)
next
  fix h s s' h'
  assume wf: "wf_heap h" and v: "valid_slice dest valid h s" and run: "copy_slice mk dest zero cp s h = (s', h')"
  show "wf_heap h' \<and> h \<le> h' \<and> (\<forall>g. keeps_from (hp_next h) h' g \<longrightarrow>
      valid_slice dest valid g s' \<and> read_slice dest read g s' = read_slice dest read h s)"
  proof (cases s)
    case None
    with run wf show ?thesis by (simp add: copy_slice_def valid_slice_def read_slice_def)
  next
    case (Some a)
    with v obtain xs where a: "a < hp_next h" "array_at dest h a = Some xs" "list_all (valid h) xs"
      by (auto simp: valid_slice_def split: option.splits)
    obtain b h1 where start: "alloc (mk (replicate (length xs) zero)) h = (b, h1)" by fastforce
    then have b: "b = hp_next h" by (simp add: alloc_def)
    from copy_elements [OF wf a dest le_refl start] obtain ys where
      ys: "wf_heap h'" "h \<le> h'" "b < hp_next h'" "hp_cell h' b = Some (mk ys)" "length ys = length xs"
      "\<And>j g. j < length xs \<Longrightarrow> keeps_from (Suc b) h' g \<Longrightarrow> valid g (ys ! j) \<and> read g (ys ! j) = read h (xs ! j)"
      and s': "s' = Some b"
      using run Some a(2) start by (auto simp: copy_slice_def)
    have "valid_slice dest valid g s' \<and> read_slice dest read g s' = read_slice dest read h s"
      if g: "keeps_from (hp_next h) h' g" for g
    proof -
      have "hp_cell g b = Some (mk ys)" "b < hp_next g" "keeps_from (Suc b) h' g"
        using g ys(3,4) b by (auto simp: keeps_from_def)
      with ys(5,6) s' Some a(2) dest show ?thesis
        by (auto simp: valid_slice_def read_slice_def array_at_def list_all_length intro: nth_equalityI)
    qed
    with ys(1,2) show ?thesis by blast
  qed
qed

end

section \<open>Pointers\<close>

text \<open>
  \<open>if in == nil { return nil }; out := new(T); in.DeepCopyInto(out); return out\<close>: the new
  struct is a cell of its own, zero until \<open>DeepCopyInto\<close> has filled it.
\<close>

definition DeepCopy ::
  "('s \<Rightarrow> 'c) \<Rightarrow> ('c \<Rightarrow> 's option) \<Rightarrow> 's \<Rightarrow> ('s \<Rightarrow> 'c heap \<Rightarrow> 's \<times> 'c heap) \<Rightarrow> nat option \<Rightarrow>
   'c heap \<Rightarrow> nat option \<times> 'c heap" where
  "DeepCopy mk dest zero into p h =
     (case p of
        None \<Rightarrow> (None, h)
      | Some a \<Rightarrow>
          (case alloc (mk zero) h of (b, h1) \<Rightarrow>
             (case Option.bind (hp_cell h1 a) dest of
                None \<Rightarrow> (Some b, h1)
              | Some s \<Rightarrow>
                  (case into s h1 of (s', h2) \<Rightarrow> (Some b, store_cell b (mk s') h2)))))"

definition valid_ptr :: "('c \<Rightarrow> 's option) \<Rightarrow> ('c heap \<Rightarrow> 's \<Rightarrow> bool) \<Rightarrow> 'c heap \<Rightarrow> nat option \<Rightarrow> bool" where
  "valid_ptr dest valid h p \<longleftrightarrow> (case p of
     None \<Rightarrow> True
   | Some a \<Rightarrow> a < hp_next h \<and> (case Option.bind (hp_cell h a) dest of None \<Rightarrow> False | Some s \<Rightarrow> valid h s))"

definition read_ptr :: "('c \<Rightarrow> 's option) \<Rightarrow> ('c heap \<Rightarrow> 's \<Rightarrow> 'v) \<Rightarrow> 'c heap \<Rightarrow> nat option \<Rightarrow> 'v option" where
  "read_ptr dest read h p = (case p of
     None \<Rightarrow> None
   | Some a \<Rightarrow> map_option (read h) (Option.bind (hp_cell h a) dest))"

context deep_copy begin

lemma pointer_copied:
  assumes dest: "\<And>s. dest (mk s) = Some s"
  shows "deep_copy (valid_ptr dest valid) (read_ptr dest read) (DeepCopy mk dest zero cp)"
proof (unfold_locales, goal_cases)
  case (1 h p h')
  show ?case
  proof (cases p)
    case (Some a)
    with 1(1) obtain s where s: "a < hp_next h" "Option.bind (hp_cell h a) dest = Some s" "valid h s"
      by (auto simp: valid_ptr_def split: option.splits)
    with 1(2) have "a < hp_next h'" "Option.bind (hp_cell h' a) dest = Some s" by (auto simp: heap_le_def)
    with s Some grown [OF s(3) 1(2)] show ?thesis by (simp add: valid_ptr_def read_ptr_def)
  qed (simp add: valid_ptr_def read_ptr_def)
next
  case (2 h p p' h')
  show ?case
  proof (cases p)
    case None
    with 2 show ?thesis by (simp add: DeepCopy_def valid_ptr_def read_ptr_def)
  next
    case (Some a)
    with 2(2) obtain s where s: "a < hp_next h" "Option.bind (hp_cell h a) dest = Some s" "valid h s"
      by (auto simp: valid_ptr_def split: option.splits)
    obtain b h1 where new: "alloc (mk zero) h = (b, h1)" by fastforce
    then have h1: "b = hp_next h" "wf_heap h1" "h \<le> h1" "hp_next h1 = Suc b"
      using 2(1) by (auto simp: alloc_def wf_heap_def heap_le_def)
    then have s1: "Option.bind (hp_cell h1 a) dest = Some s" "valid h1 s" "read h1 s = read h s"
      using s grown [OF s(3) h1(3)] by (simp_all add: heap_le_def)
    obtain s' h2 where cp: "cp s h1 = (s', h2)" by fastforce
    from copied [OF h1(2) s1(2) cp] have h2: "wf_heap h2" "h1 \<le> h2"
      and s': "\<And>g. keeps_from (hp_next h1) h2 g \<Longrightarrow> valid g s' \<and> read g s' = read h s" using s1(3) by auto
    have p': "p' = Some b" "h' = store_cell b (mk s') h2"
      using 2(3) Some new s1(1) cp by (simp_all add: DeepCopy_def)
    have next': "b < hp_next h2" using h2(2) h1(4) by (auto simp: heap_le_def)
    have "valid_ptr dest valid g p' \<and> read_ptr dest read g p' = read_ptr dest read h p"
      if g: "keeps_from (hp_next h) h' g" for g
    proof -
      have "hp_cell g b = Some (mk s')" "b < hp_next g" "keeps_from (hp_next h1) h2 g"
        using g next' h1(1,4) by (auto simp: keeps_from_def p' store_cell_def)
      with s' s(2) Some dest show ?thesis by (simp add: valid_ptr_def read_ptr_def p')
    qed
    moreover have "wf_heap h'" "h \<le> h'"
      using h2(1) next' order_trans [OF h1(3) h2(2)] h1(1) by (auto simp: p' store_cell_def wf_heap_def heap_le_def)
    ultimately show ?thesis by blast
  qed
qed

end

text \<open>The copy of a pointer that is not nil is a new one.\<close>

lemma DeepCopy_fresh:
  "\<exists>b h'. DeepCopy mk dest zero into (Some a) h = (Some b, h') \<and> hp_next h \<le> b"
  by (auto simp: DeepCopy_def alloc_def split: option.split prod.split)

section \<open>Putting copies together\<close>

lemma deep_copy_pair:
  assumes "deep_copy v1 r1 c1" and "deep_copy v2 r2 c2"
  shows "deep_copy (\<lambda>h (x, y). v1 h x \<and> v2 h y) (\<lambda>h (x, y). (r1 h x, r2 h y))
    (\<lambda>(x, y) h. case c1 x h of (x', h1) \<Rightarrow> (case c2 y h1 of (y', h2) \<Rightarrow> ((x', y'), h2)))"
proof (unfold_locales, goal_cases)
  case (1 h s h')
  then show ?case using deep_copy.grown [OF assms(1)] deep_copy.grown [OF assms(2)] by (cases s) auto
next
  case (2 h s s' h')
  obtain x y where s: "s = (x, y)" by fastforce
  obtain x' h1 where c1: "c1 x h = (x', h1)" by fastforce
  obtain y' h2 where c2: "c2 y h1 = (y', h2)" by fastforce
  from 2 s c1 c2 have s': "s' = (x', y')" "h' = h2" and v: "v1 h x" "v2 h y" by auto
  from deep_copy.copied [OF assms(1) 2(1) v(1) c1] have h1: "wf_heap h1" "h \<le> h1"
    and x': "\<And>g. keeps_from (hp_next h) h1 g \<Longrightarrow> v1 g x' \<and> r1 g x' = r1 h x" by auto
  have y: "v2 h1 y" "r2 h1 y = r2 h y" using deep_copy.grown [OF assms(2) v(2) h1(2)] by auto
  from deep_copy.copied [OF assms(2) h1(1) y(1) c2] have h2: "wf_heap h2" "h1 \<le> h2"
    and y': "\<And>g. keeps_from (hp_next h1) h2 g \<Longrightarrow> v2 g y' \<and> r2 g y' = r2 h1 y" by auto
  have "v1 g x' \<and> r1 g x' = r1 h x \<and> v2 g y' \<and> r2 g y' = r2 h y" if g: "keeps_from (hp_next h) h2 g" for g
  proof -
    have "keeps_from (hp_next h) h1 g" "keeps_from (hp_next h1) h2 g"
      using g h1(2) h2(2) by (auto simp: keeps_from_def heap_le_def)
    from x' [OF this(1)] y' [OF this(2)] y(2) show ?thesis by simp
  qed
  with h2(1) order_trans [OF h1(2) h2(2)] show ?case by (simp add: s s')
qed

text \<open>A struct some of whose fields are copied and whose other fields are values.\<close>

lemma deep_copy_fields:
  assumes "deep_copy v r c" and "\<And>s p. get (put s p) = p" and "\<And>s p. rest (put s p) = rest s"
  shows "deep_copy (\<lambda>h s. v h (get s)) (\<lambda>h s. (rest s, r h (get s)))
    (\<lambda>s h. case c (get s) h of (p, h') \<Rightarrow> (put s p, h'))"
proof (unfold_locales, goal_cases)
  case (1 h s h')
  from deep_copy.grown [OF assms(1) 1] show ?case by simp
next
  case (2 h s s' h')
  obtain p h1 where c: "c (get s) h = (p, h1)" by fastforce
  with 2(3) have "s' = put s p" "h' = h1" by simp_all
  moreover from deep_copy.copied [OF assms(1) 2(1,2) c] have "wf_heap h1" "h \<le> h1"
    "\<And>g. keeps_from (hp_next h) h1 g \<Longrightarrow> v g p \<and> r g p = r h (get s)" by auto
  ultimately show ?case by (simp add: assms(2,3))
qed

section \<open>The structs of the API\<close>

record status_struct =
  ss_Phase :: ETCDSnapshotPhase
  ss_Conditions :: "nat option"

record 'm restore_struct =
  rs_TypeMeta :: "string \<times> string"
  rs_ObjectMeta :: 'm
  rs_Spec :: ETCDSnapshotSpec
  rs_Status :: status_struct

record backup_status_struct =
  bss_Conditions :: "nat option"

record 'm backup_struct =
  bs_TypeMeta :: "string \<times> string"
  bs_ObjectMeta :: 'm
  bs_Spec :: EtcdMachineBackupSpec
  bs_Status :: backup_status_struct

record 'l list_struct =
  ls_TypeMeta :: "string \<times> string"
  ls_ListMeta :: 'l
  ls_Items :: "nat option"

type_synonym 'l ETCDSnapshotRestoreList = "'l list_struct"

type_synonym 'l EtcdMachineBackupList = "'l list_struct"

text \<open>What is in memory: the structs, the arrays of conditions and items, and what the metadata points to.\<close>

datatype ('m, 'l, 'x) api_cell =
    ARestore "'m restore_struct"
  | ARestoreList "'l list_struct"
  | ARestoreSpec ETCDSnapshotSpec
  | ARestoreStatus status_struct
  | ABackup "'m backup_struct"
  | ABackupList "'l list_struct"
  | ABackupSpec EtcdMachineBackupSpec
  | ABackupStatus backup_status_struct
  | ConditionArray "condition list"
  | RestoreArray "'m restore_struct list"
  | BackupArray "'m backup_struct list"
  | OtherCell 'x

fun conditions_of :: "('m, 'l, 'x) api_cell \<Rightarrow> condition list option" where
  "conditions_of (ConditionArray cs) = Some cs" | "conditions_of _ = None"

fun restores_of :: "('m, 'l, 'x) api_cell \<Rightarrow> 'm restore_struct list option" where
  "restores_of (RestoreArray rs) = Some rs" | "restores_of _ = None"

fun backups_of :: "('m, 'l, 'x) api_cell \<Rightarrow> 'm backup_struct list option" where
  "backups_of (BackupArray bs) = Some bs" | "backups_of _ = None"

fun a_restore :: "('m, 'l, 'x) api_cell \<Rightarrow> 'm restore_struct option" where
  "a_restore (ARestore s) = Some s" | "a_restore _ = None"

fun a_restoreList :: "('m, 'l, 'x) api_cell \<Rightarrow> 'l list_struct option" where
  "a_restoreList (ARestoreList s) = Some s" | "a_restoreList _ = None"

fun a_restoreSpec :: "('m, 'l, 'x) api_cell \<Rightarrow> ETCDSnapshotSpec option" where
  "a_restoreSpec (ARestoreSpec s) = Some s" | "a_restoreSpec _ = None"

fun a_restoreStatus :: "('m, 'l, 'x) api_cell \<Rightarrow> status_struct option" where
  "a_restoreStatus (ARestoreStatus s) = Some s" | "a_restoreStatus _ = None"

fun a_backup :: "('m, 'l, 'x) api_cell \<Rightarrow> 'm backup_struct option" where
  "a_backup (ABackup s) = Some s" | "a_backup _ = None"

fun a_backupList :: "('m, 'l, 'x) api_cell \<Rightarrow> 'l list_struct option" where
  "a_backupList (ABackupList s) = Some s" | "a_backupList _ = None"

fun a_backupSpec :: "('m, 'l, 'x) api_cell \<Rightarrow> EtcdMachineBackupSpec option" where
  "a_backupSpec (ABackupSpec s) = Some s" | "a_backupSpec _ = None"

fun a_backupStatus :: "('m, 'l, 'x) api_cell \<Rightarrow> backup_status_struct option" where
  "a_backupStatus (ABackupStatus s) = Some s" | "a_backupStatus _ = None"

type_synonym ('m, 'l, 'x, 's) copier = "'s \<Rightarrow> ('m, 'l, 'x) api_cell heap \<Rightarrow> 's \<times> ('m, 'l, 'x) api_cell heap"

text \<open>The zero values \<open>make\<close> fills an array with; \<open>zm\<close> is that of the metadata.\<close>

definition zero_condition :: condition where
  "zero_condition = \<lparr>cond_Type = [], cond_Status = [], cond_Severity = [], cond_LastTransitionTime = [],
     cond_Reason = [], cond_Message = []\<rparr>"

definition zero_list :: "'l \<Rightarrow> 'l list_struct" where
  "zero_list zl = \<lparr>ls_TypeMeta = ([], []), ls_ListMeta = zl, ls_Items = None\<rparr>"

definition zero_restoreSpec :: ETCDSnapshotSpec where
  "zero_restoreSpec = \<lparr>srs_ClusterName = [], srs_EtcdMachineBackupName = []\<rparr>"

definition zero_restoreStatus :: status_struct where
  "zero_restoreStatus = \<lparr>ss_Phase = [], ss_Conditions = None\<rparr>"

definition zero_backupSpec :: EtcdMachineBackupSpec where
  "zero_backupSpec = \<lparr>mbs_ClusterName = [], mbs_MachineName = [], mbs_Location = [], mbs_Manual = False\<rparr>"

definition zero_backupStatus :: backup_status_struct where
  "zero_backupStatus = \<lparr>bss_Conditions = None\<rparr>"

definition zero_restore :: "'m \<Rightarrow> 'm restore_struct" where
  "zero_restore zm = \<lparr>rs_TypeMeta = ([], []), rs_ObjectMeta = zm,
     rs_Spec = zero_restoreSpec, rs_Status = zero_restoreStatus\<rparr>"

definition zero_backup :: "'m \<Rightarrow> 'm backup_struct" where
  "zero_backup zm = \<lparr>bs_TypeMeta = ([], []), bs_ObjectMeta = zm,
     bs_Spec = zero_backupSpec, bs_Status = zero_backupStatus\<rparr>"

section \<open>The generated functions\<close>

text \<open>A condition holds no pointers, so its copy is the assignment.\<close>

definition copy_conditions :: "('m, 'l, 'x, nat option) copier" where
  "copy_conditions = copy_slice ConditionArray conditions_of zero_condition (\<lambda>c h. (c, h))"

definition DeepCopyInto_restoreSpec :: "ETCDSnapshotSpec \<Rightarrow> ETCDSnapshotSpec" where
  "DeepCopyInto_restoreSpec spec = spec"

definition DeepCopyInto_restoreStatus :: "('m, 'l, 'x, status_struct) copier" where
  "DeepCopyInto_restoreStatus s h =
     (case copy_conditions (ss_Conditions s) h of (cs, h') \<Rightarrow> (s\<lparr>ss_Conditions := cs\<rparr>, h'))"

definition DeepCopyInto_restore :: "('m, 'l, 'x, 'm) copier \<Rightarrow> ('m, 'l, 'x, 'm restore_struct) copier" where
  "DeepCopyInto_restore copyM s h =
     (case copyM (rs_ObjectMeta s) h of (m, h1) \<Rightarrow>
     (case DeepCopyInto_restoreStatus (rs_Status s) h1 of (st, h2) \<Rightarrow>
        (s\<lparr>rs_TypeMeta := rs_TypeMeta s, rs_ObjectMeta := m, rs_Spec := rs_Spec s, rs_Status := st\<rparr>, h2)))"

definition DeepCopyInto_backupSpec :: "EtcdMachineBackupSpec \<Rightarrow> EtcdMachineBackupSpec" where
  "DeepCopyInto_backupSpec spec = spec"

definition DeepCopyInto_backupStatus :: "('m, 'l, 'x, backup_status_struct) copier" where
  "DeepCopyInto_backupStatus s h =
     (case copy_conditions (bss_Conditions s) h of (cs, h') \<Rightarrow> (s\<lparr>bss_Conditions := cs\<rparr>, h'))"

definition DeepCopyInto_backup :: "('m, 'l, 'x, 'm) copier \<Rightarrow> ('m, 'l, 'x, 'm backup_struct) copier" where
  "DeepCopyInto_backup copyM s h =
     (case copyM (bs_ObjectMeta s) h of (m, h1) \<Rightarrow>
     (case DeepCopyInto_backupStatus (bs_Status s) h1 of (st, h2) \<Rightarrow>
        (s\<lparr>bs_TypeMeta := bs_TypeMeta s, bs_ObjectMeta := m, bs_Spec := bs_Spec s, bs_Status := st\<rparr>, h2)))"

definition DeepCopyInto_restoreList ::
  "'m \<Rightarrow> ('m, 'l, 'x, 'm) copier \<Rightarrow> ('m, 'l, 'x, 'l) copier \<Rightarrow> ('m, 'l, 'x, 'l ETCDSnapshotRestoreList) copier" where
  "DeepCopyInto_restoreList zm copyM copyL s h =
     (case copyL (ls_ListMeta s) h of (l, h1) \<Rightarrow>
     (case copy_slice RestoreArray restores_of (zero_restore zm) (DeepCopyInto_restore copyM) (ls_Items s) h1 of (xs, h2) \<Rightarrow>
        (s\<lparr>ls_TypeMeta := ls_TypeMeta s, ls_ListMeta := l, ls_Items := xs\<rparr>, h2)))"

definition DeepCopyInto_backupList ::
  "'m \<Rightarrow> ('m, 'l, 'x, 'm) copier \<Rightarrow> ('m, 'l, 'x, 'l) copier \<Rightarrow> ('m, 'l, 'x, 'l EtcdMachineBackupList) copier" where
  "DeepCopyInto_backupList zm copyM copyL s h =
     (case copyL (ls_ListMeta s) h of (l, h1) \<Rightarrow>
     (case copy_slice BackupArray backups_of (zero_backup zm) (DeepCopyInto_backup copyM) (ls_Items s) h1 of (xs, h2) \<Rightarrow>
        (s\<lparr>ls_TypeMeta := ls_TypeMeta s, ls_ListMeta := l, ls_Items := xs\<rparr>, h2)))"

text \<open>\<open>DeepCopyObject\<close> hands the pointer on as an object, nil as the nil object.\<close>

definition DeepCopyObject :: "('m, 'l, 'x, nat option) copier \<Rightarrow> ('m, 'l, 'x, nat option) copier" where
  "DeepCopyObject copy p h = (case copy p h of
     (Some c, h') \<Rightarrow> (Some c, h')
   | (None, h') \<Rightarrow> (None, h'))"

definition DeepCopy_restore ::
  "'m \<Rightarrow> ('m, 'l, 'x, 'm) copier \<Rightarrow> ('m, 'l, 'x, nat option) copier" where
  "DeepCopy_restore zm copyM = DeepCopy ARestore a_restore (zero_restore zm) (DeepCopyInto_restore copyM)"

definition DeepCopyObject_restore ::
  "'m \<Rightarrow> ('m, 'l, 'x, 'm) copier \<Rightarrow> ('m, 'l, 'x, nat option) copier" where
  "DeepCopyObject_restore zm copyM = DeepCopyObject (DeepCopy_restore zm copyM)"

definition DeepCopy_restoreList ::
  "'m \<Rightarrow> ('m, 'l, 'x, 'm) copier \<Rightarrow> 'l \<Rightarrow> ('m, 'l, 'x, 'l) copier \<Rightarrow> ('m, 'l, 'x, nat option) copier" where
  "DeepCopy_restoreList zm copyM zl copyL = DeepCopy ARestoreList a_restoreList (zero_list zl) (DeepCopyInto_restoreList zm copyM copyL)"

definition DeepCopyObject_restoreList ::
  "'m \<Rightarrow> ('m, 'l, 'x, 'm) copier \<Rightarrow> 'l \<Rightarrow> ('m, 'l, 'x, 'l) copier \<Rightarrow> ('m, 'l, 'x, nat option) copier" where
  "DeepCopyObject_restoreList zm copyM zl copyL = DeepCopyObject (DeepCopy_restoreList zm copyM zl copyL)"

definition DeepCopy_restoreSpec ::
  "('m, 'l, 'x, nat option) copier" where
  "DeepCopy_restoreSpec = DeepCopy ARestoreSpec a_restoreSpec zero_restoreSpec (\<lambda>s h. (DeepCopyInto_restoreSpec s, h))"

definition DeepCopy_restoreStatus ::
  "('m, 'l, 'x, nat option) copier" where
  "DeepCopy_restoreStatus = DeepCopy ARestoreStatus a_restoreStatus zero_restoreStatus DeepCopyInto_restoreStatus"

definition DeepCopy_backup ::
  "'m \<Rightarrow> ('m, 'l, 'x, 'm) copier \<Rightarrow> ('m, 'l, 'x, nat option) copier" where
  "DeepCopy_backup zm copyM = DeepCopy ABackup a_backup (zero_backup zm) (DeepCopyInto_backup copyM)"

definition DeepCopyObject_backup ::
  "'m \<Rightarrow> ('m, 'l, 'x, 'm) copier \<Rightarrow> ('m, 'l, 'x, nat option) copier" where
  "DeepCopyObject_backup zm copyM = DeepCopyObject (DeepCopy_backup zm copyM)"

definition DeepCopy_backupList ::
  "'m \<Rightarrow> ('m, 'l, 'x, 'm) copier \<Rightarrow> 'l \<Rightarrow> ('m, 'l, 'x, 'l) copier \<Rightarrow> ('m, 'l, 'x, nat option) copier" where
  "DeepCopy_backupList zm copyM zl copyL = DeepCopy ABackupList a_backupList (zero_list zl) (DeepCopyInto_backupList zm copyM copyL)"

definition DeepCopyObject_backupList ::
  "'m \<Rightarrow> ('m, 'l, 'x, 'm) copier \<Rightarrow> 'l \<Rightarrow> ('m, 'l, 'x, 'l) copier \<Rightarrow> ('m, 'l, 'x, nat option) copier" where
  "DeepCopyObject_backupList zm copyM zl copyL = DeepCopyObject (DeepCopy_backupList zm copyM zl copyL)"

definition DeepCopy_backupSpec ::
  "('m, 'l, 'x, nat option) copier" where
  "DeepCopy_backupSpec = DeepCopy ABackupSpec a_backupSpec zero_backupSpec (\<lambda>s h. (DeepCopyInto_backupSpec s, h))"

definition DeepCopy_backupStatus ::
  "('m, 'l, 'x, nat option) copier" where
  "DeepCopy_backupStatus = DeepCopy ABackupStatus a_backupStatus zero_backupStatus DeepCopyInto_backupStatus"

section \<open>The generated functions are deep copies\<close>

interpretation plain_value: deep_copy "\<lambda>h c. True" "\<lambda>h c. c" "\<lambda>c h. (c, h)"
  by unfold_locales auto

abbreviation valid_conditions :: "('m, 'l, 'x) api_cell heap \<Rightarrow> nat option \<Rightarrow> bool" where
  "valid_conditions \<equiv> valid_slice conditions_of (\<lambda>h c. True)"

abbreviation read_conditions :: "('m, 'l, 'x) api_cell heap \<Rightarrow> nat option \<Rightarrow> condition list option" where
  "read_conditions \<equiv> read_slice conditions_of (\<lambda>h c. c)"

interpretation conditions: deep_copy valid_conditions read_conditions copy_conditions
  unfolding copy_conditions_def by (rule plain_value.slice_copied) simp

definition valid_restore :: "(('m, 'l, 'x) api_cell heap \<Rightarrow> 'm \<Rightarrow> bool) \<Rightarrow> ('m, 'l, 'x) api_cell heap \<Rightarrow> 'm restore_struct \<Rightarrow> bool" where
  "valid_restore validM h s \<longleftrightarrow> validM h (rs_ObjectMeta s) \<and> valid_conditions h (ss_Conditions (rs_Status s))"

text \<open>What a restore reads as: its values, its metadata and its conditions.\<close>

definition read_restore :: "(('m, 'l, 'x) api_cell heap \<Rightarrow> 'm \<Rightarrow> 'v) \<Rightarrow> ('m, 'l, 'x) api_cell heap \<Rightarrow> 'm restore_struct \<Rightarrow>
    ((string \<times> string) \<times> ETCDSnapshotSpec \<times> ETCDSnapshotPhase) \<times> 'v \<times> condition list option" where
  "read_restore readM h s = ((rs_TypeMeta s, rs_Spec s, ss_Phase (rs_Status s)),
     readM h (rs_ObjectMeta s), read_conditions h (ss_Conditions (rs_Status s)))"

definition valid_backup :: "(('m, 'l, 'x) api_cell heap \<Rightarrow> 'm \<Rightarrow> bool) \<Rightarrow> ('m, 'l, 'x) api_cell heap \<Rightarrow> 'm backup_struct \<Rightarrow> bool" where
  "valid_backup validM h s \<longleftrightarrow> validM h (bs_ObjectMeta s) \<and> valid_conditions h (bss_Conditions (bs_Status s))"

definition read_backup :: "(('m, 'l, 'x) api_cell heap \<Rightarrow> 'm \<Rightarrow> 'v) \<Rightarrow> ('m, 'l, 'x) api_cell heap \<Rightarrow> 'm backup_struct \<Rightarrow>
    ((string \<times> string) \<times> EtcdMachineBackupSpec) \<times> 'v \<times> condition list option" where
  "read_backup readM h s = ((bs_TypeMeta s, bs_Spec s), readM h (bs_ObjectMeta s), read_conditions h (bss_Conditions (bs_Status s)))"

definition read_restoreStatus :: "('m, 'l, 'x) api_cell heap \<Rightarrow> status_struct \<Rightarrow> ETCDSnapshotPhase \<times> condition list option" where
  "read_restoreStatus h s = (ss_Phase s, read_conditions h (ss_Conditions s))"

definition read_backupStatus :: "('m, 'l, 'x) api_cell heap \<Rightarrow> backup_status_struct \<Rightarrow> condition list option" where
  "read_backupStatus h s = read_conditions h (bss_Conditions s)"

lemma restoreStatus_copied:
  "deep_copy (\<lambda>h s. valid_conditions h (ss_Conditions s)) read_restoreStatus DeepCopyInto_restoreStatus"
  using deep_copy_fields [OF conditions.deep_copy_axioms, of ss_Conditions "\<lambda>s cs. s\<lparr>ss_Conditions := cs\<rparr>" ss_Phase]
  unfolding read_restoreStatus_def DeepCopyInto_restoreStatus_def by simp

lemma backupStatus_copied:
  "deep_copy (\<lambda>h s. valid_conditions h (bss_Conditions s)) read_backupStatus DeepCopyInto_backupStatus"
proof (unfold_locales, goal_cases)
  case (1 h s h')
  from conditions.grown [OF this] show ?case by (simp add: read_backupStatus_def)
next
  case (2 h s s' h')
  obtain cs h1 where "copy_conditions (bss_Conditions s) h = (cs, h1)" by fastforce
  with conditions.copied [OF 2(1,2) this] 2(3) show ?case
    by (auto simp: read_backupStatus_def DeepCopyInto_backupStatus_def)
qed

lemma restoreSpec_copied: "deep_copy (\<lambda>h s. True) (\<lambda>h s. s) (\<lambda>s h. (DeepCopyInto_restoreSpec s, h))"
  unfolding DeepCopyInto_restoreSpec_def by (rule plain_value.deep_copy_axioms)

lemma backupSpec_copied: "deep_copy (\<lambda>h s. True) (\<lambda>h s. s) (\<lambda>s h. (DeepCopyInto_backupSpec s, h))"
  unfolding DeepCopyInto_backupSpec_def by (rule plain_value.deep_copy_axioms)

lemma restore_copied:
  assumes "deep_copy validM readM copyM"
  shows "deep_copy (valid_restore validM) (read_restore readM) (DeepCopyInto_restore copyM)"
proof -
  let ?get = "\<lambda>s. (rs_ObjectMeta s, ss_Conditions (rs_Status s))"
  let ?put = "\<lambda>s (m, cs). s\<lparr>rs_ObjectMeta := m, rs_Status := (rs_Status s)\<lparr>ss_Conditions := cs\<rparr>\<rparr>"
  let ?rest = "\<lambda>s. (rs_TypeMeta s, rs_Spec s, ss_Phase (rs_Status s))"
  note deep_copy_fields [OF deep_copy_pair [OF assms conditions.deep_copy_axioms], of ?get ?put ?rest]
  then show ?thesis
    unfolding valid_restore_def read_restore_def DeepCopyInto_restore_def DeepCopyInto_restoreStatus_def
    by (simp add: split_def fun_eq_iff cong: if_cong)
qed

lemma backup_copied:
  assumes "deep_copy validM readM copyM"
  shows "deep_copy (valid_backup validM) (read_backup readM) (DeepCopyInto_backup copyM)"
proof -
  let ?get = "\<lambda>s. (bs_ObjectMeta s, bss_Conditions (bs_Status s))"
  let ?put = "\<lambda>s (m, cs). s\<lparr>bs_ObjectMeta := m, bs_Status := (bs_Status s)\<lparr>bss_Conditions := cs\<rparr>\<rparr>"
  let ?rest = "\<lambda>s. (bs_TypeMeta s, bs_Spec s)"
  note deep_copy_fields [OF deep_copy_pair [OF assms conditions.deep_copy_axioms], of ?get ?put ?rest]
  then show ?thesis
    unfolding valid_backup_def read_backup_def DeepCopyInto_backup_def DeepCopyInto_backupStatus_def
    by (simp add: split_def fun_eq_iff cong: if_cong)
qed

text \<open>Lists: the metadata of the list, and the array of items with what they point to.\<close>

definition valid_list ::
  "(('m, 'l, 'x) api_cell \<Rightarrow> 'e list option) \<Rightarrow> (('m, 'l, 'x) api_cell heap \<Rightarrow> 'e \<Rightarrow> bool) \<Rightarrow>
   (('m, 'l, 'x) api_cell heap \<Rightarrow> 'l \<Rightarrow> bool) \<Rightarrow> ('m, 'l, 'x) api_cell heap \<Rightarrow> 'l list_struct \<Rightarrow> bool" where
  "valid_list dest valid validL h s \<longleftrightarrow> validL h (ls_ListMeta s) \<and> valid_slice dest valid h (ls_Items s)"

definition read_list ::
  "(('m, 'l, 'x) api_cell \<Rightarrow> 'e list option) \<Rightarrow> (('m, 'l, 'x) api_cell heap \<Rightarrow> 'e \<Rightarrow> 'v) \<Rightarrow>
   (('m, 'l, 'x) api_cell heap \<Rightarrow> 'l \<Rightarrow> 'u) \<Rightarrow> ('m, 'l, 'x) api_cell heap \<Rightarrow> 'l list_struct \<Rightarrow>
   (string \<times> string) \<times> 'u \<times> 'v list option" where
  "read_list dest read readL h s = (ls_TypeMeta s, readL h (ls_ListMeta s), read_slice dest read h (ls_Items s))"

lemma list_copied:
  assumes "deep_copy validL readL copyL" and "deep_copy valid read cp" and "\<And>ys. dest (mk ys) = Some ys"
  shows "deep_copy (valid_list dest valid validL) (read_list dest read readL)
    (\<lambda>s h. case copyL (ls_ListMeta s) h of (l, h1) \<Rightarrow>
       (case copy_slice mk dest zero cp (ls_Items s) h1 of (xs, h2) \<Rightarrow> (s\<lparr>ls_TypeMeta := ls_TypeMeta s, ls_ListMeta := l, ls_Items := xs\<rparr>, h2)))"
proof -
  have items: "deep_copy (valid_slice dest valid) (read_slice dest read) (copy_slice mk dest zero cp)"
    by (rule deep_copy.slice_copied [OF assms(2,3)])
  let ?get = "\<lambda>s. (ls_ListMeta s, ls_Items s)" and ?put = "\<lambda>s (l, xs). s\<lparr>ls_ListMeta := l, ls_Items := xs\<rparr>"
  note deep_copy_fields [OF deep_copy_pair [OF assms(1) items], of ?get ?put ls_TypeMeta]
  then show ?thesis
    unfolding valid_list_def read_list_def by (simp add: split_def fun_eq_iff cong: if_cong)
qed

lemma restoreList_copied:
  assumes "deep_copy validM readM copyM" and "deep_copy validL readL copyL"
  shows "deep_copy (valid_list restores_of (valid_restore validM) validL) (read_list restores_of (read_restore readM) readL)
    (DeepCopyInto_restoreList zm copyM copyL)"
  unfolding DeepCopyInto_restoreList_def by (rule list_copied [OF assms(2) restore_copied [OF assms(1)]]) simp

lemma backupList_copied:
  assumes "deep_copy validM readM copyM" and "deep_copy validL readL copyL"
  shows "deep_copy (valid_list backups_of (valid_backup validM) validL) (read_list backups_of (read_backup readM) readL)
    (DeepCopyInto_backupList zm copyM copyL)"
  unfolding DeepCopyInto_backupList_def by (rule list_copied [OF assms(2) backup_copied [OF assms(1)]]) simp

section \<open>Metadata in memory\<close>

text \<open>
  A form the metadata can have in memory, to show that the laws can hold: a name, and the
  labels as an array of pairs of their own; list metadata without pointers.
\<close>

record meta_struct =
  ms_Name :: string
  ms_Labels :: "nat option"

type_synonym meta_heap = "(meta_struct, string, (string \<times> string) list) api_cell heap"

fun labels_of :: "(meta_struct, string, (string \<times> string) list) api_cell \<Rightarrow> (string \<times> string) list option" where
  "labels_of (OtherCell ls) = Some ls" | "labels_of _ = None"

definition copy_meta :: "meta_struct \<Rightarrow> meta_heap \<Rightarrow> meta_struct \<times> meta_heap" where
  "copy_meta s h = (case copy_slice OtherCell labels_of ([], []) (\<lambda>l h. (l, h)) (ms_Labels s) h of
     (ls, h') \<Rightarrow> (s\<lparr>ms_Labels := ls\<rparr>, h'))"

definition valid_meta :: "meta_heap \<Rightarrow> meta_struct \<Rightarrow> bool" where
  "valid_meta h s \<longleftrightarrow> valid_slice labels_of (\<lambda>h l. True) h (ms_Labels s)"

definition read_meta :: "meta_heap \<Rightarrow> meta_struct \<Rightarrow> string \<times> (string \<times> string) list option" where
  "read_meta h s = (ms_Name s, read_slice labels_of (\<lambda>h l. l) h (ms_Labels s))"

interpretation meta: deep_copy valid_meta read_meta copy_meta
proof -
  have "deep_copy (valid_slice labels_of (\<lambda>h l. True)) (read_slice labels_of (\<lambda>h l. l))
      (copy_slice OtherCell labels_of ([], []) (\<lambda>l h. (l, h)))"
    by (rule plain_value.slice_copied) simp
  from deep_copy_fields [OF this, of ms_Labels "\<lambda>s ls. s\<lparr>ms_Labels := ls\<rparr>" ms_Name]
  show "deep_copy valid_meta read_meta copy_meta"
    unfolding valid_meta_def read_meta_def copy_meta_def by simp
qed

section \<open>Properties\<close>

text \<open>
  What a copy of a pointer is to be: nil for nil; otherwise a new pointer that reads as the
  old one did in every later memory that keeps what the copy allocated, whatever was
  written through the original; while the original reads as before in every later memory
  that keeps what was there, whatever was written through the copy.
\<close>

definition independent_copy ::
  "('m, 'l, 'x, nat option) copier \<Rightarrow> (('m, 'l, 'x) api_cell heap \<Rightarrow> nat option \<Rightarrow> 'v) \<Rightarrow>
   ('m, 'l, 'x) api_cell heap \<Rightarrow> nat option \<Rightarrow> bool" where
  "independent_copy copy read h p \<longleftrightarrow>
     (case copy p h of (q, h') \<Rightarrow>
        if p = None then q = None \<and> h' = h
        else (case q of None \<Rightarrow> False | Some b \<Rightarrow> hp_next h \<le> b) \<and> h \<le> h' \<and>
          (\<forall>g. keeps_from (hp_next h) h' g \<longrightarrow> read g q = read h p) \<and>
          (\<forall>g. h \<le> g \<longrightarrow> read g p = read h p))"

lemma independent_copyI:
  assumes into: "deep_copy valid read into" and dest: "\<And>s. dest (mk s) = Some s"
    and "wf_heap h" and "valid_ptr dest valid h p"
  shows "independent_copy (DeepCopy mk dest zero into) (read_ptr dest read) h p"
proof -
  note ptr = deep_copy.pointer_copied [OF into, of dest mk zero, OF dest]
  obtain q h' where run: "DeepCopy mk dest zero into p h = (q, h')" by fastforce
  show ?thesis
  proof (cases p)
    case None
    then show ?thesis by (simp add: independent_copy_def DeepCopy_def)
  next
    case (Some a)
    with run DeepCopy_fresh [of mk dest zero into a h] obtain b where b: "q = Some b" "hp_next h \<le> b" by auto
    have "h \<le> h'" "\<forall>g. keeps_from (hp_next h) h' g \<longrightarrow> read_ptr dest read g q = read_ptr dest read h p"
      using deep_copy.copied [OF ptr assms(3,4) run] by blast+
    moreover have "\<forall>g. h \<le> g \<longrightarrow> read_ptr dest read g p = read_ptr dest read h p"
      using deep_copy.grown [OF ptr assms(4)] by blast
    ultimately show ?thesis
      unfolding independent_copy_def run prod.case using b Some by (simp only: option.case option.distinct if_False)
  qed
qed

lemma DeepCopyObject_same [simp]: "DeepCopyObject copy = copy"
  by (intro ext) (simp add: DeepCopyObject_def split: prod.split option.split)

lemma independent_copy_object: "independent_copy copy read h p \<Longrightarrow> independent_copy (DeepCopyObject copy) read h p"
  by simp

text \<open>C31: The base of a patch does not change. A deep copy of a restore, of a backup, or of their
  status and specification allocates a new struct and leaves the memory there was as it is;
  the copy reads as the original did at the time of the copy in every later memory in which
  the cells it allocated are still the same, and the original in every one in which the
  cells there were are: neither is reached by what is written through the other. The copy
  of nil is nil.\<close>

theorem deep_copy_independent:
  assumes "deep_copy validM readM copyM" and "wf_heap h"
    and "valid_ptr a_restore (valid_restore validM) h r" and "valid_ptr a_backup (valid_backup validM) h b"
    and "valid_ptr a_restoreStatus (\<lambda>h s. valid_conditions h (ss_Conditions s)) h rst"
    and "valid_ptr a_backupStatus (\<lambda>h s. valid_conditions h (bss_Conditions s)) h bst"
    and "valid_ptr a_restoreSpec (\<lambda>h s. True) h rsp" and "valid_ptr a_backupSpec (\<lambda>h s. True) h bsp"
  shows "independent_copy (DeepCopyObject_restore zm copyM) (read_ptr a_restore (read_restore readM)) h r \<and>
    independent_copy (DeepCopyObject_backup zm copyM) (read_ptr a_backup (read_backup readM)) h b \<and>
    independent_copy DeepCopy_restoreStatus (read_ptr a_restoreStatus read_restoreStatus) h rst \<and>
    independent_copy DeepCopy_backupStatus (read_ptr a_backupStatus read_backupStatus) h bst \<and>
    independent_copy DeepCopy_restoreSpec (read_ptr a_restoreSpec (\<lambda>h s. s)) h rsp \<and>
    independent_copy DeepCopy_backupSpec (read_ptr a_backupSpec (\<lambda>h s. s)) h bsp"
  unfolding DeepCopy_restoreSpec_def DeepCopy_backupSpec_def DeepCopy_restoreStatus_def DeepCopy_backupStatus_def
    DeepCopyObject_restore_def DeepCopy_restore_def DeepCopyObject_backup_def DeepCopy_backup_def
  by (intro conjI independent_copy_object independent_copyI [OF restore_copied [OF assms(1)] _ assms(2,3)]
      independent_copyI [OF backup_copied [OF assms(1)] _ assms(2,4)]
      independent_copyI [OF restoreStatus_copied _ assms(2,5)] independent_copyI [OF backupStatus_copied _ assms(2,6)]
      independent_copyI [OF restoreSpec_copied _ assms(2,7)] independent_copyI [OF backupSpec_copied _ assms(2,8)])
    simp_all

text \<open>A memory with one object of each type, whose metadata and conditions are shared.\<close>

definition demo_conditions :: status_struct where
  "demo_conditions = \<lparr>ss_Phase = ETCDSnapshotPhaseStarted, ss_Conditions = Some 1\<rparr>"

definition demo_restore_struct :: "meta_struct restore_struct" where
  "demo_restore_struct = (zero_restore \<lparr>ms_Name = ''r'', ms_Labels = Some 0\<rparr>)\<lparr>rs_Status := demo_conditions\<rparr>"

definition demo_backup_struct :: "meta_struct backup_struct" where
  "demo_backup_struct = zero_backup \<lparr>ms_Name = ''b'', ms_Labels = Some 0\<rparr>"

definition demo_list :: "nat \<Rightarrow> string list_struct" where
  "demo_list a = \<lparr>ls_TypeMeta = ([], []), ls_ListMeta = ''1'', ls_Items = Some a\<rparr>"

definition demo_memory :: meta_heap where
  "demo_memory =
     (let cells = [OtherCell [(''app'', ''etcd'')], ConditionArray [zero_condition],
        RestoreArray [demo_restore_struct], BackupArray [demo_backup_struct],
        ARestore demo_restore_struct, ABackup demo_backup_struct, ARestoreStatus demo_conditions,
        ABackupStatus \<lparr>bss_Conditions = Some 1\<rparr>, ARestoreSpec zero_restoreSpec, ABackupSpec zero_backupSpec,
        ARestoreList (demo_list 2), ABackupList (demo_list 3)]
      in \<lparr>hp_cell = (\<lambda>a. if a < length cells then Some (cells ! a) else None), hp_next = length cells\<rparr>)"

lemmas demo_memory_defs = demo_memory_def Let_def wf_heap_def valid_restore_def valid_backup_def valid_meta_def
  valid_slice_def valid_ptr_def array_at_def zero_restore_def zero_backup_def zero_backupStatus_def
  demo_restore_struct_def demo_backup_struct_def demo_conditions_def demo_list_def

definition zero_meta :: meta_struct where
  "zero_meta = \<lparr>ms_Name = [], ms_Labels = None\<rparr>"

theorem deep_copy_independent_witness:
  "independent_copy (DeepCopyObject_restore zero_meta copy_meta) (read_ptr a_restore (read_restore read_meta)) demo_memory (Some 4) \<and>
   independent_copy (DeepCopyObject_backup zero_meta copy_meta) (read_ptr a_backup (read_backup read_meta)) demo_memory (Some 5) \<and>
   independent_copy DeepCopy_restoreStatus (read_ptr a_restoreStatus read_restoreStatus) demo_memory (Some 6) \<and>
   independent_copy DeepCopy_backupStatus (read_ptr a_backupStatus read_backupStatus) demo_memory (Some 7) \<and>
   independent_copy DeepCopy_restoreSpec (read_ptr a_restoreSpec (\<lambda>h s. s)) demo_memory (Some 8) \<and>
   independent_copy DeepCopy_backupSpec (read_ptr a_backupSpec (\<lambda>h s. s)) demo_memory (Some 9)"
  by (rule deep_copy_independent [OF meta.deep_copy_axioms]) (simp_all add: demo_memory_defs)

text \<open>C32: The same holds of the lists: their items are copied into an array of their own, each
  with all it points to, in order.\<close>

theorem deep_copy_list_independent:
  assumes "deep_copy validM readM copyM" and "deep_copy validL readL copyL" and "wf_heap h"
    and "valid_ptr a_restoreList (valid_list restores_of (valid_restore validM) validL) h rs"
    and "valid_ptr a_backupList (valid_list backups_of (valid_backup validM) validL) h bs"
  shows "independent_copy (DeepCopyObject_restoreList zm copyM zl copyL)
      (read_ptr a_restoreList (read_list restores_of (read_restore readM) readL)) h rs \<and>
    independent_copy (DeepCopyObject_backupList zm copyM zl copyL)
      (read_ptr a_backupList (read_list backups_of (read_backup readM) readL)) h bs"
  unfolding DeepCopyObject_restoreList_def DeepCopy_restoreList_def DeepCopyObject_backupList_def DeepCopy_backupList_def
  by (intro conjI independent_copy_object independent_copyI [OF restoreList_copied [OF assms(1,2)] _ assms(3,4)]
      independent_copyI [OF backupList_copied [OF assms(1,2)] _ assms(3,5)]) simp_all

theorem deep_copy_list_independent_witness:
  "independent_copy (DeepCopyObject_restoreList zero_meta copy_meta [] (\<lambda>l h. (l, h)))
     (read_ptr a_restoreList (read_list restores_of (read_restore read_meta) (\<lambda>h l. l))) demo_memory (Some 10) \<and>
   independent_copy (DeepCopyObject_backupList zero_meta copy_meta [] (\<lambda>l h. (l, h)))
     (read_ptr a_backupList (read_list backups_of (read_backup read_meta) (\<lambda>h l. l))) demo_memory (Some 11)"
  by (rule deep_copy_list_independent [OF meta.deep_copy_axioms plain_value.deep_copy_axioms])
    (simp_all add: demo_memory_defs valid_list_def)

end
