(* ===== verification/Spec2Isabelle.thy ===== *)
theory Spec2Isabelle
  imports Restore_Faults Write_Conflicts Snapshot_Restored Webhook_Clash Backup_Controller Manager_Main Install_Run Deep_Copy
begin

text \<open>
  A verification development of turtles-etcd-restore, a Kubernetes operator that restores the
  etcd of an RKE2 cluster managed by the Cluster API from a snapshot. All paths below are under
  \<open>src/\<close>.

  \<^bold>\<open>The program.\<close> The operator is one process, \<open>cmd/main.go\<close>, that runs three reconcilers and a
  webhook against the API server of the management cluster.

  \<^item> The webhook (\<open>internal/webhook\<close>) changes each \<open>RKE2Config\<close> on admission: it creates the plan
    secret of the machine with an identity that may read it, and adds files and a command that
    install the system agent. The agent runs the plan in that secret and reports the checksum
    of the plan it has applied.
  \<^item> The sync reconciler (\<open>internal/controller/etcdsnaphotsync_controller.go\<close>) reads the snapshot
    files of a workload cluster and creates an \<open>EtcdMachineBackup\<close> for each that is ready.
  \<^item> The restore reconciler (\<open>internal/controller/etcdsnapshotrestore_controller.go\<close>) moves an
    \<open>ETCDSnapshotRestore\<close> through the phases Started, Shutdown, Restore and Finished: it writes the
    plans of \<open>internal/controller/instructions.go\<close> into the plan secrets, first the one that stops
    RKE2 on all machines, then the one that restores on the machine of the backup, then those
    that start it and let the others join, and waits for the reports in between.
  \<^item> The backup reconciler (\<open>internal/controller/etcdmachinebackup_controller.go\<close>) does nothing.

  They share nothing in memory. They meet in the objects of the API server: the webhook's
  secret is the one the restore reconciler looks for, the sync reconciler's backup names the
  machine it restores on.

  \<^bold>\<open>How it is modelled.\<close> A Go function is a function of the same name and of the client it calls,
  \<open>'w client\<close>, a record of operations on an arbitrary state \<open>'w\<close> (\<open>Kube_Client\<close>); its result is
  a value, an error or a panic, with the state after it (\<open>Go_Prelude\<close>). An operation of the
  client may change the state in any way, so a theorem about every client is one about every
  failure, every stale read and every interleaving with other writers. A theorem about what
  the operator gets done names the laws of the server it needs, as a locale, and the reference
  server of \<open>Api_Store\<close> satisfies each of these.

  \<^bold>\<open>Theories.\<close>

  \<^item> \<open>Go_Prelude\<close>: byte strings, Go maps, errors, computations and their combinators.
  \<^item> \<open>Api_Types\<close>: \<open>api/v1alpha1\<close> field by field; of the types of other modules, the fields used.
  \<^item> \<open>Kube_Client\<close>: the client, and a client that records every call, for statements on traces.
  \<^item> \<open>Sha256\<close>, \<open>Go_Json\<close>: the parts of the Go library that decide whether a plan was applied.
  \<^item> \<open>Plan_Instructions\<close>: \<open>instructions.go\<close>. Plans are read back as they were printed, and the
    four stages have different plans.
  \<^item> \<open>Restore_Controller\<close>: every function of the restore reconciler. \<open>Restore_Safety\<close>,
    \<open>Restore_Errors\<close> and \<open>Restore_Reconcile\<close> hold what it does against any client: what it
    writes and when, and which errors its calls lead to; \<open>Restore_Progress\<close> refines
    a reconciliation to a step \<open>advance\<close> of an abstract machine of phase, pause, plans and
    reports; \<open>Restore_Convergence\<close> ends it; \<open>Restore_System\<close> interleaves it with the agents;
    \<open>Restore_Faults\<close> holds where it panics or is stuck; \<open>Write_Conflicts\<close> what becomes of a plan
    when others write to the secret.
  \<^item> \<open>Snapshot_Sync\<close> and \<open>Snapshot_Store\<close>: every function of the sync reconciler; against any
    client and tracker, and against a server that stores backups, where a run is the reference
    \<open>fold add_backup\<close> over the files.
  \<^item> \<open>Backup_Controller\<close>: every function of the backup reconciler, which leaves everything as it is.
  \<^item> \<open>RKE2_Webhook\<close>, \<open>Plan_Secrets\<close>, \<open>Webhook_Clash\<close>: every function of
    \<open>internal/webhook/rke2config_webhook.go\<close>; against any client, against a server that keeps
    secrets, and against one that lists them.
  \<^item> \<open>Install_Script\<close> and \<open>Install_Run\<close>: the text in \<open>internal/webhook/installsh.go\<close>, and its
    download loops and the commands around them as a program with an exit code.
  \<^item> \<open>Manager_Main\<close>: the flags of \<open>cmd/main.go\<close>, the options they become, and the order of the
    set-up, from reading the cluster's configuration to the start of the manager.
  \<^item> \<open>Deep_Copy\<close>: \<open>api/v1alpha1/zz_generated.deepcopy.go\<close> on an explicit memory, in which structs
    and arrays are allocated and pointers are addresses. Everywhere else a
    record stands for the struct behind a pointer, and a copy made by \<open>DeepCopy\<close> is the record
    as it was; this theory is why that is right.
  \<^item> \<open>Api_Store\<close> and \<open>Demo_Cluster\<close>: the reference server, and the cluster of the examples.
  \<^item> \<open>Snapshot_Restored\<close>: from a snapshot file to the restored cluster, through the sync and the
    restore reconciler. This theory: what holds across the webhook and the two of them.

  \<^bold>\<open>Interfaces.\<close> \<open>kind_api\<close> holds the laws of one kind of objects: reads return what is stored, a
  patch made from the current version is applied and one from any other is refused.
  \<open>restore_api\<close> puts it together for the kinds the restore reconciler patches; \<open>create_api\<close> and its
  extension \<open>listing_api\<close> are what the webhook relies on, \<open>backup_api\<close> what the sync reconciler
  does. Each is interpreted on the reference server. \<open>ensured\<close> is what the four installing steps
  of the webhook have in common, \<open>phase_handler\<close> what the handlers of the three working phases
  have, \<open>deep_copy\<close> what the generated functions promise; each is interpreted on the functions
  of the code.

  \<^bold>\<open>Loops and bounds.\<close> Loops over slices are \<open>for_range\<close>, a structural recursion. \<open>retry.OnError\<close> is
  \<open>attempts\<close> with any number of retries. The download loops of the script have a termination
  measure, the retries left. \<open>json_parse\<close> runs with the length of its input as fuel, which the
  round trip shows to be enough for every printed value. A restore is finished after at most
  eight rounds of a reconciliation followed by the agents: one writes a plan and the next
  finds it applied, which takes two to stop the machines, two to restore and three to start
  the init machine and then the others; the last unpauses the cluster. SHA-256 works on words of 32 bits that wrap around; its message
  length is a word of 64 bits.

  \<^bold>\<open>Not modelled.\<close> The API server, the caches of its client and the manager of controller-runtime,
  the cluster cache tracker, gzip, \<open>clientcmd.Write\<close>, the command line parser, the shell's
  commands and the system agent are parameters, with laws where a theorem needs them; the
  agents of \<open>restore_converges\<close> may be any that report. The scheme \<open>init\<close> fills is the list
  of its kinds. Log lines and contexts have no effect on anything else and are left out, as are
  marker comments and struct tags; generated manifests, build files, the end-to-end tests and
  the scripts of the developers are not part of the operator.
\<close>

context restore_api begin

lemma read_secret: "map_of (st_secrets w) k = Some s \<Longrightarrow> call (get_Secret c k) w = (Return s, w)"
  by (rule secrets.call_get)

end

section \<open>From the webhook to the restore\<close>

text \<open>A configuration to admit, and the server it is admitted on: the settings of Rancher are
  there, and a controller fills the tokens of service accounts in the pauses.\<close>

definition demo_new_config :: rke2_config where
  "demo_new_config = demo_config ''m3''"

definition demo_new_machine :: machine where
  "demo_new_machine = demo_machine ''m3''"

definition demo_setting :: "string \<Rightarrow> unstructured" where
  "demo_setting v = \<lparr>un_gvk = setting_gvk, un_Object = [(''value'', JString v)]\<rparr>"

definition demo_rancher :: store where
  "demo_rancher = demo_store\<lparr>st_unstructured :=
     [((setting_gvk, key [] ''server-url''), demo_setting ''https://rancher''),
      ((setting_gvk, key [] ''cacerts''), demo_setting ''pem'')]\<rparr>"

definition fill_tokens :: "store \<Rightarrow> store" where
  "fill_tokens w = w\<lparr>st_secrets := map (\<lambda>(k, s). (k,
     if sec_Type s = ''kubernetes.io/service-account-token''
     then s\<lparr>sec_Data := Some [(''token'', ''t'')]\<rparr> else s)) (st_secrets w)\<rparr>"

text \<open>What the API server does with the admitted configuration.\<close>

definition store_config :: "rke2_config \<Rightarrow> store \<Rightarrow> store" where
  "store_config cfg w = w\<lparr>st_configs := AList.update (key_of (rc_meta cfg)) cfg (st_configs w)\<rparr>"

lemma store_config_keeps: "map_of (st_secrets (store_config cfg w)) = map_of (st_secrets w)"
  by (simp add: store_config_def)

text \<open>C7: What the webhook admits the restore controller can drive. On a server that keeps
  secrets, the webhook refuses a configuration with a bad request, or leaves a secret under
  the name it derives from the configuration; and once the configuration is stored, that
  secret is the plan secret the restore controller finds for every machine that names the
  configuration.\<close>

theorem admitted_machine_can_be_restored:
  assumes "restore_api c" and "create_api c" and "\<And>k w. secret_at k w \<Longrightarrow> secret_at k (pause w)"
    and "mc_ConfigRef m = Some ref" and "or_Name ref = rc_Name cfg" and "mc_Namespace m = rc_Namespace cfg"
  shows "case Default c (retry_lib kw pause n) (RKE2ConfigObject cfg) w of
      (Return cfg', w') \<Rightarrow>
        (case getPlanSecretForMachine c m (store_config cfg' w') of
           (Return s, w'') \<Rightarrow> w'' = store_config cfg' w' \<and>
             map_of (st_secrets w') (key (rc_Namespace cfg) (config_plan_secret_name cfg)) = Some s
         | _ \<Rightarrow> False)
    | (Error e, w') \<Rightarrow> bad_request e
    | (Panicked p, w') \<Rightarrow> False"
proof (cases "Default c (retry_lib kw pause n) (RKE2ConfigObject cfg) w")
  case (Pair out w')
  have fails: "case out of Return a \<Rightarrow> True | Error e \<Rightarrow> bad_request e | Panicked p \<Rightarrow> False"
    using bad_request_Default [of c kw pause n "RKE2ConfigObject cfg"] Pair unfolding fails_with_def by blast
  show ?thesis
  proof (cases out)
    case (Return cfg')
    with Pair have run: "Default c (retry_lib kw pause n) (RKE2ConfigObject cfg) w = (Return cfg', w')" by simp
    then have cfg': "rc_meta cfg' = rc_meta cfg"
      using yieldsD [OF yields_default_config, of c "retry_lib kw pause n" cfg w cfg' w'] installed_appends [of cfg]
      by auto
    from create_api.plan_secret_installed [OF assms(2) run assms(3)] obtain s
      where s: "map_of (st_secrets w') (key (rc_Namespace cfg) (config_plan_secret_name cfg)) = Some s"
      by (auto simp: secret_at_def)
    have config: "call (get_RKE2Config c (key (mc_Namespace m) (or_Name ref))) (store_config cfg' w') =
        (Return cfg', store_config cfg' w')"
      by (rule call_Inr, rule restore_api.get_config [OF assms(1)])
        (simp add: store_config_def update_conv' cfg' assms(5,6))
    have secret: "call (get_Secret c (key (mc_Namespace m) (plan_secret_name cfg'))) (store_config cfg' w') =
        (Return s, store_config cfg' w')"
      by (rule restore_api.read_secret [OF assms(1)])
        (use s in \<open>simp add: store_config_keeps assms(6) plan_secret_name_def config_plan_secret_name_def cfg'\<close>)
    have "getPlanSecretForMachine c m (store_config cfg' w') = (Return s, store_config cfg' w')"
      by (simp add: getPlanSecretForMachine_def assms(4) bind_err_Return config secret ret_run)
    with run s show ?thesis by simp
  next
    case (Error e)
    with Pair fails show ?thesis by simp
  next
    case (Panicked p)
    with Pair fails show ?thesis by simp
  qed
qed

lemma fill_tokens_keeps: "secret_at k w \<Longrightarrow> secret_at k (fill_tokens w)"
  by (auto simp: secret_at_def fill_tokens_def map_of_map)

lemma demo_admitted:
  "case fst (Default server (retry_lib (\<lambda>kc. Inr ''kubeconfig'') fill_tokens 1) (RKE2ConfigObject demo_new_config) demo_rancher) of
     Return cfg' \<Rightarrow> True | _ \<Rightarrow> False"
  by code_simp

theorem admitted_machine_can_be_restored_witness:
  "case Default server (retry_lib (\<lambda>kc. Inr ''kubeconfig'') fill_tokens 1) (RKE2ConfigObject demo_new_config) demo_rancher of
      (Return cfg', w') \<Rightarrow>
        (case getPlanSecretForMachine server demo_new_machine (store_config cfg' w') of
           (Return s, w'') \<Rightarrow> w'' = store_config cfg' w' \<and>
             map_of (st_secrets w') (key (rc_Namespace demo_new_config) (config_plan_secret_name demo_new_config)) = Some s
         | _ \<Rightarrow> False)
    | (Error e, w') \<Rightarrow> bad_request e
    | (Panicked p, w') \<Rightarrow> False"
  by (rule admitted_machine_can_be_restored [OF restore_server.restore_api_axioms create_server.create_api_axioms
        fill_tokens_keeps, where ref = "\<lparr>or_Kind = ''RKE2Config'', or_Name = ''m3''\<rparr>"])
    (simp_all add: demo_new_machine_def demo_new_config_def demo_defs)

section \<open>From a snapshot to its restore\<close>

lemma machine_on_node_found:
  assumes "machine_on_node cn nodeName ms w = (Return nm, w')" and "nm \<noteq> []"
  obtains m where "m \<in> set ms" "mc_Name m = nm" "mc_ClusterName m = cn" "map_option or_Name (mc_NodeRef m) = Some nodeName"
proof -
  have "\<exists>m \<in> set ms. mc_Name m = nm \<and> mc_ClusterName m = cn \<and> map_option or_Name (mc_NodeRef m) = Some nodeName"
    using assms
  proof (induction ms)
    case (Cons m ms)
    then show ?case
      by (cases "mc_NodeRef m") (auto simp: go_run panicking_def ret_def split: if_splits)
  qed (simp add: ret_run)
  with that show thesis by blast
qed

text \<open>C8: The backup the sync controller creates for a snapshot can be restored: as long as
  its machine is listed with the label of its cluster, the restore controller finds the
  machine that runs the snapshot's node; it is the machine the
  snapshot was taken on.\<close>

theorem synced_backup_restorable:
  assumes "machine_on_node (om_Name (cl_meta cl)) (sf_nodeName sf) ms w = (Return nm, w)" and "nm \<noteq> []"
    and "distinct (map mc_Name ms)"
    and "list_all (\<lambda>m. mc_ClusterName m = om_Name (cl_meta cl) \<longrightarrow>
      selects (MatchingLabels [(ClusterNameLabel, om_Name (cl_meta cl))]) (mc_meta m)) ms"
  shows "case find_init_machine
        (filter (\<lambda>m. selects (MatchingLabels [(ClusterNameLabel, om_Name (cl_meta cl))]) (mc_meta m)) ms)
        (mbs_MachineName (mb_Spec (backup_for cl sf nm))) of
      Some m \<Rightarrow> m \<in> set ms \<and> mc_Name m = nm \<and> mc_ClusterName m = om_Name (cl_meta cl)
        \<and> map_option or_Name (mc_NodeRef m) = Some (sf_nodeName sf)
    | None \<Rightarrow> False"
proof -
  let ?listed = "filter (\<lambda>m. selects (MatchingLabels [(ClusterNameLabel, om_Name (cl_meta cl))]) (mc_meta m)) ms"
  obtain m where m: "m \<in> set ms" "mc_Name m = nm"
    "mc_ClusterName m = om_Name (cl_meta cl)" "map_option or_Name (mc_NodeRef m) = Some (sf_nodeName sf)"
    by (rule machine_on_node_found [OF assms(1,2)])
  then have listed: "m \<in> set ?listed" using assms(4) by (auto simp: list_all_iff)
  have "find (\<lambda>m. mc_Name m = nm) ?listed = Some m"
  proof -
    from listed m(2) obtain m' where m': "find (\<lambda>m. mc_Name m = nm) ?listed = Some m'"
      by (cases "find (\<lambda>m. mc_Name m = nm) ?listed") (auto simp: find_None_iff)
    then have "m' \<in> set ms" "mc_Name m' = nm" by (auto simp: find_Some_iff dest: nth_mem)
    with m(1,2) assms(3) have "m' = m" by (auto simp: distinct_map inj_on_def)
    with m' show ?thesis by simp
  qed
  with m show ?thesis by (simp add: find_init_machine_def backup_for_def)
qed

definition demo_fields :: snapshot_fields where
  "demo_fields = \<lparr>sf_location = ''/s'', sf_nodeName = ''m2'', sf_snapshotName = ''s'', sf_readyToUse = True\<rparr>"

theorem synced_backup_restorable_witness:
  "case find_init_machine
        (filter (\<lambda>m. selects (MatchingLabels [(ClusterNameLabel, om_Name (cl_meta demo_cluster))]) (mc_meta m))
          (map demo_machine [''m1'', ''m2'']))
        (mbs_MachineName (mb_Spec (backup_for demo_cluster demo_fields ''m2''))) of
      Some m \<Rightarrow> m \<in> set (map demo_machine [''m1'', ''m2'']) \<and> mc_Name m = ''m2'' \<and> mc_ClusterName m = om_Name (cl_meta demo_cluster)
        \<and> map_option or_Name (mc_NodeRef m) = Some (sf_nodeName demo_fields)
    | None \<Rightarrow> False"
  by (rule synced_backup_restorable [where w = "()"]) (simp_all add: demo_defs demo_fields_def ret_run)

end
